theory Spec2Isabelle
  imports Complex_Main "HOL-Library.Multiset" "HOL-Library.Sublist"
begin

section \<open>JavaScript values used by the brand explorer\<close>

text \<open>
  Strings are lists of code units. The two names the script compares against contain
  U+00E9, written here as the code unit \<open>0xE9\<close>.
\<close>

definition nestle :: string where
  "nestle = ''Nestl'' @ [CHR 0xE9]"

definition loreal :: string where
  "loreal = ''L'' @ [CHR 0x27] @ ''Or'' @ [CHR 0xE9] @ ''al''"

text \<open>
  A brand record of \<open>brands.json\<close>. \<open>name\<close> is the key of a record and is always a
  string (a record without one is outside the model); every other field may be absent
  (\<open>None\<close>). Where the script tests a field for truth, absent and the empty string are
  false. \<open>nodeType\<close> is the field the script itself writes on the records.
\<close>

record brand =
  name :: string
  category :: "string option"
  region :: "string option"
  tagline :: "string option"
  description :: "string option"
  logo_url :: "string option"
  website :: "string option"
  parent_brand :: "string option"
  nodeType :: "string option"

text \<open>\<open>String.prototype.includes\<close>: the argument occurs as a contiguous run.\<close>

fun jsIncludes :: "string \<Rightarrow> string \<Rightarrow> bool" where
  "jsIncludes [] sub = (sub = [])"
| "jsIncludes (c # cs) sub = (prefix sub (c # cs) \<or> jsIncludes cs sub)"

text \<open>
  \<open>Array.prototype.sort\<close> with a comparator: the sort is stable, so for a comparator
  \<open>cmp a b\<close> (read: the callback returns a value \<open>\<le> 0\<close>) it is insertion from the right.
\<close>

fun insertBy :: "('a \<Rightarrow> 'a \<Rightarrow> bool) \<Rightarrow> 'a \<Rightarrow> 'a list \<Rightarrow> 'a list" where
  "insertBy cmp x [] = [x]"
| "insertBy cmp x (y # ys) = (if cmp x y then x # y # ys else y # insertBy cmp x ys)"

definition sortBy :: "('a \<Rightarrow> 'a \<Rightarrow> bool) \<Rightarrow> 'a list \<Rightarrow> 'a list" where
  "sortBy cmp xs = foldr (insertBy cmp) xs []"

text \<open>
  Two functions of the JavaScript runtime are parameters of the model throughout:
  \<open>lower\<close> is \<open>String.prototype.toLowerCase\<close> and \<open>le a b\<close> is
  \<open>a.localeCompare(b) \<le> 0\<close>. The two instances below are used on concrete inputs.
\<close>

definition lowerChar :: "char \<Rightarrow> char" where
  "lowerChar c = (if 65 \<le> (of_char c :: nat) \<and> (of_char c :: nat) \<le> 90
                  then char_of (of_char c + (32 :: nat)) else c)"

definition lowerAscii :: "string \<Rightarrow> string" where
  "lowerAscii s = map lowerChar s"

fun leCodeUnits :: "string \<Rightarrow> string \<Rightarrow> bool" where
  "leCodeUnits [] t = True"
| "leCodeUnits (c # cs) [] = False"
| "leCodeUnits (c # cs) (d # ds) =
     ((of_char c :: nat) < of_char d \<or> (c = d \<and> leCodeUnits cs ds))"

section \<open>Filtering: \<open>filterBrands\<close>\<close>

text \<open>
  \<open>filterBrands\<close> reads two controls of the document, the search box and the region
  selector; \<open>None\<close> is a missing element, \<open>Some v\<close> an element whose value is \<open>v\<close>.
  The filter state of the specification is the typed text and the selected region.
\<close>

record filterControls =
  searchInput :: "string option"
  regionFilter :: "string option"

record FilterState =
  searchText :: string
  regionValue :: string

definition readSearch :: "(string \<Rightarrow> string) \<Rightarrow> string option \<Rightarrow> string" where
  "readSearch lower el = (case el of None \<Rightarrow> [] | Some v \<Rightarrow> lower v)"

definition readRegion :: "string option \<Rightarrow> string" where
  "readRegion el = (case el of None \<Rightarrow> ''all'' | Some v \<Rightarrow> if v = [] then ''all'' else v)"

definition matchesSearch :: "(string \<Rightarrow> string) \<Rightarrow> string \<Rightarrow> brand \<Rightarrow> bool" where
  "matchesSearch lower searchValue b =
     (searchValue = [] \<or>
      (name b \<noteq> [] \<and> jsIncludes (lower (name b)) searchValue) \<or>
      (case description b of None \<Rightarrow> False
         | Some d \<Rightarrow> d \<noteq> [] \<and> jsIncludes (lower d) searchValue) \<or>
      (case tagline b of None \<Rightarrow> False
         | Some t \<Rightarrow> t \<noteq> [] \<and> jsIncludes (lower t) searchValue))"

definition matchesRegion :: "string \<Rightarrow> brand \<Rightarrow> bool" where
  "matchesRegion rv b = (rv = ''all'' \<or> region b = Some rv)"

definition filterBrands :: "(string \<Rightarrow> string) \<Rightarrow> filterControls \<Rightarrow> brand list \<Rightarrow> brand list" where
  "filterBrands lower doc allBrands =
     (let searchValue = readSearch lower (searchInput doc);
          rv = readRegion (regionFilter doc)
      in filter (\<lambda>b. matchesSearch lower searchValue b \<and> matchesRegion rv b) allBrands)"

text \<open>The match predicate in the words of the specification.\<close>

definition containsCI :: "(string \<Rightarrow> string) \<Rightarrow> string option \<Rightarrow> string \<Rightarrow> bool" where
  "containsCI lower field needle =
     (case field of None \<Rightarrow> False | Some s \<Rightarrow> jsIncludes (lower s) (lower needle))"

definition leafMatches :: "(string \<Rightarrow> string) \<Rightarrow> FilterState \<Rightarrow> brand \<Rightarrow> bool" where
  "leafMatches lower f b =
     ((regionValue f = ''all'' \<or> region b = Some (regionValue f)) \<and>
      (searchText f = [] \<or>
       containsCI lower (Some (name b)) (searchText f) \<or>
       containsCI lower (description b) (searchText f) \<or>
       containsCI lower (tagline b) (searchText f)))"

section \<open>The hierarchy: \<open>prepareRadialData\<close>\<close>

text \<open>
  The records of \<open>allBrands\<close> are objects shared between the array and the tree, and
  the tree builder writes to them. The array is the store, a reference to a record is its
  index, and a brand leaf of the tree is such a reference. The other three kinds of node
  are fresh objects: the root, the node of the distinguished parent (a copy of its
  record), and a category node with its name, icon and \<open>isLorealCategory\<close> flag.
\<close>

datatype node =
    RootNode "node list"
  | LorealParentNode brand "node list"
  | CategoryNode string string bool "node list"
  | BrandNode nat

datatype logEvent =
    WarnUnexpectedCategory string "string option"
  | WarnMissingLorealParent

datatype error = TypeError

fun nodeName :: "brand list \<Rightarrow> node \<Rightarrow> string" where
  "nodeName store (RootNode cs) = nestle"
| "nodeName store (LorealParentNode d cs) = name d"
| "nodeName store (CategoryNode n icon lc cs) = n"
| "nodeName store (BrandNode i) = name (store ! i)"

fun nodeTypeOf :: "brand list \<Rightarrow> node \<Rightarrow> string option" where
  "nodeTypeOf store (RootNode cs) = Some ''root''"
| "nodeTypeOf store (LorealParentNode d cs) = nodeType d"
| "nodeTypeOf store (CategoryNode n icon lc cs) = Some ''category''"
| "nodeTypeOf store (BrandNode i) = nodeType (store ! i)"

datatype nodeKind = RootKind | ParentKind | CategoryKind | BrandKind

fun kindOf :: "node \<Rightarrow> nodeKind" where
  "kindOf (RootNode cs) = RootKind"
| "kindOf (LorealParentNode d cs) = ParentKind"
| "kindOf (CategoryNode n icon lc cs) = CategoryKind"
| "kindOf (BrandNode i) = BrandKind"

fun childrenOf :: "node \<Rightarrow> node list" where
  "childrenOf (RootNode cs) = cs"
| "childrenOf (LorealParentNode d cs) = cs"
| "childrenOf (CategoryNode n icon lc cs) = cs"
| "childrenOf (BrandNode i) = []"

definition setBrandType :: "brand \<Rightarrow> brand" where
  "setBrandType b = b\<lparr>nodeType := Some ''brand''\<rparr>"

text \<open>The first loop over \<open>allBrands\<close>: references go to one of two arrays or to neither.\<close>

fun partitionBrands :: "bool \<Rightarrow> brand list \<Rightarrow> nat list \<Rightarrow> nat list \<times> nat list" where
  "partitionBrands haveParent store [] = ([], [])"
| "partitionBrands haveParent store (i # is) =
     (let (direct, lor) = partitionBrands haveParent store is in
      if name (store ! i) = loreal \<and> haveParent then (direct, lor)
      else if parent_brand (store ! i) = Some loreal then (direct, i # lor)
      else (i # direct, lor))"

text \<open>
  The loop over \<open>lorealBrands\<close>: each record is marked as a brand, then pushed to one of
  the three fixed sub-categories or reported with \<open>console.warn\<close> and left out.
\<close>

fun bucketLoreal ::
  "nat list \<Rightarrow> brand list \<times> nat list \<times> nat list \<times> nat list \<times> logEvent list
     \<Rightarrow> brand list \<times> nat list \<times> nat list \<times> nat list \<times> logEvent list" where
  "bucketLoreal [] st = st"
| "bucketLoreal (i # is) (store, frag, cosm, skin, lg) =
     (let store' = store[i := setBrandType (store ! i)];
          c = category (store' ! i)
      in if c = Some ''Fragrances'' then bucketLoreal is (store', frag @ [i], cosm, skin, lg)
         else if c = Some ''Cosmetics'' then bucketLoreal is (store', frag, cosm @ [i], skin, lg)
         else if c = Some ''Skincare'' then bucketLoreal is (store', frag, cosm, skin @ [i], lg)
         else bucketLoreal is
                (store', frag, cosm, skin, lg @ [WarnUnexpectedCategory (name (store' ! i)) c]))"

text \<open>
  \<open>directNestleCategories\<close> is a plain object used as a dictionary: its own keys in
  insertion order, each with the category node under construction (name, icon, children).
  A key that the object inherits from \<open>Object.prototype\<close> reads as a truthy value
  without \<open>children\<close>, so pushing to it raises a \<open>TypeError\<close>. The exception leaves
  the loop with the records as they are then: the record at hand is already marked.
\<close>

definition objectPrototypeKeys :: "string list" where
  "objectPrototypeKeys =
     [''constructor'', ''__defineGetter__'', ''__defineSetter__'', ''hasOwnProperty'',
      ''__lookupGetter__'', ''__lookupSetter__'', ''isPrototypeOf'',
      ''propertyIsEnumerable'', ''toString'', ''valueOf'', ''__proto__'',
      ''toLocaleString'']"

definition isLowerAlnum :: "char \<Rightarrow> bool" where
  "isLowerAlnum c = ((97 \<le> (of_char c :: nat) \<and> (of_char c :: nat) \<le> 122) \<or>
                     (48 \<le> (of_char c :: nat) \<and> (of_char c :: nat) \<le> 57))"

text \<open>\<open>replace(/[^a-z0-9]+/g, '_')\<close>: \<open>inRun\<close> says the previous unit was replaced.\<close>

fun replaceRuns :: "bool \<Rightarrow> string \<Rightarrow> string" where
  "replaceRuns inRun [] = []"
| "replaceRuns inRun (c # cs) =
     (if isLowerAlnum c then c # replaceRuns False cs
      else if inRun then replaceRuns True cs
      else CHR ''_'' # replaceRuns True cs)"

definition svgFileName :: "(string \<Rightarrow> string) \<Rightarrow> string \<Rightarrow> string" where
  "svgFileName lower categoryName =
     (if categoryName = ''Pet Care'' then ''pet_care''
      else if categoryName = ''Ice Cream'' then ''icecream''
      else if categoryName = ''Cereals'' then ''cereals''
      else if categoryName = ''Fragrances'' then ''fragrances''
      else if categoryName = ''Skincare'' then ''skincare''
      else if categoryName = ''Beverages'' then ''beverages''
      else if categoryName = ''Coffee'' then ''coffee''
      else if categoryName = ''Sweets'' then ''sweets''
      else if categoryName = ''Water'' then ''water''
      else if categoryName = ''Cosmetics'' then ''cosmetics''
      else replaceRuns False (lower categoryName))"

definition categoryNameOf :: "brand \<Rightarrow> string" where
  "categoryNameOf b =
     (case category b of None \<Rightarrow> ''Uncategorized''
        | Some c \<Rightarrow> if c = [] then ''Uncategorized'' else c)"

type_synonym catEntry = "string \<times> string \<times> nat list"

fun pushChild :: "string \<Rightarrow> nat \<Rightarrow> (string \<times> catEntry) list \<Rightarrow> (string \<times> catEntry) list" where
  "pushChild k i [] = []"
| "pushChild k i ((k', (nm, icon, ch)) # rest) =
     (if k' = k then (k', (nm, icon, ch @ [i])) # rest
      else (k', (nm, icon, ch)) # pushChild k i rest)"

fun groupDirect ::
  "(string \<Rightarrow> string) \<Rightarrow> nat list \<Rightarrow> brand list \<times> (string \<times> catEntry) list
     \<Rightarrow> error \<times> brand list + brand list \<times> (string \<times> catEntry) list" where
  "groupDirect lower [] st = Inr st"
| "groupDirect lower (i # is) (store, cats) =
     (let store' = store[i := setBrandType (store ! i)];
          categoryName = categoryNameOf (store' ! i)
      in if categoryName \<in> fst ` set cats
         then groupDirect lower is (store', pushChild categoryName i cats)
         else if categoryName \<in> set objectPrototypeKeys then Inl (TypeError, store')
         else groupDirect lower is
                (store', cats @ [(categoryName,
                   (categoryName, ''assets/'' @ svgFileName lower categoryName @ ''.svg'', [i]))]))"

text \<open>
  \<open>for (const categoryKey in directNestleCategories)\<close> visits the keys that are array
  indices first, in ascending numeric order, and then the other keys in insertion order.
\<close>

definition isDigit :: "char \<Rightarrow> bool" where
  "isDigit c = (48 \<le> (of_char c :: nat) \<and> (of_char c :: nat) \<le> 57)"

definition decimalValue :: "string \<Rightarrow> nat" where
  "decimalValue s = foldl (\<lambda>acc c. 10 * acc + (of_char c - 48)) 0 s"

definition isArrayIndex :: "string \<Rightarrow> bool" where
  "isArrayIndex s =
     (s \<noteq> [] \<and> list_all isDigit s \<and> (s = ''0'' \<or> hd s \<noteq> CHR ''0'') \<and>
      length s \<le> 10 \<and> decimalValue s < 4294967295)"

definition forInOrder :: "(string \<times> 'a) list \<Rightarrow> (string \<times> 'a) list" where
  "forInOrder cats =
     sortBy (\<lambda>a b. decimalValue (fst a) \<le> decimalValue (fst b))
            (filter (\<lambda>p. isArrayIndex (fst p)) cats)
     @ filter (\<lambda>p. \<not> isArrayIndex (fst p)) cats"

fun categoryNodes :: "(string \<times> catEntry) list \<Rightarrow> node list" where
  "categoryNodes [] = []"
| "categoryNodes ((k, (nm, icon, ch)) # rest) =
     (if length ch > 0 then CategoryNode nm icon False (map BrandNode ch) # categoryNodes rest
      else categoryNodes rest)"

text \<open>The sorting pass at the end of the builder, as nested as the source has it.\<close>

definition byName :: "(string \<Rightarrow> string \<Rightarrow> bool) \<Rightarrow> brand list \<Rightarrow> node \<Rightarrow> node \<Rightarrow> bool" where
  "byName le store a b = le (nodeName store a) (nodeName store b)"

fun setChildren :: "node \<Rightarrow> node list \<Rightarrow> node" where
  "setChildren (RootNode cs) cs' = RootNode cs'"
| "setChildren (LorealParentNode d cs) cs' = LorealParentNode d cs'"
| "setChildren (CategoryNode n icon lc cs) cs' = CategoryNode n icon lc cs'"
| "setChildren (BrandNode i) cs' = BrandNode i"

definition hasChildren :: "node \<Rightarrow> bool" where
  "hasChildren n = (case n of BrandNode i \<Rightarrow> False | _ \<Rightarrow> True)"

definition sortSubchild :: "(string \<Rightarrow> string \<Rightarrow> bool) \<Rightarrow> brand list \<Rightarrow> node \<Rightarrow> node" where
  "sortSubchild le store subchild =
     (if hasChildren subchild
      then setChildren subchild (sortBy (byName le store) (childrenOf subchild))
      else subchild)"

definition sortChild :: "(string \<Rightarrow> string \<Rightarrow> bool) \<Rightarrow> brand list \<Rightarrow> node \<Rightarrow> node" where
  "sortChild le store child =
     (if hasChildren child then
        (let cs1 = sortBy (byName le store) (childrenOf child) in
         if nodeTypeOf store child = Some ''loreal_parent''
         then setChildren child (map (sortSubchild le store) (sortBy (byName le store) cs1))
         else setChildren child cs1)
      else child)"

definition sortRootChildren :: "(string \<Rightarrow> string \<Rightarrow> bool) \<Rightarrow> brand list \<Rightarrow> node list \<Rightarrow> node list" where
  "sortRootChildren le store cs = map (sortChild le store) (sortBy (byName le store) cs)"

definition lorealSubCategories :: "nat list \<Rightarrow> nat list \<Rightarrow> nat list \<Rightarrow> node list" where
  "lorealSubCategories frag cosm skin =
     (if length frag > 0
      then [CategoryNode ''Fragrances'' ''assets/perfume.svg'' True (map BrandNode frag)] else [])
     @ (if length cosm > 0
        then [CategoryNode ''Cosmetics'' ''assets/cosmetics.svg'' True (map BrandNode cosm)] else [])
     @ (if length skin > 0
        then [CategoryNode ''Skincare'' ''assets/skincare.svg'' True (map BrandNode skin)] else [])"

text \<open>
  The parent-entity part of the builder: the children pushed to the root, the store, the
  array of direct brands (extended when the parent record is missing) and the warnings.
  The builder returns the hierarchy with the store and the warnings it leaves; when the
  grouping loop raises, the exception comes with the store and the warnings left so far.
\<close>

definition buildLoreal ::
  "brand option \<Rightarrow> brand list \<Rightarrow> nat list \<Rightarrow> nat list
     \<Rightarrow> node list \<times> brand list \<times> nat list \<times> logEvent list" where
  "buildLoreal lorealParentNodeData store directNestleBrands lorealBrands =
     (case lorealParentNodeData of
        Some d \<Rightarrow>
          (let (store', frag, cosm, skin, lg) = bucketLoreal lorealBrands (store, [], [], [], []);
               subs = lorealSubCategories frag cosm skin
           in ((if length subs > 0
                then [LorealParentNode (d\<lparr>nodeType := Some ''loreal_parent''\<rparr>) subs] else []),
               store', directNestleBrands, lg))
      | None \<Rightarrow>
          if length lorealBrands > 0
          then ([], store, directNestleBrands @ lorealBrands, [WarnMissingLorealParent])
          else ([], store, directNestleBrands, []))"

definition prepareRadialData ::
  "(string \<Rightarrow> string) \<Rightarrow> (string \<Rightarrow> string \<Rightarrow> bool) \<Rightarrow> brand list
     \<Rightarrow> error \<times> brand list \<times> logEvent list + node \<times> brand list \<times> logEvent list" where
  "prepareRadialData lower le allBrands =
     (let lorealParentNodeData = find (\<lambda>b. name b = loreal) allBrands;
          (directNestleBrands, lorealBrands) =
             partitionBrands (lorealParentNodeData \<noteq> None) allBrands [0..<length allBrands];
          (rootChildren, store1, direct1, lg) =
             buildLoreal lorealParentNodeData allBrands directNestleBrands lorealBrands
      in case groupDirect lower direct1 (store1, []) of
           Inl (e, store2) \<Rightarrow> Inl (e, store2, lg)
         | Inr (store2, cats) \<Rightarrow>
             Inr (RootNode (sortRootChildren le store2
                             (rootChildren @ categoryNodes (forInOrder cats))),
                  store2, lg))"

section \<open>Filter evaluation: \<open>updateRadialView\<close>\<close>

text \<open>
  The set \<open>visibleNodeNames\<close>, built by the additions of the source in their order.
  (The source first computes a second set, \<open>visibleBrandNames\<close>, that it never reads.)
\<close>

definition stringValues :: "string option list \<Rightarrow> string list" where
  "stringValues vs = concat (map (\<lambda>v. case v of None \<Rightarrow> [] | Some s \<Rightarrow> if s = [] then [] else [s]) vs)"

definition addFilteredBrand :: "brand \<Rightarrow> string set \<Rightarrow> string set" where
  "addFilteredBrand b vis =
     (if name b \<noteq> [] then
        (let v1 = insert (name b) vis;
             v2 = (case parent_brand b of None \<Rightarrow> v1
                     | Some p \<Rightarrow> if p \<noteq> [] then insert p v1 else v1)
         in case category b of None \<Rightarrow> v2
              | Some c \<Rightarrow> if c \<noteq> [] then insert c v2 else v2)
      else vis)"

definition visibleNodeNames :: "brand list \<Rightarrow> brand list \<Rightarrow> string set" where
  "visibleNodeNames allBrands filteredBrands =
     (let v0 = {nestle};
          v1 = (case find (\<lambda>b. name b = loreal) allBrands of
                  None \<Rightarrow> v0 | Some lorealParent \<Rightarrow> insert (name lorealParent) v0);
          categories = remdups (stringValues (map category allBrands));
          v2 = fold insert categories v1
      in fold addFilteredBrand filteredBrands v2)"

text \<open>The callback of \<open>classed('filtered', ...)\<close>: whether a drawn node is dimmed.\<close>

definition filteredClass :: "brand list \<Rightarrow> string set \<Rightarrow> node \<Rightarrow> bool" where
  "filteredClass store vis d =
     (if nodeTypeOf store d = Some ''root'' then False
      else if nodeTypeOf store d = Some ''category'' then False
      else if nodeTypeOf store d = Some ''loreal_parent'' then False
      else nodeName store d \<notin> vis)"

text \<open>
  The callback of \<open>style('opacity', ...)\<close> on the links: a link is a pair of a node and
  one of its children, source first.
\<close>

definition linkOpacityOf :: "brand list \<Rightarrow> string set \<Rightarrow> node \<times> node \<Rightarrow> real" where
  "linkOpacityOf store vis l =
     (let src = fst l; tgt = snd l;
          sourceVisible =
            (nodeTypeOf store src = None \<or> nodeTypeOf store src = Some [] \<or>
             nodeTypeOf store src = Some ''root'' \<or>
             nodeTypeOf store src = Some ''category'' \<or>
             nodeTypeOf store src = Some ''loreal_parent'' \<or>
             nodeName store src \<in> vis);
          targetVisible =
            (nodeTypeOf store tgt = None \<or> nodeTypeOf store tgt = Some [] \<or>
             nodeTypeOf store tgt = Some ''category'' \<or>
             nodeName store tgt \<in> vis)
      in if sourceVisible \<and> targetVisible then 1 else 1 / 10)"

text \<open>
  The drawn nodes are \<open>root.descendants()\<close> and the drawn links \<open>root.links()\<close> of the
  hierarchy: the nodes in breadth-first order, and one link for every node but the root,
  in the same order.
\<close>

function breadthFirst :: "node list \<Rightarrow> node list" where
  "breadthFirst [] = []"
| "breadthFirst (n # queue) = n # breadthFirst (queue @ childrenOf n)"
  by pat_completeness auto
termination
proof (relation "measure (\<lambda>q. sum_list (map (\<lambda>n. Suc (size n)) q))")
  show "wf (measure (\<lambda>q. sum_list (map (\<lambda>n. Suc (size n)) q)))" by simp
next
  fix n :: node and queue :: "node list"
  have "sum_list (map (\<lambda>n. Suc (size n)) (childrenOf n)) < Suc (size n)"
    by (cases n) (simp_all add: size_list_conv_sum_list sum_list_Suc)
  then show "(queue @ childrenOf n, n # queue) \<in> measure (\<lambda>q. sum_list (map (\<lambda>n. Suc (size n)) q))"
    by simp
qed

definition descendants :: "node \<Rightarrow> node list" where
  "descendants t = breadthFirst [t]"

function linksFrom :: "(node \<times> node) list \<Rightarrow> (node \<times> node) list" where
  "linksFrom [] = []"
| "linksFrom ((p, n) # queue) = (p, n) # linksFrom (queue @ map (Pair n) (childrenOf n))"
  by pat_completeness auto
termination
proof (relation "measure (\<lambda>q. sum_list (map (\<lambda>l. Suc (size (snd l))) q))")
  show "wf (measure (\<lambda>q. sum_list (map (\<lambda>l. Suc (size (snd l))) q)))" by simp
next
  fix p n :: node and queue :: "(node \<times> node) list"
  have "sum_list (map (\<lambda>n. Suc (size n)) (childrenOf n)) < Suc (size n)"
    by (cases n) (simp_all add: size_list_conv_sum_list sum_list_Suc)
  then show "(queue @ map (Pair n) (childrenOf n), (p, n) # queue)
               \<in> measure (\<lambda>q. sum_list (map (\<lambda>l. Suc (size (snd l))) q))"
    by (simp add: comp_def)
qed

definition links :: "node \<Rightarrow> (node \<times> node) list" where
  "links t = linksFrom (map (Pair t) (childrenOf t))"

text \<open>
  \<open>radialSvg\<close> is \<open>None\<close> before the diagram is drawn, and otherwise holds the hierarchy
  bound to the drawn nodes and links. \<open>updateRadialView\<close> returns nothing in the first
  case. Otherwise it leaves four things on the page: the \<open>filtered\<close> class of every drawn
  node, the opacity of every drawn link, whether the message \<open>No brands found\<close> is in the
  \<open>radial-view\<close> element when it returns, and the opacity of the whole SVG element.
\<close>

record viewUpdate =
  nodeFiltered :: "(node \<times> bool) list"
  linkOpacity :: "((node \<times> node) \<times> real) list"
  noResultsShown :: bool
  svgOpacity :: real

definition updateRadialView ::
  "node option \<Rightarrow> brand list \<Rightarrow> brand list \<Rightarrow> viewUpdate option" where
  "updateRadialView radialSvg allBrands filteredBrands =
     (case radialSvg of
        None \<Rightarrow> None
      | Some tree \<Rightarrow>
          (let vis = visibleNodeNames allBrands filteredBrands in
           Some \<lparr>nodeFiltered =
                    map (\<lambda>d. (d, filteredClass allBrands vis d)) (descendants tree),
                  linkOpacity =
                    map (\<lambda>l. (l, linkOpacityOf allBrands vis l)) (links tree),
                  noResultsShown = (length filteredBrands = 0),
                  svgOpacity = (if length filteredBrands = 0 then 2 / 10 else 1)\<rparr>))"

section \<open>Module state\<close>

text \<open>
  The state outside the core that the core reads or could write. Four fields are globals
  of the script: the brand array, the drawn hierarchy, and the two rotation variables.
  \<open>zoomScale\<close> is not a variable of the script: it is the scale of the zoom transform
  that the D3 zoom behaviour keeps on the SVG element, which the gesture handlers read and
  set.
\<close>

record moduleState =
  allBrands :: "brand list"
  radialSvg :: "node option"
  rotation :: real
  lastGestureRotation :: real
  zoomScale :: real

definition prepareRadialDataG ::
  "(string \<Rightarrow> string) \<Rightarrow> (string \<Rightarrow> string \<Rightarrow> bool) \<Rightarrow> moduleState
     \<Rightarrow> error \<times> moduleState \<times> logEvent list + node \<times> moduleState \<times> logEvent list" where
  "prepareRadialDataG lower le s =
     (case prepareRadialData lower le (allBrands s) of
        Inl (e, store, lg) \<Rightarrow> Inl (e, s\<lparr>allBrands := store\<rparr>, lg)
      | Inr (t, store, lg) \<Rightarrow> Inr (t, s\<lparr>allBrands := store\<rparr>, lg))"

text \<open>
  The layout step of \<open>initializeRadialView\<close>: build the hierarchy and hand it to the
  cluster layout. The layout is \<open>d3.cluster\<close> of the D3 library, which the page loads
  from the network; it is a parameter here, a function from the hierarchy to the positions
  it assigns. An exception of the builder ends the step.
\<close>

definition layoutRadial ::
  "(node \<Rightarrow> 'p) \<Rightarrow> (string \<Rightarrow> string) \<Rightarrow> (string \<Rightarrow> string \<Rightarrow> bool) \<Rightarrow> moduleState
     \<Rightarrow> error \<times> moduleState \<times> logEvent list + 'p \<times> moduleState \<times> logEvent list" where
  "layoutRadial cluster lower le s =
     (case prepareRadialDataG lower le s of
        Inl x \<Rightarrow> Inl x
      | Inr (radialData, s', lg) \<Rightarrow> Inr (cluster radialData, s', lg))"

text \<open>
  \<open>filterBrands\<close> in the radial view: read the array, filter, and annotate the drawn
  nodes. It assigns to no global.
\<close>

definition filterBrandsG ::
  "(string \<Rightarrow> string) \<Rightarrow> filterControls \<Rightarrow> moduleState
     \<Rightarrow> viewUpdate option \<times> moduleState" where
  "filterBrandsG lower doc s =
     (updateRadialView (radialSvg s) (allBrands s) (filterBrands lower doc (allBrands s)), s)"

section \<open>Reading the hierarchy\<close>

text \<open>The brand leaves of a subtree, left to right.\<close>

fun leafRefs :: "node \<Rightarrow> nat list" where
  "leafRefs (RootNode cs) = concat (map leafRefs cs)"
| "leafRefs (LorealParentNode d cs) = concat (map leafRefs cs)"
| "leafRefs (CategoryNode n icon lc cs) = concat (map leafRefs cs)"
| "leafRefs (BrandNode i) = [i]"

text \<open>
  Where a brand leaf hangs: \<open>oneLevelLeaves\<close> lists the leaves at root \<open>\<rightarrow>\<close> category
  \<open>\<rightarrow>\<close> brand and \<open>twoLevelLeaves\<close> those at root \<open>\<rightarrow>\<close> parent entity \<open>\<rightarrow>\<close>
  sub-category \<open>\<rightarrow>\<close> brand, each with the name of its category node.
\<close>

fun brandRef :: "node \<Rightarrow> nat list" where
  "brandRef (BrandNode i) = [i]"
| "brandRef (RootNode cs) = []"
| "brandRef (LorealParentNode d cs) = []"
| "brandRef (CategoryNode n icon lc cs) = []"

fun catLeaves :: "node \<Rightarrow> (string \<times> nat) list" where
  "catLeaves (CategoryNode n icon lc cs) = map (Pair n) (concat (map brandRef cs))"
| "catLeaves (RootNode cs) = []"
| "catLeaves (LorealParentNode d cs) = []"
| "catLeaves (BrandNode i) = []"

fun parentLeaves :: "node \<Rightarrow> (string \<times> nat) list" where
  "parentLeaves (LorealParentNode d ps) = concat (map catLeaves ps)"
| "parentLeaves (RootNode cs) = []"
| "parentLeaves (CategoryNode n icon lc cs) = []"
| "parentLeaves (BrandNode i) = []"

definition oneLevelLeaves :: "node \<Rightarrow> (string \<times> nat) list" where
  "oneLevelLeaves t = (case t of RootNode rs \<Rightarrow> concat (map catLeaves rs) | _ \<Rightarrow> [])"

definition twoLevelLeaves :: "node \<Rightarrow> (string \<times> nat) list" where
  "twoLevelLeaves t = (case t of RootNode rs \<Rightarrow> concat (map parentLeaves rs) | _ \<Rightarrow> [])"

text \<open>The number of children of every parent-entity node attached to the root.\<close>

fun parentChildCount :: "node \<Rightarrow> nat list" where
  "parentChildCount (LorealParentNode d ps) = [length ps]"
| "parentChildCount (RootNode cs) = []"
| "parentChildCount (CategoryNode n icon lc cs) = []"
| "parentChildCount (BrandNode i) = []"

definition parentChildCounts :: "node \<Rightarrow> nat list" where
  "parentChildCounts t = (case t of RootNode rs \<Rightarrow> concat (map parentChildCount rs) | _ \<Rightarrow> [])"

text \<open>The record copied into every parent-entity node attached to the root.\<close>

fun parentRecord :: "node \<Rightarrow> brand list" where
  "parentRecord (LorealParentNode d ps) = [d]"
| "parentRecord (RootNode cs) = []"
| "parentRecord (CategoryNode n icon lc cs) = []"
| "parentRecord (BrandNode i) = []"

definition parentRecords :: "node \<Rightarrow> brand list" where
  "parentRecords t = (case t of RootNode rs \<Rightarrow> concat (map parentRecord rs) | _ \<Rightarrow> [])"

text \<open>Records for concrete inputs: name, category, region and parent brand.\<close>

definition mkBrand :: "string \<Rightarrow> string option \<Rightarrow> string option \<Rightarrow> string option \<Rightarrow> brand" where
  "mkBrand n c r p =
     \<lparr>name = n, category = c, region = r, tagline = None, description = None,
      logo_url = None, website = None, parent_brand = p, nodeType = None\<rparr>"

section \<open>Vocabulary of the properties\<close>

subsection \<open>The runtime's lower-casing\<close>

text \<open>
  The one fact about \<open>toLowerCase\<close> that the match predicate depends on: it maps the
  empty string, and only the empty string, to the empty string.
\<close>

definition lowerCaseFn :: "(string \<Rightarrow> string) \<Rightarrow> bool" where
  "lowerCaseFn lower = (\<forall>s. (lower s = []) = (s = []))"

subsection \<open>Kinds of input record\<close>

text \<open>
  \<open>haveParent\<close>: the input has a record of the parent entity. \<open>knownSub\<close>: a category is
  one of the three fixed sub-categories. A record, given by its index, is
  \<^item> \<open>twoLevelRef\<close>: a sub-brand of the parent entity with a known sub-category;
  \<^item> \<open>rejectedRef\<close>: a sub-brand of the parent entity with any other category;
  \<^item> \<open>oneLevelRef\<close>: a record grouped under a category of the root;
  \<^item> \<open>acceptedRef\<close>: neither named after the parent entity nor rejected.
\<close>

definition haveParent :: "brand list \<Rightarrow> bool" where
  "haveParent bs = (\<exists>b\<in>set bs. name b = loreal)"

definition knownSub :: "string option \<Rightarrow> bool" where
  "knownSub c = (c = Some ''Fragrances'' \<or> c = Some ''Cosmetics'' \<or> c = Some ''Skincare'')"

definition oneLevelRef :: "brand list \<Rightarrow> nat \<Rightarrow> bool" where
  "oneLevelRef bs i =
     (name (bs ! i) \<noteq> loreal \<and> (haveParent bs \<longrightarrow> parent_brand (bs ! i) \<noteq> Some loreal))"

definition twoLevelRef :: "brand list \<Rightarrow> nat \<Rightarrow> bool" where
  "twoLevelRef bs i =
     (haveParent bs \<and> name (bs ! i) \<noteq> loreal \<and> parent_brand (bs ! i) = Some loreal \<and>
      knownSub (category (bs ! i)))"

definition rejectedRef :: "brand list \<Rightarrow> nat \<Rightarrow> bool" where
  "rejectedRef bs i =
     (haveParent bs \<and> name (bs ! i) \<noteq> loreal \<and> parent_brand (bs ! i) = Some loreal \<and>
      \<not> knownSub (category (bs ! i)))"

definition acceptedRef :: "brand list \<Rightarrow> nat \<Rightarrow> bool" where
  "acceptedRef bs i = (name (bs ! i) \<noteq> loreal \<and> \<not> rejectedRef bs i)"

text \<open>The brand array as a build leaves it.\<close>

definition markBrands :: "brand list \<Rightarrow> brand list" where
  "markBrands bs = map (\<lambda>b. if name b = loreal then b else setBrandType b) bs"

subsection \<open>Visible names\<close>

text \<open>
  The names one matched record adds to the visible set, and the names that are in the set
  whatever matches.
\<close>

definition brandNames :: "brand \<Rightarrow> string set" where
  "brandNames b = addFilteredBrand b {}"

definition baseNames :: "brand list \<Rightarrow> string set" where
  "baseNames bs = {nestle} \<union> (if haveParent bs then {loreal} else {})
      \<union> {c. c \<noteq> [] \<and> Some c \<in> category ` set bs}"

text \<open>
  The visible set in the words of the specification: the matched leaves, every ancestor
  of a matched leaf, the root, the category nodes and the parent-entity node.
\<close>

definition claimedVisible :: "brand list \<Rightarrow> brand list \<Rightarrow> node \<Rightarrow> bool" where
  "claimedVisible store matched d =
     (kindOf d = RootKind \<or> kindOf d = CategoryKind \<or> kindOf d = ParentKind \<or>
      (\<exists>i\<in>set (leafRefs d). store ! i \<in> set matched))"

text \<open>
  The matched leaves of the specification: the brand leaves of the hierarchy whose record
  is among the matched records.
\<close>

definition matchedLeafRefs :: "brand list \<Rightarrow> node \<Rightarrow> brand list \<Rightarrow> nat list" where
  "matchedLeafRefs store t matched = filter (\<lambda>i. store ! i \<in> set matched) (leafRefs t)"

subsection \<open>Running again\<close>

text \<open>
  The state a run of the layout step leaves, whether it returns or raises. The comparison
  of names is a total preorder, as \<open>localeCompare\<close> is.
\<close>

definition stateAfter ::
  "error \<times> moduleState \<times> logEvent list + 'p \<times> moduleState \<times> logEvent list \<Rightarrow> moduleState" where
  "stateAfter r = (case r of Inl (e, s, lg) \<Rightarrow> s | Inr (p, s, lg) \<Rightarrow> s)"

definition totalPreorder :: "(string \<Rightarrow> string \<Rightarrow> bool) \<Rightarrow> bool" where
  "totalPreorder le = ((\<forall>a b. le a b \<or> le b a) \<and> (\<forall>a b c. le a b \<longrightarrow> le b c \<longrightarrow> le a c))"

subsection \<open>Closed forms of the builder's loops\<close>

text \<open>Writing \<open>nodeType\<close> on one record, and on a list of records in turn.\<close>

definition mark :: "brand list \<Rightarrow> nat \<Rightarrow> brand list" where
  "mark store i = store[i := setBrandType (store ! i)]"

definition markAll :: "nat list \<Rightarrow> brand list \<Rightarrow> brand list" where
  "markAll is store = fold (\<lambda>i s. mark s i) is store"

text \<open>The three branches of the first loop, and the two arrays it fills.\<close>

definition isSkipped :: "bool \<Rightarrow> brand list \<Rightarrow> nat \<Rightarrow> bool" where
  "isSkipped hp store i = (name (store ! i) = loreal \<and> hp)"

definition isLorealChild :: "bool \<Rightarrow> brand list \<Rightarrow> nat \<Rightarrow> bool" where
  "isLorealChild hp store i = (\<not> isSkipped hp store i \<and> parent_brand (store ! i) = Some loreal)"

definition isDirect :: "bool \<Rightarrow> brand list \<Rightarrow> nat \<Rightarrow> bool" where
  "isDirect hp store i = (\<not> isSkipped hp store i \<and> parent_brand (store ! i) \<noteq> Some loreal)"

definition directRefs :: "brand list \<Rightarrow> nat list" where
  "directRefs bs = filter (isDirect (haveParent bs) bs) [0..<length bs]"

definition lorealRefs :: "brand list \<Rightarrow> nat list" where
  "lorealRefs bs = filter (isLorealChild (haveParent bs) bs) [0..<length bs]"

text \<open>The references that the second grouping loop runs over.\<close>

definition groupedRefs :: "brand list \<Rightarrow> nat list" where
  "groupedRefs bs = (if haveParent bs then directRefs bs else directRefs bs @ lorealRefs bs)"

text \<open>The sub-category nodes, the parent-entity node and the warnings of the sub-brand loop.\<close>

definition subNodes :: "brand list \<Rightarrow> node list" where
  "subNodes bs =
     lorealSubCategories
       (filter (\<lambda>i. category (bs ! i) = Some ''Fragrances'') (lorealRefs bs))
       (filter (\<lambda>i. category (bs ! i) = Some ''Cosmetics'') (lorealRefs bs))
       (filter (\<lambda>i. category (bs ! i) = Some ''Skincare'') (lorealRefs bs))"

definition parentNodes :: "brand \<Rightarrow> brand list \<Rightarrow> node list" where
  "parentNodes d bs =
     (if subNodes bs = [] then []
      else [LorealParentNode (d\<lparr>nodeType := Some ''loreal_parent''\<rparr>) (subNodes bs)])"

definition unexpectedWarnings :: "brand list \<Rightarrow> logEvent list" where
  "unexpectedWarnings bs =
     map (\<lambda>i. WarnUnexpectedCategory (name (bs ! i)) (category (bs ! i)))
         (filter (\<lambda>i. \<not> knownSub (category (bs ! i))) (lorealRefs bs))"

text \<open>
  The dictionary of categories read as pairs of a category name and a child, and the
  invariant that every entry is named by its key.
\<close>

definition entryPairs :: "(string \<times> catEntry) list \<Rightarrow> (string \<times> nat) list" where
  "entryPairs cats = concat (map (\<lambda>(k, nm, icon, ch). map (Pair nm) ch) cats)"

definition namesOk :: "(string \<times> catEntry) list \<Rightarrow> bool" where
  "namesOk cats = list_all (\<lambda>(k, nm, icon, ch). nm = k) cats"

definition catPair :: "brand list \<Rightarrow> nat \<Rightarrow> string \<times> nat" where
  "catPair bs i = (categoryNameOf (bs ! i), i)"

text \<open>
  The nodes of a hierarchy parent first, which are the drawn nodes in another order, and
  what the filter reads of a node: its name, its \<open>nodeType\<close> and its kind. The sorting
  pass permutes the labels of a hierarchy and changes none.
\<close>

fun subtreeNodes :: "node \<Rightarrow> node list" where
  "subtreeNodes (RootNode cs) = RootNode cs # concat (map subtreeNodes cs)"
| "subtreeNodes (LorealParentNode d cs) = LorealParentNode d cs # concat (map subtreeNodes cs)"
| "subtreeNodes (CategoryNode n icon lc cs) = CategoryNode n icon lc cs # concat (map subtreeNodes cs)"
| "subtreeNodes (BrandNode i) = [BrandNode i]"

definition nodeLabels :: "brand list \<Rightarrow> node \<Rightarrow> (string \<times> string option \<times> nodeKind) list" where
  "nodeLabels store t = map (\<lambda>d. (nodeName store d, nodeTypeOf store d, kindOf d)) (subtreeNodes t)"

text \<open>
  The references the grouping loop gets through: all of them, or those up to the first
  record whose category name is a key that the dictionary inherits and does not own.
\<close>

fun processed :: "brand list \<Rightarrow> string set \<Rightarrow> nat list \<Rightarrow> nat list" where
  "processed bs keys [] = []"
| "processed bs keys (i # is) =
     (if categoryNameOf (bs ! i) \<in> keys then i # processed bs keys is
      else if categoryNameOf (bs ! i) \<in> set objectPrototypeKeys then [i]
      else i # processed bs (insert (categoryNameOf (bs ! i)) keys) is)"

definition catLabel :: "string \<times> nat \<Rightarrow> string \<times> string option \<times> nodeKind" where
  "catLabel p = (fst p, Some ''category'', CategoryKind)"

definition leafLabel :: "brand list \<Rightarrow> string \<times> nat \<Rightarrow> string \<times> string option \<times> nodeKind" where
  "leafLabel s p = (name (s ! snd p), nodeType (s ! snd p), BrandKind)"

text \<open>A category node all of whose children are brand leaves.\<close>

fun flatCategory :: "node \<Rightarrow> bool" where
  "flatCategory (CategoryNode n icon lc cs) = list_all (\<lambda>c. kindOf c = BrandKind) cs"
| "flatCategory (RootNode cs) = False"
| "flatCategory (LorealParentNode d cs) = False"
| "flatCategory (BrandNode i) = False"

text \<open>
  The two shapes of a child of the root: such a category node, or a parent-entity node
  marked as one all of whose children are such category nodes.
\<close>

fun rootChildShape :: "node \<Rightarrow> bool" where
  "rootChildShape (LorealParentNode d subs) =
     (nodeType d = Some ''loreal_parent'' \<and> list_all flatCategory subs)"
| "rootChildShape (CategoryNode n icon lc cs) = flatCategory (CategoryNode n icon lc cs)"
| "rootChildShape (RootNode cs) = False"
| "rootChildShape (BrandNode i) = False"

text \<open>Two brand arrays that agree on every field the builder reads.\<close>

definition sameFields :: "brand list \<Rightarrow> brand list \<Rightarrow> bool" where
  "sameFields s bs =
     (length s = length bs \<and>
      (\<lambda>j. name (s ! j)) = (\<lambda>j. name (bs ! j)) \<and>
      (\<lambda>j. category (s ! j)) = (\<lambda>j. category (bs ! j)) \<and>
      (\<lambda>j. parent_brand (s ! j)) = (\<lambda>j. parent_brand (bs ! j)))"

subsection \<open>Concrete inputs\<close>

text \<open>
  Brand lists, hierarchies and states on which the theorems are exercised: the parent
  entity alone; the parent entity with a sub-brand of an unknown category; the parent
  entity with a sub-brand of a known category and a brand of the root; the same with a
  second sub-brand, of an unknown category, which has the same hierarchy; a single brand;
  a brand that names another brand as its parent brand; a brand named like the fallback
  category next to a brand without category; the parent entity naming a brand as its
  parent brand, next to a third brand; and a brand whose category is a key that every
  object inherits, after a brand of the root.
\<close>

definition exParentOnly :: "brand list" where
  "exParentOnly = [mkBrand loreal (Some ''Cosmetics'') (Some ''EU'') None]"

definition exUnknownSub :: "brand list" where
  "exUnknownSub =
     [mkBrand loreal (Some ''Cosmetics'') (Some ''EU'') None,
      mkBrand ''Kerastase'' (Some ''Haircare'') (Some ''EU'') (Some loreal)]"

definition exNested :: "brand list" where
  "exNested =
     [mkBrand loreal (Some ''Cosmetics'') (Some ''EU'') None,
      mkBrand ''Lancome'' (Some ''Fragrances'') (Some ''EU'') (Some loreal),
      mkBrand ''Perrier'' (Some ''Water'') (Some ''EU'') None]"

definition exNestedTree :: node where
  "exNestedTree =
     RootNode
       [LorealParentNode
          ((mkBrand loreal (Some ''Cosmetics'') (Some ''EU'') None)\<lparr>nodeType := Some ''loreal_parent''\<rparr>)
          [CategoryNode ''Fragrances'' ''assets/perfume.svg'' True [BrandNode 1]],
        CategoryNode ''Water'' ''assets/water.svg'' False [BrandNode 2]]"

definition exMixed :: "brand list" where
  "exMixed =
     [mkBrand loreal (Some ''Cosmetics'') (Some ''EU'') None,
      mkBrand ''Lancome'' (Some ''Fragrances'') (Some ''EU'') (Some loreal),
      mkBrand ''Perrier'' (Some ''Water'') (Some ''EU'') None,
      mkBrand ''Kerastase'' (Some ''Haircare'') (Some ''EU'') (Some loreal)]"

definition exWater :: "brand list" where
  "exWater = [mkBrand ''A'' (Some ''Water'') (Some ''EU'') None]"

definition exState :: moduleState where
  "exState = \<lparr>allBrands = exWater, radialSvg = None, rotation = 30,
              lastGestureRotation = 0, zoomScale = 1\<rparr>"

definition exParentBrand :: "brand list" where
  "exParentBrand =
     [mkBrand ''A'' (Some ''Water'') (Some ''EU'') (Some ''B''),
      mkBrand ''B'' (Some ''Water'') (Some ''US'') None]"

definition exParentBrandTree :: node where
  "exParentBrandTree =
     RootNode [CategoryNode ''Water'' ''assets/water.svg'' False [BrandNode 0, BrandNode 1]]"

definition exFallback :: "brand list" where
  "exFallback =
     [mkBrand ''Uncategorized'' (Some ''Water'') (Some ''US'') None,
      mkBrand ''B'' None (Some ''EU'') None]"

definition exFallbackTree :: node where
  "exFallbackTree =
     RootNode
       [CategoryNode ''Uncategorized'' ''assets/uncategorized.svg'' False [BrandNode 1],
        CategoryNode ''Water'' ''assets/water.svg'' False [BrandNode 0]]"

definition regionEU :: filterControls where
  "regionEU = \<lparr>searchInput = Some [], regionFilter = Some ''EU''\<rparr>"

definition regionAS :: filterControls where
  "regionAS = \<lparr>searchInput = Some [], regionFilter = Some ''AS''\<rparr>"

definition exLeafSets :: "brand list" where
  "exLeafSets =
     [mkBrand loreal (Some ''Cosmetics'') (Some ''EU'') (Some ''Perrier''),
      mkBrand ''Perrier'' (Some ''Water'') (Some ''US'') None,
      mkBrand ''Vittel'' (Some ''Water'') (Some ''AS'') None]"

definition exLeafSetsTree :: node where
  "exLeafSetsTree =
     RootNode [CategoryNode ''Water'' ''assets/water.svg'' False [BrandNode 1, BrandNode 2]]"

definition exThrow :: "brand list" where
  "exThrow =
     [mkBrand ''Perrier'' (Some ''Water'') (Some ''EU'') None,
      mkBrand ''Lego'' (Some ''constructor'') (Some ''EU'') None,
      mkBrand ''Vittel'' (Some ''Water'') (Some ''EU'') None]"

definition exThrowLeft :: "brand list" where
  "exThrowLeft =
     [(mkBrand ''Perrier'' (Some ''Water'') (Some ''EU'') None)\<lparr>nodeType := Some ''brand''\<rparr>,
      (mkBrand ''Lego'' (Some ''constructor'') (Some ''EU'') None)\<lparr>nodeType := Some ''brand''\<rparr>,
      mkBrand ''Vittel'' (Some ''Water'') (Some ''EU'') None]"

definition exThrowState :: moduleState where
  "exThrowState = \<lparr>allBrands = exThrow, radialSvg = None, rotation = 30,
                    lastGestureRotation = 0, zoomScale = 1\<rparr>"

definition exFallbackState :: moduleState where
  "exFallbackState = \<lparr>allBrands = exFallback, radialSvg = None, rotation = 30,
                       lastGestureRotation = 0, zoomScale = 1\<rparr>"

section \<open>Properties\<close>

subsection \<open>Sorting permutes\<close>

lemma mset_insertBy: "mset (insertBy cmp x xs) = add_mset x (mset xs)"
  by (induction xs) auto

lemma mset_sortBy: "mset (sortBy cmp xs) = mset xs"
  unfolding sortBy_def by (induction xs) (auto simp: mset_insertBy)

lemma set_sortBy: "set (sortBy cmp xs) = set xs"
  using mset_sortBy [of cmp xs] by (metis set_mset_mset)

lemma length_sortBy: "length (sortBy cmp xs) = length xs"
  using mset_sortBy [of cmp xs] by (metis size_mset)

lemma mset_concat_map_cong:
  "mset xs = mset ys \<Longrightarrow> mset (concat (map f xs)) = mset (concat (map f ys))"
proof -
  have "\<And>zs. mset (concat (map f zs)) = (\<Sum>z\<in>#mset zs. mset (f z))"
    by (induct_tac zs) auto
  then show "mset xs = mset ys \<Longrightarrow> ?thesis" by simp
qed

lemma mset_concat_map_sortBy:
  "mset (concat (map f (sortBy cmp xs))) = mset (concat (map f xs))"
  by (rule mset_concat_map_cong) (rule mset_sortBy)

lemma insertBy_cong:
  "(\<And>y. y \<in> set xs \<Longrightarrow> cmp x y = cmp' x y) \<Longrightarrow> insertBy cmp x xs = insertBy cmp' x xs"
  by (induction xs) auto

lemma set_insertBy: "set (insertBy cmp x xs) = insert x (set xs)"
  using mset_insertBy [of cmp x xs] by (metis set_mset_add_mset_insert set_mset_mset)

lemma sortBy_cong:
  "(\<And>x y. x \<in> set xs \<Longrightarrow> y \<in> set xs \<Longrightarrow> cmp x y = cmp' x y) \<Longrightarrow> sortBy cmp xs = sortBy cmp' xs"
proof (induction xs)
  case Nil
  then show ?case by (simp add: sortBy_def)
next
  case (Cons a xs)
  have ih: "sortBy cmp xs = sortBy cmp' xs" using Cons by simp
  have "insertBy cmp a (sortBy cmp' xs) = insertBy cmp' a (sortBy cmp' xs)"
    by (rule insertBy_cong) (simp add: set_sortBy Cons.prems)
  with ih show ?case by (simp add: sortBy_def)
qed

subsection \<open>Marking records\<close>

lemma setBrandType_fields [simp]:
  "name (setBrandType b) = name b" "category (setBrandType b) = category b"
  "parent_brand (setBrandType b) = parent_brand b" "region (setBrandType b) = region b"
  "description (setBrandType b) = description b" "tagline (setBrandType b) = tagline b"
  "nodeType (setBrandType b) = Some ''brand''"
  "setBrandType (setBrandType b) = setBrandType b"
  by (simp_all add: setBrandType_def)

lemma categoryNameOf_setBrandType [simp]: "categoryNameOf (setBrandType b) = categoryNameOf b"
  by (simp add: categoryNameOf_def)

lemma mark_nth: "mark s i ! j = (if j = i \<and> i < length s then setBrandType (s ! j) else s ! j)"
  by (cases "i < length s") (auto simp: mark_def list_update_beyond)

lemma mark_fields [simp]:
  "name (mark s i ! j) = name (s ! j)" "category (mark s i ! j) = category (s ! j)"
  "parent_brand (mark s i ! j) = parent_brand (s ! j)"
  "categoryNameOf (mark s i ! j) = categoryNameOf (s ! j)"
  by (simp_all add: mark_nth)

lemma length_mark [simp]: "length (mark s i) = length s"
  by (simp add: mark_def)

lemma markAll_simps [simp]:
  "markAll [] s = s" "markAll (i # is) s = markAll is (mark s i)"
  by (simp_all add: markAll_def)

lemma markAll_append: "markAll (xs @ ys) s = markAll ys (markAll xs s)"
  by (simp add: markAll_def)

lemma length_markAll [simp]: "length (markAll is s) = length s"
  by (induction "is" arbitrary: s) auto

lemma markAll_nth:
  "j < length s \<Longrightarrow> markAll is s ! j = (if j \<in> set is then setBrandType (s ! j) else s ! j)"
  by (induction "is" arbitrary: s) (auto simp: mark_nth)

lemma markAll_fields [simp]:
  "name (markAll is s ! j) = name (s ! j)" "category (markAll is s ! j) = category (s ! j)"
  "parent_brand (markAll is s ! j) = parent_brand (s ! j)"
  "categoryNameOf (markAll is s ! j) = categoryNameOf (s ! j)"
  by (induction "is" arbitrary: s) auto

subsection \<open>The loops of the builder\<close>

lemma partitionBrands_eq:
  "partitionBrands hp store is = (filter (isDirect hp store) is, filter (isLorealChild hp store) is)"
  by (induction "is") (auto simp: isDirect_def isLorealChild_def isSkipped_def)

lemma bucketLoreal_eq:
  "bucketLoreal is (s, F, C, S, L) =
     (markAll is s,
      F @ filter (\<lambda>i. category (s ! i) = Some ''Fragrances'') is,
      C @ filter (\<lambda>i. category (s ! i) = Some ''Cosmetics'') is,
      S @ filter (\<lambda>i. category (s ! i) = Some ''Skincare'') is,
      L @ map (\<lambda>i. WarnUnexpectedCategory (name (s ! i)) (category (s ! i)))
              (filter (\<lambda>i. \<not> knownSub (category (s ! i))) is))"
proof (induction "is" arbitrary: s F C S L)
  case Nil
  then show ?case by simp
next
  case (Cons i "is")
  have m: "s[i := setBrandType (s ! i)] = mark s i" by (simp add: mark_def)
  show ?case
    by (simp add: Let_def m Cons.IH knownSub_def)
qed

lemma entryPairs_simps [simp]:
  "entryPairs [] = []"
  "entryPairs ((k, nm, icon, ch) # rest) = map (Pair nm) ch @ entryPairs rest"
  "entryPairs (xs @ ys) = entryPairs xs @ entryPairs ys"
  by (simp_all add: entryPairs_def)

lemma namesOk_simps [simp]:
  "namesOk []"
  "namesOk ((k, nm, icon, ch) # rest) = (nm = k \<and> namesOk rest)"
  "namesOk (xs @ ys) = (namesOk xs \<and> namesOk ys)"
  by (simp_all add: namesOk_def)

lemma pushChild_keys [simp]: "fst ` set (pushChild k i cats) = fst ` set cats"
  by (induction k i cats rule: pushChild.induct) auto

lemma pushChild_namesOk: "namesOk cats \<Longrightarrow> namesOk (pushChild k i cats)"
  by (induction k i cats rule: pushChild.induct) auto

lemma pushChild_pairs:
  "k \<in> fst ` set cats \<Longrightarrow> namesOk cats \<Longrightarrow>
   mset (entryPairs (pushChild k i cats)) = add_mset (k, i) (mset (entryPairs cats))"
  by (induction k i cats rule: pushChild.induct) auto

lemma groupDirect_Cons:
  "groupDirect lower (i # is) (s, cats) =
     (if categoryNameOf (s ! i) \<in> fst ` set cats
      then groupDirect lower is (mark s i, pushChild (categoryNameOf (s ! i)) i cats)
      else if categoryNameOf (s ! i) \<in> set objectPrototypeKeys then Inl (TypeError, mark s i)
      else groupDirect lower is
             (mark s i, cats @ [(categoryNameOf (s ! i),
                (categoryNameOf (s ! i),
                 ''assets/'' @ svgFileName lower (categoryNameOf (s ! i)) @ ''.svg'', [i]))]))"
proof -
  have m: "s[i := setBrandType (s ! i)] = mark s i" by (simp add: mark_def)
  show ?thesis by (simp only: groupDirect.simps Let_def m mark_fields)
qed

lemma groupDirect_ok:
  "groupDirect lower is (s, cats) = Inr (s2, cats2) \<Longrightarrow> namesOk cats \<Longrightarrow>
   s2 = markAll is s \<and> namesOk cats2 \<and>
   mset (entryPairs cats2) =
     mset (entryPairs cats) + mset (map (\<lambda>i. (categoryNameOf (s ! i), i)) is)"
proof (induction "is" arbitrary: s cats)
  case Nil
  then show ?case by simp
next
  case (Cons i "is")
  let ?k = "categoryNameOf (s ! i)"
  show ?case
  proof (cases "?k \<in> fst ` set cats")
    case True
    with Cons.prems have g: "groupDirect lower is (mark s i, pushChild ?k i cats) = Inr (s2, cats2)"
      by (simp add: groupDirect_Cons del: groupDirect.simps)
    from Cons.IH [OF g pushChild_namesOk [OF Cons.prems(2)]]
    show ?thesis using True Cons.prems(2) by (simp add: pushChild_pairs)
  next
    case False
    let ?e = "(?k, (?k, ''assets/'' @ svgFileName lower ?k @ ''.svg'', [i]))"
    from False Cons.prems have g: "groupDirect lower is (mark s i, cats @ [?e]) = Inr (s2, cats2)"
      by (simp add: groupDirect_Cons del: groupDirect.simps split: if_splits)
    have "namesOk (cats @ [?e])" using Cons.prems(2) by simp
    from Cons.IH [OF g this] show ?thesis by simp
  qed
qed

lemma groupDirect_cong:
  "(\<And>j. categoryNameOf (s ! j) = categoryNameOf (s' ! j)) \<Longrightarrow>
   map_sum fst snd (groupDirect lower is (s, cats)) = map_sum fst snd (groupDirect lower is (s', cats))"
proof (induction "is" arbitrary: s s' cats)
  case Nil
  then show ?case by simp
next
  case (Cons i "is")
  have e: "categoryNameOf (s ! i) = categoryNameOf (s' ! i)" by (rule Cons.prems)
  have m: "\<And>j. categoryNameOf (mark s i ! j) = categoryNameOf (mark s' i ! j)"
    using Cons.prems by simp
  show ?case
    unfolding groupDirect_Cons e
    using Cons.IH [OF m] by simp
qed

lemma groupDirect_fails:
  "isl (groupDirect lower is (s, cats)) \<longleftrightarrow>
     (\<exists>i\<in>set is. categoryNameOf (s ! i) \<notin> fst ` set cats \<and>
                  categoryNameOf (s ! i) \<in> set objectPrototypeKeys)"
proof (induction "is" arbitrary: s cats)
  case Nil
  then show ?case by simp
next
  case (Cons i "is")
  let ?k = "categoryNameOf (s ! i)"
  show ?case
  proof (cases "?k \<in> fst ` set cats")
    case True
    then show ?thesis unfolding groupDirect_Cons by (simp add: Cons.IH)
  next
    case False
    show ?thesis
    proof (cases "?k \<in> set objectPrototypeKeys")
      case True
      with False show ?thesis unfolding groupDirect_Cons by simp
    next
      case np: False
      have "\<And>j. categoryNameOf (s ! j) \<in> set objectPrototypeKeys \<Longrightarrow> categoryNameOf (s ! j) \<noteq> ?k"
        using np by auto
      then show ?thesis using False np unfolding groupDirect_Cons
        by (simp add: Cons.IH) blast
    qed
  qed
qed

subsection \<open>Category nodes and enumeration order\<close>

lemma mset_forInOrder: "mset (forInOrder cats) = mset cats"
  by (simp add: forInOrder_def mset_sortBy)

lemma catLeaves_categoryNodes: "concat (map catLeaves (categoryNodes cs)) = entryPairs cs"
  by (induction cs rule: categoryNodes.induct) (auto simp: comp_def)

lemma parentLeaves_categoryNodes: "concat (map parentLeaves (categoryNodes cs)) = []"
  by (induction cs rule: categoryNodes.induct) auto

lemma parentChildCount_categoryNodes: "concat (map parentChildCount (categoryNodes cs)) = []"
  by (induction cs rule: categoryNodes.induct) auto

lemma leafRefs_categoryNodes: "concat (map leafRefs (categoryNodes cs)) = map snd (entryPairs cs)"
  by (induction cs rule: categoryNodes.induct) (auto simp: comp_def)

lemma mset_entryPairs_cong: "mset xs = mset ys \<Longrightarrow> mset (entryPairs xs) = mset (entryPairs ys)"
  unfolding entryPairs_def by (rule mset_concat_map_cong)

subsection \<open>The sorting pass keeps what hangs where\<close>

lemma mset_concat_map_pointwise:
  "(\<And>x. x \<in> set xs \<Longrightarrow> mset (g x) = mset (f x)) \<Longrightarrow>
   mset (concat (map g xs)) = mset (concat (map f xs))"
  by (induction xs) auto

lemma sortSubchild_cases:
  "sortSubchild le s (BrandNode i) = BrandNode i"
  "sortSubchild le s (CategoryNode n icon lc cs) = CategoryNode n icon lc (sortBy (byName le s) cs)"
  "sortSubchild le s (RootNode cs) = RootNode (sortBy (byName le s) cs)"
  "sortSubchild le s (LorealParentNode d cs) = LorealParentNode d (sortBy (byName le s) cs)"
  by (simp_all add: sortSubchild_def hasChildren_def)

lemma sortChild_cases:
  "sortChild le s (BrandNode i) = BrandNode i"
  "sortChild le s (CategoryNode n icon lc cs) = CategoryNode n icon lc (sortBy (byName le s) cs)"
  "sortChild le s (RootNode cs) = RootNode (sortBy (byName le s) cs)"
  "sortChild le s (LorealParentNode d cs) =
     (if nodeType d = Some ''loreal_parent''
      then LorealParentNode d (map (sortSubchild le s)
             (sortBy (byName le s) (sortBy (byName le s) cs)))
      else LorealParentNode d (sortBy (byName le s) cs))"
  by (simp_all add: sortChild_def hasChildren_def Let_def)

lemma leafRefs_sortSubchild: "mset (leafRefs (sortSubchild le s c)) = mset (leafRefs c)"
  by (cases c) (simp_all add: sortSubchild_cases mset_concat_map_sortBy)

lemma leafRefs_sortChild: "mset (leafRefs (sortChild le s c)) = mset (leafRefs c)"
proof (cases c)
  case (LorealParentNode d cs)
  have "mset (concat (map leafRefs (map (sortSubchild le s)
           (sortBy (byName le s) (sortBy (byName le s) cs))))) =
        mset (concat (map (\<lambda>x. leafRefs (sortSubchild le s x))
           (sortBy (byName le s) (sortBy (byName le s) cs))))"
    by (simp add: comp_def)
  also have "\<dots> = mset (concat (map leafRefs (sortBy (byName le s) (sortBy (byName le s) cs))))"
    by (rule mset_concat_map_pointwise) (rule leafRefs_sortSubchild)
  also have "\<dots> = mset (concat (map leafRefs cs))"
    by (simp add: mset_concat_map_sortBy)
  finally show ?thesis using LorealParentNode
    by (simp add: sortChild_cases mset_concat_map_sortBy)
qed (simp_all add: sortChild_cases mset_concat_map_sortBy)

lemma catLeaves_sortSubchild: "mset (catLeaves (sortSubchild le s c)) = mset (catLeaves c)"
  by (cases c) (simp_all add: sortSubchild_cases mset_concat_map_sortBy)

lemma catLeaves_sortChild: "mset (catLeaves (sortChild le s c)) = mset (catLeaves c)"
  by (cases c) (simp_all add: sortChild_cases mset_concat_map_sortBy)

lemma parentLeaves_sortChild: "mset (parentLeaves (sortChild le s c)) = mset (parentLeaves c)"
proof (cases c)
  case (LorealParentNode d cs)
  have "mset (concat (map catLeaves (map (sortSubchild le s)
           (sortBy (byName le s) (sortBy (byName le s) cs))))) =
        mset (concat (map (\<lambda>x. catLeaves (sortSubchild le s x))
           (sortBy (byName le s) (sortBy (byName le s) cs))))"
    by (simp add: comp_def)
  also have "\<dots> = mset (concat (map catLeaves (sortBy (byName le s) (sortBy (byName le s) cs))))"
    by (rule mset_concat_map_pointwise) (rule catLeaves_sortSubchild)
  also have "\<dots> = mset (concat (map catLeaves cs))"
    by (simp add: mset_concat_map_sortBy)
  finally show ?thesis using LorealParentNode
    by (simp add: sortChild_cases mset_concat_map_sortBy)
qed (simp_all add: sortChild_cases)

lemma parentChildCount_sortChild: "parentChildCount (sortChild le s c) = parentChildCount c"
  by (cases c) (simp_all add: sortChild_cases length_sortBy)

lemma nodeLabels_simps:
  "nodeLabels s (BrandNode i) = [(name (s ! i), nodeType (s ! i), BrandKind)]"
  "nodeLabels s (CategoryNode n icon lc cs) = (n, Some ''category'', CategoryKind) # concat (map (nodeLabels s) cs)"
  "nodeLabels s (RootNode cs) = (nestle, Some ''root'', RootKind) # concat (map (nodeLabels s) cs)"
  "nodeLabels s (LorealParentNode d cs) = (name d, nodeType d, ParentKind) # concat (map (nodeLabels s) cs)"
proof -
  have e: "(\<lambda>x. map (\<lambda>d. (nodeName s d, nodeTypeOf s d, kindOf d)) (subtreeNodes x)) = nodeLabels s"
    by (rule ext) (simp add: nodeLabels_def)
  show "nodeLabels s (BrandNode i) = [(name (s ! i), nodeType (s ! i), BrandKind)]"
    by (simp add: nodeLabels_def)
  show "nodeLabels s (CategoryNode n icon lc cs) = (n, Some ''category'', CategoryKind) # concat (map (nodeLabels s) cs)"
    by (simp add: nodeLabels_def map_concat comp_def) (simp add: e)
  show "nodeLabels s (RootNode cs) = (nestle, Some ''root'', RootKind) # concat (map (nodeLabels s) cs)"
    by (simp add: nodeLabels_def map_concat comp_def) (simp add: e)
  show "nodeLabels s (LorealParentNode d cs) = (name d, nodeType d, ParentKind) # concat (map (nodeLabels s) cs)"
    by (simp add: nodeLabels_def map_concat comp_def) (simp add: e)
qed

lemma nodeLabels_sortSubchild: "mset (nodeLabels st (sortSubchild le s c)) = mset (nodeLabels st c)"
  by (cases c) (simp_all add: sortSubchild_cases nodeLabels_simps mset_concat_map_sortBy)

lemma nodeLabels_sortChild: "mset (nodeLabels st (sortChild le s c)) = mset (nodeLabels st c)"
proof (cases c)
  case (LorealParentNode d cs)
  have "mset (concat (map (nodeLabels st) (map (sortSubchild le s)
           (sortBy (byName le s) (sortBy (byName le s) cs))))) =
        mset (concat (map (\<lambda>x. nodeLabels st (sortSubchild le s x))
           (sortBy (byName le s) (sortBy (byName le s) cs))))"
    by (simp add: comp_def)
  also have "\<dots> = mset (concat (map (nodeLabels st) (sortBy (byName le s) (sortBy (byName le s) cs))))"
    by (rule mset_concat_map_pointwise) (rule nodeLabels_sortSubchild)
  also have "\<dots> = mset (concat (map (nodeLabels st) cs))"
    by (simp add: mset_concat_map_sortBy)
  finally show ?thesis using LorealParentNode
    by (simp add: sortChild_cases nodeLabels_simps mset_concat_map_sortBy)
qed (simp_all add: sortChild_cases nodeLabels_simps mset_concat_map_sortBy)

lemma obs_sortRootChildren:
  assumes "\<And>c. mset (f (sortChild le s c)) = mset (f c)"
  shows "mset (concat (map f (sortRootChildren le s rs))) = mset (concat (map f rs))"
proof -
  have "mset (concat (map f (sortRootChildren le s rs))) =
        mset (concat (map (\<lambda>c. f (sortChild le s c)) (sortBy (byName le s) rs)))"
    by (simp add: sortRootChildren_def comp_def)
  also have "\<dots> = mset (concat (map f (sortBy (byName le s) rs)))"
    by (rule mset_concat_map_pointwise) (rule assms)
  also have "\<dots> = mset (concat (map f rs))"
    by (rule mset_concat_map_sortBy)
  finally show ?thesis .
qed

lemma find_haveParent: "(find (\<lambda>b. name b = loreal) bs \<noteq> None) = haveParent bs"
  by (auto simp: find_None_iff haveParent_def)

lemma find_haveParent_ex: "(\<exists>y. find (\<lambda>b. name b = loreal) bs = Some y) = haveParent bs"
  using find_haveParent [of bs] by auto

lemma find_haveParent_Some: "find (\<lambda>b. name b = loreal) bs = Some d \<Longrightarrow> haveParent bs \<and> name d = loreal"
  using find_haveParent [of bs] by (auto simp: find_Some_iff)

lemma prepare_unfold:
  assumes "prepareRadialData lower le bs = Inr (t, s, lg)"
  obtains rc s1 d1 cats where
    "buildLoreal (find (\<lambda>b. name b = loreal) bs) bs
       (filter (isDirect (haveParent bs) bs) [0..<length bs])
       (filter (isLorealChild (haveParent bs) bs) [0..<length bs]) = (rc, s1, d1, lg)"
    "groupDirect lower d1 (s1, []) = Inr (s, cats)"
    "t = RootNode (sortRootChildren le s (rc @ categoryNodes (forInOrder cats)))"
  using assms
  by (auto simp: prepareRadialData_def partitionBrands_eq find_haveParent find_haveParent_ex Let_def
           split: prod.splits sum.splits)

lemma subs_catLeaves:
  "concat (map catLeaves (lorealSubCategories F C S)) =
     map (Pair ''Fragrances'') F @ map (Pair ''Cosmetics'') C @ map (Pair ''Skincare'') S"
  by (simp add: lorealSubCategories_def comp_def)

lemma subs_leafRefs: "concat (map leafRefs (lorealSubCategories F C S)) = F @ C @ S"
  by (simp add: lorealSubCategories_def comp_def)

lemma subs_empty: "(lorealSubCategories F C S = []) = (F = [] \<and> C = [] \<and> S = [])"
  by (simp add: lorealSubCategories_def)

lemma subs_labels:
  "set (concat (map (nodeLabels s) (lorealSubCategories F C S))) =
     (\<lambda>(nm, i). (nm, Some ''category'', CategoryKind)) ` set (concat (map catLeaves (lorealSubCategories F C S))) \<union>
     (\<lambda>(nm, i). (name (s ! i), nodeType (s ! i), BrandKind)) ` set (concat (map catLeaves (lorealSubCategories F C S)))"
  by (cases F; cases C; cases S)
     (auto simp: lorealSubCategories_def nodeLabels_simps comp_def image_Un image_image)

lemma categoryNodes_labels:
  "set (concat (map (nodeLabels s) (categoryNodes cs))) =
     (\<lambda>(nm, i). (nm, Some ''category'', CategoryKind)) ` set (entryPairs cs) \<union>
     (\<lambda>(nm, i). (name (s ! i), nodeType (s ! i), BrandKind)) ` set (entryPairs cs)"
proof (induction cs rule: categoryNodes.induct)
  case 1
  then show ?case by simp
next
  case (2 k nm icon ch rest)
  show ?case
  proof (cases ch)
    case Nil
    with 2 show ?thesis by simp
  next
    case (Cons a list)
    with 2 show ?thesis
      by (auto simp: nodeLabels_simps comp_def image_Un image_image)
  qed
qed

lemma known_pairs:
  "mset (map (Pair ''Fragrances'') (filter (\<lambda>i. category (bs ! i) = Some ''Fragrances'') xs) @
         map (Pair ''Cosmetics'') (filter (\<lambda>i. category (bs ! i) = Some ''Cosmetics'') xs) @
         map (Pair ''Skincare'') (filter (\<lambda>i. category (bs ! i) = Some ''Skincare'') xs)) =
   mset (map (catPair bs) (filter (\<lambda>i. knownSub (category (bs ! i))) xs))"
  by (induction xs) (auto simp: knownSub_def catPair_def categoryNameOf_def)

lemma buildLoreal_Some:
  "buildLoreal (Some d) bs (directRefs bs) (lorealRefs bs) =
     (parentNodes d bs, markAll (lorealRefs bs) bs, directRefs bs, unexpectedWarnings bs)"
  by (simp add: buildLoreal_def bucketLoreal_eq parentNodes_def subNodes_def
                unexpectedWarnings_def Let_def)

lemma buildLoreal_None:
  "buildLoreal None bs (directRefs bs) (lorealRefs bs) =
     ([], bs, directRefs bs @ lorealRefs bs,
      if lorealRefs bs = [] then [] else [WarnMissingLorealParent])"
  by (simp add: buildLoreal_def)

lemma build_cases:
  assumes "prepareRadialData lower le bs = Inr (t, s, lg)"
  obtains (parent) d cats where
      "find (\<lambda>b. name b = loreal) bs = Some d" "haveParent bs" "name d = loreal"
      "groupDirect lower (directRefs bs) (markAll (lorealRefs bs) bs, []) = Inr (s, cats)"
      "t = RootNode (sortRootChildren le s (parentNodes d bs @ categoryNodes (forInOrder cats)))"
      "lg = unexpectedWarnings bs"
    | (noParent) cats where
      "\<not> haveParent bs"
      "groupDirect lower (directRefs bs @ lorealRefs bs) (bs, []) = Inr (s, cats)"
      "t = RootNode (sortRootChildren le s (categoryNodes (forInOrder cats)))"
      "lg = (if lorealRefs bs = [] then [] else [WarnMissingLorealParent])"
proof -
  from assms obtain rc s1 d1 cats where
    b: "buildLoreal (find (\<lambda>b. name b = loreal) bs) bs (directRefs bs) (lorealRefs bs) = (rc, s1, d1, lg)"
    and g: "groupDirect lower d1 (s1, []) = Inr (s, cats)"
    and t: "t = RootNode (sortRootChildren le s (rc @ categoryNodes (forInOrder cats)))"
    unfolding directRefs_def lorealRefs_def by (rule prepare_unfold)
  show thesis
  proof (cases "find (\<lambda>b. name b = loreal) bs")
    case None
    then have h: "\<not> haveParent bs" using find_haveParent [of bs] by simp
    from b None have "rc = []" "s1 = bs" "d1 = directRefs bs @ lorealRefs bs"
      "lg = (if lorealRefs bs = [] then [] else [WarnMissingLorealParent])"
      by (auto simp: buildLoreal_None)
    with g t h show ?thesis by (intro noParent [of cats]) simp_all
  next
    case (Some d)
    from b Some have "rc = parentNodes d bs" "s1 = markAll (lorealRefs bs) bs" "d1 = directRefs bs"
      "lg = unexpectedWarnings bs"
      by (auto simp: buildLoreal_Some)
    with g t Some find_haveParent_Some [OF Some] show ?thesis
      by (intro parent [of d cats]) simp_all
  qed
qed

lemma name_not_loreal: "\<not> haveParent bs \<Longrightarrow> i < length bs \<Longrightarrow> name (bs ! i) \<noteq> loreal"
  by (auto simp: haveParent_def)

lemma mset_groupedRefs: "mset (groupedRefs bs) = mset (filter (oneLevelRef bs) [0..<length bs])"
proof (cases "haveParent bs")
  case True
  then show ?thesis
    by (simp add: groupedRefs_def directRefs_def isDirect_def isSkipped_def oneLevelRef_def)
next
  case False
  have "mset (filter (\<lambda>i. parent_brand (bs ! i) \<noteq> Some loreal) [0..<length bs]) +
        mset (filter (\<lambda>i. \<not> parent_brand (bs ! i) \<noteq> Some loreal) [0..<length bs]) =
        mset [0..<length bs]"
    by (simp only: mset_filter multiset_partition [symmetric])
  moreover have "filter (oneLevelRef bs) [0..<length bs] = [0..<length bs]"
    using False by (auto simp: oneLevelRef_def name_not_loreal intro!: filter_True)
  ultimately show ?thesis using False
    by (simp add: groupedRefs_def directRefs_def lorealRefs_def isDirect_def isLorealChild_def
                  isSkipped_def)
qed

lemma build_grouped:
  assumes "prepareRadialData lower le bs = Inr (t, s, lg)"
  obtains s1 rc cats where
    "groupDirect lower (groupedRefs bs) (s1, []) = Inr (s, cats)"
    "\<forall>j. categoryNameOf (s1 ! j) = categoryNameOf (bs ! j)"
    "t = RootNode (sortRootChildren le s (rc @ categoryNodes (forInOrder cats)))"
    "concat (map catLeaves rc) = []"
  using assms
proof (cases rule: build_cases)
  case (parent d cats)
  have "concat (map catLeaves (parentNodes d bs)) = []" by (simp add: parentNodes_def)
  with parent that [of "markAll (lorealRefs bs) bs" cats "parentNodes d bs"]
  show ?thesis by (simp add: groupedRefs_def)
next
  case (noParent cats)
  with that [of bs cats "[]"] show ?thesis by (simp add: groupedRefs_def)
qed

lemma build_oneLevel:
  assumes "prepareRadialData lower le bs = Inr (t, s, lg)"
  shows "mset (oneLevelLeaves t) = mset (map (catPair bs) (filter (oneLevelRef bs) [0..<length bs]))"
proof -
  from assms obtain s1 rc cats where
    g: "groupDirect lower (groupedRefs bs) (s1, []) = Inr (s, cats)"
    and c: "\<forall>j. categoryNameOf (s1 ! j) = categoryNameOf (bs ! j)"
    and t: "t = RootNode (sortRootChildren le s (rc @ categoryNodes (forInOrder cats)))"
    and r: "concat (map catLeaves rc) = []"
    by (rule build_grouped)
  from groupDirect_ok [OF g] have
    p: "mset (entryPairs cats) = mset (map (catPair bs) (groupedRefs bs))"
    by (simp add: c catPair_def [abs_def])
  have "mset (oneLevelLeaves t) = mset (concat (map catLeaves (rc @ categoryNodes (forInOrder cats))))"
    unfolding t oneLevelLeaves_def by (simp add: obs_sortRootChildren [where f = catLeaves, OF catLeaves_sortChild])
  also have "\<dots> = mset (entryPairs (forInOrder cats))"
    using r by (simp add: catLeaves_categoryNodes)
  also have "\<dots> = mset (entryPairs cats)"
    by (rule mset_entryPairs_cong) (rule mset_forInOrder)
  also have "\<dots> = mset (map (catPair bs) (filter (oneLevelRef bs) [0..<length bs]))"
    unfolding p using mset_groupedRefs [of bs] by (metis mset_map)
  finally show ?thesis .
qed

lemma subNodes_pairs:
  "mset (concat (map catLeaves (subNodes bs))) =
     mset (map (catPair bs) (filter (\<lambda>i. knownSub (category (bs ! i))) (lorealRefs bs)))"
  unfolding subNodes_def subs_catLeaves by (rule known_pairs)

lemma twoLevel_filter:
  "haveParent bs \<Longrightarrow>
   filter (\<lambda>i. knownSub (category (bs ! i))) (lorealRefs bs) = filter (twoLevelRef bs) [0..<length bs]"
  by (auto simp: lorealRefs_def isLorealChild_def isSkipped_def twoLevelRef_def intro: filter_cong)

lemma build_twoLevel:
  assumes "prepareRadialData lower le bs = Inr (t, s, lg)"
  shows "mset (twoLevelLeaves t) = mset (map (catPair bs) (filter (twoLevelRef bs) [0..<length bs]))"
  using assms
proof (cases rule: build_cases)
  case (parent d cats)
  have "mset (twoLevelLeaves t) =
        mset (concat (map parentLeaves (parentNodes d bs @ categoryNodes (forInOrder cats))))"
    unfolding parent(5) twoLevelLeaves_def by (simp add: obs_sortRootChildren [where f = parentLeaves, OF parentLeaves_sortChild])
  also have "\<dots> = mset (concat (map catLeaves (subNodes bs)))"
    by (simp add: parentLeaves_categoryNodes parentNodes_def)
  also have "\<dots> = mset (map (catPair bs) (filter (twoLevelRef bs) [0..<length bs]))"
    by (simp add: subNodes_pairs twoLevel_filter [OF parent(2)])
  finally show ?thesis .
next
  case (noParent cats)
  have "mset (twoLevelLeaves t) = mset (concat (map parentLeaves (categoryNodes (forInOrder cats))))"
    unfolding noParent(3) twoLevelLeaves_def by (simp add: obs_sortRootChildren [where f = parentLeaves, OF parentLeaves_sortChild])
  then show ?thesis using noParent(1)
    by (simp add: parentLeaves_categoryNodes twoLevelRef_def)
qed

lemma subNodes_leafRefs:
  "concat (map leafRefs (subNodes bs)) = map snd (concat (map catLeaves (subNodes bs)))"
  unfolding subNodes_def subs_catLeaves subs_leafRefs by (simp add: comp_def)

lemma subNodes_empty: "(subNodes bs = []) = (concat (map catLeaves (subNodes bs)) = [])"
  unfolding subNodes_def subs_catLeaves subs_empty by simp

lemma build_shape:
  assumes "prepareRadialData lower le bs = Inr (t, s, lg)"
  obtains rc cats where
    "t = RootNode (sortRootChildren le s (rc @ categoryNodes (forInOrder cats)))"
    "mset (entryPairs cats) = mset (oneLevelLeaves t)"
    "(rc = [] \<and> twoLevelLeaves t = []) \<or>
     (\<exists>d. name d = loreal \<and>
          rc = [LorealParentNode (d\<lparr>nodeType := Some ''loreal_parent''\<rparr>) (subNodes bs)] \<and>
          subNodes bs \<noteq> [] \<and>
          mset (concat (map catLeaves (subNodes bs))) = mset (twoLevelLeaves t))"
  using assms
proof (cases rule: build_cases)
  case (parent d cats)
  have one: "mset (oneLevelLeaves t) = mset (entryPairs cats)"
  proof -
    have "mset (oneLevelLeaves t) =
          mset (concat (map catLeaves (parentNodes d bs @ categoryNodes (forInOrder cats))))"
      unfolding parent(5) oneLevelLeaves_def
      by (simp add: obs_sortRootChildren [where f = catLeaves, OF catLeaves_sortChild])
    also have "\<dots> = mset (entryPairs (forInOrder cats))"
      by (simp add: catLeaves_categoryNodes parentNodes_def)
    also have "\<dots> = mset (entryPairs cats)"
      by (rule mset_entryPairs_cong) (rule mset_forInOrder)
    finally show ?thesis .
  qed
  have two: "mset (twoLevelLeaves t) = mset (concat (map catLeaves (subNodes bs)))"
  proof -
    have "mset (twoLevelLeaves t) =
          mset (concat (map parentLeaves (parentNodes d bs @ categoryNodes (forInOrder cats))))"
      unfolding parent(5) twoLevelLeaves_def
      by (simp add: obs_sortRootChildren [where f = parentLeaves, OF parentLeaves_sortChild])
    also have "\<dots> = mset (concat (map catLeaves (subNodes bs)))"
      by (simp add: parentLeaves_categoryNodes parentNodes_def)
    finally show ?thesis .
  qed
  show ?thesis
  proof (cases "subNodes bs = []")
    case True
    with two have "twoLevelLeaves t = []" by simp
    with True parent(5) one show ?thesis
      by (intro that [of "[]" cats]) (simp_all add: parentNodes_def)
  next
    case False
    with parent(3,5) one two show ?thesis
      by (intro that [of "parentNodes d bs" cats]) (auto simp: parentNodes_def)
  qed
next
  case (noParent cats)
  have one: "mset (oneLevelLeaves t) = mset (entryPairs cats)"
  proof -
    have "mset (oneLevelLeaves t) = mset (concat (map catLeaves (categoryNodes (forInOrder cats))))"
      unfolding noParent(3) oneLevelLeaves_def
      by (simp add: obs_sortRootChildren [where f = catLeaves, OF catLeaves_sortChild])
    also have "\<dots> = mset (entryPairs cats)"
      unfolding catLeaves_categoryNodes by (rule mset_entryPairs_cong) (rule mset_forInOrder)
    finally show ?thesis .
  qed
  have "mset (twoLevelLeaves t) = mset (concat (map parentLeaves (categoryNodes (forInOrder cats))))"
    unfolding noParent(3) twoLevelLeaves_def
    by (simp add: obs_sortRootChildren [where f = parentLeaves, OF parentLeaves_sortChild])
  then have "twoLevelLeaves t = []" by (simp add: parentLeaves_categoryNodes)
  with noParent(3) one show ?thesis by (intro that [of "[]" cats]) simp_all
qed

lemma build_leafRefs_pairs:
  assumes "prepareRadialData lower le bs = Inr (t, s, lg)"
  shows "mset (leafRefs t) = mset (map snd (oneLevelLeaves t)) + mset (map snd (twoLevelLeaves t))"
proof -
  from assms obtain rc cats where
    t: "t = RootNode (sortRootChildren le s (rc @ categoryNodes (forInOrder cats)))"
    and one: "mset (entryPairs cats) = mset (oneLevelLeaves t)"
    and two: "(rc = [] \<and> twoLevelLeaves t = []) \<or>
     (\<exists>d. name d = loreal \<and>
          rc = [LorealParentNode (d\<lparr>nodeType := Some ''loreal_parent''\<rparr>) (subNodes bs)] \<and>
          subNodes bs \<noteq> [] \<and>
          mset (concat (map catLeaves (subNodes bs))) = mset (twoLevelLeaves t))"
    by (rule build_shape)
  have "mset (leafRefs t) = mset (concat (map leafRefs (rc @ categoryNodes (forInOrder cats))))"
    unfolding t by (simp add: obs_sortRootChildren [where f = leafRefs, OF leafRefs_sortChild])
  also have "\<dots> = mset (concat (map leafRefs rc)) + mset (map snd (entryPairs (forInOrder cats)))"
    by (simp add: leafRefs_categoryNodes)
  also have "mset (map snd (entryPairs (forInOrder cats))) = mset (map snd (oneLevelLeaves t))"
    using mset_entryPairs_cong [OF mset_forInOrder, of cats] one by (metis mset_map)
  also have "mset (concat (map leafRefs rc)) = mset (map snd (twoLevelLeaves t))"
    using two by (auto simp: subNodes_leafRefs)
  finally show ?thesis by (simp add: add.commute)
qed

lemma snd_catPair: "map snd (map (catPair bs) xs) = xs"
  by (simp add: comp_def catPair_def)

lemma build_leafRefs:
  assumes "prepareRadialData lower le bs = Inr (t, s, lg)"
  shows "mset (leafRefs t) =
         mset (filter (\<lambda>i. oneLevelRef bs i \<or> twoLevelRef bs i) [0..<length bs])"
proof -
  have d: "\<And>i. \<not> (oneLevelRef bs i \<and> twoLevelRef bs i)"
    by (auto simp: oneLevelRef_def twoLevelRef_def)
  have a: "mset (map snd (oneLevelLeaves t)) = mset (filter (oneLevelRef bs) [0..<length bs])"
    using build_oneLevel [OF assms] by (metis mset_map snd_catPair)
  have b: "mset (map snd (twoLevelLeaves t)) = mset (filter (twoLevelRef bs) [0..<length bs])"
    using build_twoLevel [OF assms] by (metis mset_map snd_catPair)
  have c: "mset (filter (oneLevelRef bs) xs) + mset (filter (twoLevelRef bs) xs) =
        mset (filter (\<lambda>i. oneLevelRef bs i \<or> twoLevelRef bs i) xs)" for xs
    using d by (induction xs) auto
  show ?thesis
    unfolding build_leafRefs_pairs [OF assms] a b by (rule c)
qed

lemma markAll_eq_map:
  "markAll is bs = map (\<lambda>j. if j \<in> set is then setBrandType (bs ! j) else bs ! j) [0..<length bs]"
  by (rule nth_equalityI) (simp_all add: markAll_nth)

lemma build_store:
  assumes "prepareRadialData lower le bs = Inr (t, s, lg)"
  shows "s = markBrands bs"
  using assms
proof (cases rule: build_cases)
  case (parent d cats)
  from groupDirect_ok [OF parent(4)]
  have "s = markAll (lorealRefs bs @ directRefs bs) bs" by (simp add: markAll_append)
  also have "\<dots> = markBrands bs"
    using parent(2)
    by (intro nth_equalityI)
       (auto simp: markAll_nth markBrands_def lorealRefs_def directRefs_def isDirect_def
                   isLorealChild_def isSkipped_def)
  finally show ?thesis .
next
  case (noParent cats)
  from groupDirect_ok [OF noParent(2)]
  have "s = markAll (directRefs bs @ lorealRefs bs) bs" by simp
  also have "\<dots> = markBrands bs"
    using noParent(1)
    by (intro nth_equalityI)
       (auto simp: markAll_nth markBrands_def lorealRefs_def directRefs_def isDirect_def
                   isLorealChild_def isSkipped_def name_not_loreal)
  finally show ?thesis .
qed

lemma build_log:
  assumes "prepareRadialData lower le bs = Inr (t, s, lg)"
  shows "lg = (if haveParent bs
               then map (\<lambda>i. WarnUnexpectedCategory (name (bs ! i)) (category (bs ! i)))
                        (filter (rejectedRef bs) [0..<length bs])
               else if \<exists>i<length bs. parent_brand (bs ! i) = Some loreal
                    then [WarnMissingLorealParent] else [])"
  using assms
proof (cases rule: build_cases)
  case (parent d cats)
  have "filter (\<lambda>i. \<not> knownSub (category (bs ! i))) (lorealRefs bs) =
        filter (rejectedRef bs) [0..<length bs]"
    using parent(2)
    by (auto simp: lorealRefs_def isLorealChild_def isSkipped_def rejectedRef_def intro: filter_cong)
  with parent(2,6) show ?thesis by (simp add: unexpectedWarnings_def)
next
  case (noParent cats)
  have "(lorealRefs bs = []) = (\<not> (\<exists>i<length bs. parent_brand (bs ! i) = Some loreal))"
    using noParent(1)
    by (auto simp: lorealRefs_def isLorealChild_def isSkipped_def filter_empty_conv)
  with noParent(1,4) show ?thesis by simp
qed

subsection \<open>The filter predicate\<close>

lemma jsIncludes_sublist: "jsIncludes s sub = sublist sub s"
  by (induction s) (auto simp: sublist_Cons_right)

lemma jsIncludes_Nil_right [simp]: "jsIncludes s []"
  by (cases s) auto

lemma lowerAscii_fn: "lowerCaseFn lowerAscii"
  by (simp add: lowerCaseFn_def lowerAscii_def)

lemma set_filterBrands:
  "set (filterBrands lower doc bs) =
     {b \<in> set bs. matchesSearch lower (readSearch lower (searchInput doc)) b \<and>
                  matchesRegion (readRegion (regionFilter doc)) b}"
  by (auto simp: filterBrands_def Let_def)

lemma matchesSearch_spec:
  assumes "lowerCaseFn lower"
  shows "matchesSearch lower (lower st) b =
     (st = [] \<or> containsCI lower (Some (name b)) st \<or>
      containsCI lower (description b) st \<or> containsCI lower (tagline b) st)"
proof (cases "st = []")
  case True
  with assms have "lower st = []" by (simp add: lowerCaseFn_def)
  with True show ?thesis by (simp add: matchesSearch_def)
next
  case False
  with assms have ne: "lower st \<noteq> []" by (simp add: lowerCaseFn_def)
  have e: "lower [] = []" using assms by (simp add: lowerCaseFn_def)
  have g: "\<And>s. (s \<noteq> [] \<and> jsIncludes (lower s) (lower st)) = jsIncludes (lower s) (lower st)"
    using ne e by (case_tac "s = []") auto
  show ?thesis using False ne
    by (simp add: matchesSearch_def containsCI_def g split: option.splits)
qed

subsection \<open>The set of visible names\<close>

lemma fold_insert_set: "fold insert xs A = set xs \<union> A"
  by (induction xs arbitrary: A) auto

lemma addFilteredBrand_un: "addFilteredBrand b A = A \<union> brandNames b"
  by (auto simp: addFilteredBrand_def brandNames_def Let_def split: option.splits)

lemma fold_addFilteredBrand: "fold addFilteredBrand fs A = A \<union> (\<Union>b\<in>set fs. brandNames b)"
  by (induction fs arbitrary: A) (auto simp: addFilteredBrand_un)

lemma set_stringValues: "set (stringValues vs) = {c. c \<noteq> [] \<and> Some c \<in> set vs}"
  by (induction vs) (auto simp: stringValues_def split: option.splits)

lemma visibleNodeNames_eq:
  "visibleNodeNames bs fs = baseNames bs \<union> (\<Union>b\<in>set fs. brandNames b)"
proof (cases "find (\<lambda>b. name b = loreal) bs")
  case None
  then have "\<not> haveParent bs" using find_haveParent [of bs] by simp
  with None show ?thesis
    by (auto simp: visibleNodeNames_def Let_def fold_addFilteredBrand fold_insert_set
                   set_stringValues baseNames_def)
next
  case (Some p)
  with find_haveParent_Some [OF Some] show ?thesis
    by (auto simp: visibleNodeNames_def Let_def fold_addFilteredBrand fold_insert_set
                   set_stringValues baseNames_def)
qed

text \<open>
  C2, as the code has it. With a search box holding \<open>st\<close> and a region selector holding
  \<open>rg\<close>, a record of the list is matched exactly when it satisfies the match predicate
  of the specification for the search text \<open>st\<close> and the region \<open>rg\<close>, an empty \<open>rg\<close>
  standing for \<open>all\<close>: the region is \<open>all\<close> or equals the record's region, and the
  search text is empty or its lower-cased form occurs in the lower-cased name, description
  or tagline. A missing search box reads as the empty text and a missing selector as
  \<open>all\<close>.
\<close>

theorem filterBrands_matches:
  assumes "lowerCaseFn lower"
  shows "(b \<in> set (filterBrands lower \<lparr>searchInput = Some st, regionFilter = Some rg\<rparr> bs) \<longleftrightarrow>
            b \<in> set bs \<and>
            leafMatches lower
              \<lparr>searchText = st, regionValue = (if rg = [] then ''all'' else rg)\<rparr> b) \<and>
         filterBrands lower \<lparr>searchInput = None, regionFilter = r\<rparr> bs =
           filterBrands lower \<lparr>searchInput = Some [], regionFilter = r\<rparr> bs \<and>
         filterBrands lower \<lparr>searchInput = q, regionFilter = None\<rparr> bs =
           filterBrands lower \<lparr>searchInput = q, regionFilter = Some ''all''\<rparr> bs"
proof -
  have e: "lower [] = []" using assms by (simp add: lowerCaseFn_def)
  have a: "b \<in> set (filterBrands lower \<lparr>searchInput = Some st, regionFilter = Some rg\<rparr> bs) \<longleftrightarrow>
            b \<in> set bs \<and>
            leafMatches lower
              \<lparr>searchText = st, regionValue = (if rg = [] then ''all'' else rg)\<rparr> b"
    using matchesSearch_spec [OF assms, of st b]
    by (auto simp: set_filterBrands leafMatches_def matchesRegion_def readSearch_def
                   readRegion_def)
  have b: "filterBrands lower \<lparr>searchInput = None, regionFilter = r\<rparr> bs =
           filterBrands lower \<lparr>searchInput = Some [], regionFilter = r\<rparr> bs"
    by (simp add: filterBrands_def readSearch_def e)
  have c: "filterBrands lower \<lparr>searchInput = q, regionFilter = None\<rparr> bs =
           filterBrands lower \<lparr>searchInput = q, regionFilter = Some ''all''\<rparr> bs"
    by (simp add: filterBrands_def readRegion_def)
  from a b c show ?thesis by blast
qed

theorem filterBrands_matches_witness:
  "lowerCaseFn lowerAscii \<and>
   mkBrand ''KitKat'' (Some ''Sweets'') (Some ''EU'') None
     \<in> set (filterBrands lowerAscii \<lparr>searchInput = Some ''KIT'', regionFilter = Some ''EU''\<rparr>
              [mkBrand ''Perrier'' (Some ''Water'') (Some ''EU'') None,
               mkBrand ''KitKat'' (Some ''Sweets'') (Some ''EU'') None,
               mkBrand ''Kit Cat'' (Some ''Sweets'') (Some ''US'') None]) \<and>
   mkBrand ''Kit Cat'' (Some ''Sweets'') (Some ''US'') None
     \<notin> set (filterBrands lowerAscii \<lparr>searchInput = Some ''KIT'', regionFilter = Some ''EU''\<rparr>
              [mkBrand ''Perrier'' (Some ''Water'') (Some ''EU'') None,
               mkBrand ''KitKat'' (Some ''Sweets'') (Some ''EU'') None,
               mkBrand ''Kit Cat'' (Some ''Sweets'') (Some ''US'') None]) \<and>
   mkBrand ''Perrier'' (Some ''Water'') (Some ''EU'') None
     \<notin> set (filterBrands lowerAscii \<lparr>searchInput = Some ''KIT'', regionFilter = Some ''EU''\<rparr>
              [mkBrand ''Perrier'' (Some ''Water'') (Some ''EU'') None,
               mkBrand ''KitKat'' (Some ''Sweets'') (Some ''EU'') None,
               mkBrand ''Kit Cat'' (Some ''Sweets'') (Some ''US'') None])"
proof -
  let ?f = "\<lparr>searchText = ''KIT'', regionValue = (if ''EU'' = [] then ''all'' else ''EU'')\<rparr>"
  let ?bs = "[mkBrand ''Perrier'' (Some ''Water'') (Some ''EU'') None,
              mkBrand ''KitKat'' (Some ''Sweets'') (Some ''EU'') None,
              mkBrand ''Kit Cat'' (Some ''Sweets'') (Some ''US'') None]"
  have m1: "leafMatches lowerAscii ?f (mkBrand ''KitKat'' (Some ''Sweets'') (Some ''EU'') None)"
    by code_simp
  have m2: "\<not> leafMatches lowerAscii ?f (mkBrand ''Kit Cat'' (Some ''Sweets'') (Some ''US'') None)"
    by code_simp
  have m3: "\<not> leafMatches lowerAscii ?f (mkBrand ''Perrier'' (Some ''Water'') (Some ''EU'') None)"
    by code_simp
  have i: "mkBrand ''KitKat'' (Some ''Sweets'') (Some ''EU'') None \<in> set ?bs" by simp
  from filterBrands_matches [OF lowerAscii_fn,
         of "mkBrand ''KitKat'' (Some ''Sweets'') (Some ''EU'') None" "''KIT''" "''EU''" ?bs]
       filterBrands_matches [OF lowerAscii_fn,
         of "mkBrand ''Kit Cat'' (Some ''Sweets'') (Some ''US'') None" "''KIT''" "''EU''" ?bs]
       filterBrands_matches [OF lowerAscii_fn,
         of "mkBrand ''Perrier'' (Some ''Water'') (Some ''EU'') None" "''KIT''" "''EU''" ?bs]
       m1 m2 m3 i lowerAscii_fn
  show ?thesis by blast
qed

text \<open>
  C2 as stated fails for a filter state whose region is the empty string: the code reads
  it as \<open>all\<close> and matches a record of any region, where the stated predicate wants the
  record's region to be the empty string.
\<close>

theorem leafMatches_counterexample:
  "filterBrands lowerAscii \<lparr>searchInput = Some [], regionFilter = Some []\<rparr>
     [mkBrand ''Perrier'' (Some ''Water'') (Some ''EU'') None] =
     [mkBrand ''Perrier'' (Some ''Water'') (Some ''EU'') None] \<and>
   \<not> leafMatches lowerAscii \<lparr>searchText = [], regionValue = []\<rparr>
       (mkBrand ''Perrier'' (Some ''Water'') (Some ''EU'') None)"
proof -
  have a: "filterBrands lowerAscii \<lparr>searchInput = Some [], regionFilter = Some []\<rparr>
     [mkBrand ''Perrier'' (Some ''Water'') (Some ''EU'') None] =
     [mkBrand ''Perrier'' (Some ''Water'') (Some ''EU'') None]"
    by code_simp
  have b: "\<not> leafMatches lowerAscii \<lparr>searchText = [], regionValue = []\<rparr>
       (mkBrand ''Perrier'' (Some ''Water'') (Some ''EU'') None)"
    by code_simp
  from a b show ?thesis by blast
qed

text \<open>
  C7, as the evaluator has it. If the records matched under filter state \<open>A\<close> are among
  those matched under \<open>B\<close>, all matched records counted, whether or not they are leaves
  of the hierarchy, then every name visible under \<open>A\<close> is visible under \<open>B\<close>, and every
  node that gets the class \<open>filtered\<close> under \<open>B\<close> gets it under \<open>A\<close>.
\<close>

theorem filter_monotone:
  assumes "set (filterBrands lower A bs) \<subseteq> set (filterBrands lower B bs)"
  shows "visibleNodeNames bs (filterBrands lower A bs) \<subseteq> visibleNodeNames bs (filterBrands lower B bs)
         \<and> (\<forall>d. filteredClass bs (visibleNodeNames bs (filterBrands lower B bs)) d
                \<longrightarrow> filteredClass bs (visibleNodeNames bs (filterBrands lower A bs)) d)"
proof -
  have s: "visibleNodeNames bs (filterBrands lower A bs) \<subseteq> visibleNodeNames bs (filterBrands lower B bs)"
    unfolding visibleNodeNames_eq using assms by blast
  then show ?thesis by (auto simp: filteredClass_def)
qed

theorem filter_monotone_witness:
  "set (filterBrands lowerAscii \<lparr>searchInput = Some ''kit'', regionFilter = Some ''all''\<rparr>
         [mkBrand ''Perrier'' (Some ''Water'') (Some ''EU'') None,
          mkBrand ''KitKat'' (Some ''Sweets'') (Some ''US'') None])
     \<subseteq> set (filterBrands lowerAscii \<lparr>searchInput = Some [], regionFilter = None\<rparr>
         [mkBrand ''Perrier'' (Some ''Water'') (Some ''EU'') None,
          mkBrand ''KitKat'' (Some ''Sweets'') (Some ''US'') None])
   \<and> visibleNodeNames
         [mkBrand ''Perrier'' (Some ''Water'') (Some ''EU'') None,
          mkBrand ''KitKat'' (Some ''Sweets'') (Some ''US'') None]
         (filterBrands lowerAscii \<lparr>searchInput = Some ''kit'', regionFilter = Some ''all''\<rparr>
           [mkBrand ''Perrier'' (Some ''Water'') (Some ''EU'') None,
            mkBrand ''KitKat'' (Some ''Sweets'') (Some ''US'') None])
     \<subseteq> visibleNodeNames
         [mkBrand ''Perrier'' (Some ''Water'') (Some ''EU'') None,
          mkBrand ''KitKat'' (Some ''Sweets'') (Some ''US'') None]
         (filterBrands lowerAscii \<lparr>searchInput = Some [], regionFilter = None\<rparr>
           [mkBrand ''Perrier'' (Some ''Water'') (Some ''EU'') None,
            mkBrand ''KitKat'' (Some ''Sweets'') (Some ''US'') None])"
proof -
  have a: "filterBrands lowerAscii \<lparr>searchInput = Some ''kit'', regionFilter = Some ''all''\<rparr>
         [mkBrand ''Perrier'' (Some ''Water'') (Some ''EU'') None,
          mkBrand ''KitKat'' (Some ''Sweets'') (Some ''US'') None]
        = [mkBrand ''KitKat'' (Some ''Sweets'') (Some ''US'') None]"
    by code_simp
  have b: "filterBrands lowerAscii \<lparr>searchInput = Some [], regionFilter = None\<rparr>
         [mkBrand ''Perrier'' (Some ''Water'') (Some ''EU'') None,
          mkBrand ''KitKat'' (Some ''Sweets'') (Some ''US'') None]
        = [mkBrand ''Perrier'' (Some ''Water'') (Some ''EU'') None,
           mkBrand ''KitKat'' (Some ''Sweets'') (Some ''US'') None]"
    by code_simp
  have sub: "set (filterBrands lowerAscii \<lparr>searchInput = Some ''kit'', regionFilter = Some ''all''\<rparr>
         [mkBrand ''Perrier'' (Some ''Water'') (Some ''EU'') None,
          mkBrand ''KitKat'' (Some ''Sweets'') (Some ''US'') None])
     \<subseteq> set (filterBrands lowerAscii \<lparr>searchInput = Some [], regionFilter = None\<rparr>
         [mkBrand ''Perrier'' (Some ''Water'') (Some ''EU'') None,
          mkBrand ''KitKat'' (Some ''Sweets'') (Some ''US'') None])"
    unfolding a b by simp
  from filter_monotone [OF sub] sub show ?thesis by blast
qed

lemma build_parentCounts:
  assumes "prepareRadialData lower le bs = Inr (t, s, lg)"
  shows "(parentChildCounts t = []) = (twoLevelLeaves t = []) \<and> (\<forall>k\<in>set (parentChildCounts t). 0 < k)"
proof -
  from assms obtain rc cats where
    t: "t = RootNode (sortRootChildren le s (rc @ categoryNodes (forInOrder cats)))"
    and one: "mset (entryPairs cats) = mset (oneLevelLeaves t)"
    and two: "(rc = [] \<and> twoLevelLeaves t = []) \<or>
     (\<exists>d. name d = loreal \<and>
          rc = [LorealParentNode (d\<lparr>nodeType := Some ''loreal_parent''\<rparr>) (subNodes bs)] \<and>
          subNodes bs \<noteq> [] \<and>
          mset (concat (map catLeaves (subNodes bs))) = mset (twoLevelLeaves t))"
    by (rule build_shape)
  have p: "\<And>c. mset (parentChildCount (sortChild le s c)) = mset (parentChildCount c)"
    by (simp add: parentChildCount_sortChild)
  have m: "mset (parentChildCounts t) = mset (concat (map parentChildCount rc))"
    unfolding t parentChildCounts_def
    by (simp add: obs_sortRootChildren [where f = parentChildCount, OF p]
                  parentChildCount_categoryNodes)
  from two show ?thesis
  proof
    assume "rc = [] \<and> twoLevelLeaves t = []"
    with m show ?thesis by simp
  next
    assume "\<exists>d. name d = loreal \<and>
          rc = [LorealParentNode (d\<lparr>nodeType := Some ''loreal_parent''\<rparr>) (subNodes bs)] \<and>
          subNodes bs \<noteq> [] \<and>
          mset (concat (map catLeaves (subNodes bs))) = mset (twoLevelLeaves t)"
    then obtain d where rc: "rc = [LorealParentNode (d\<lparr>nodeType := Some ''loreal_parent''\<rparr>) (subNodes bs)]"
      and ne: "subNodes bs \<noteq> []"
      and tw: "mset (concat (map catLeaves (subNodes bs))) = mset (twoLevelLeaves t)"
      by blast
    from m rc have c: "mset (parentChildCounts t) = {#length (subNodes bs)#}" by simp
    then have c': "parentChildCounts t = [length (subNodes bs)]" by (metis mset_single_iff_right mset.simps(1) mset.simps(2))
    from ne tw have "twoLevelLeaves t \<noteq> []"
      using subNodes_empty [of bs] by auto
    with c' ne show ?thesis by simp
  qed
qed

lemma catLabel_leafLabel_alt:
  "(\<lambda>(nm, i). (nm, Some ''category'', CategoryKind)) = catLabel"
  "(\<lambda>(nm, i). (name (s ! i), nodeType (s ! i), BrandKind)) = leafLabel s"
  by (auto simp: catLabel_def leafLabel_def)

lemma build_labels:
  assumes "prepareRadialData lower le bs = Inr (t, s, lg)"
  shows "set (nodeLabels s t) =
           {(nestle, Some ''root'', RootKind)} \<union>
           (if twoLevelLeaves t = [] then {} else {(loreal, Some ''loreal_parent'', ParentKind)}) \<union>
           catLabel ` (set (oneLevelLeaves t) \<union> set (twoLevelLeaves t)) \<union>
           leafLabel s ` (set (oneLevelLeaves t) \<union> set (twoLevelLeaves t))"
proof -
  from assms obtain rc cats where
    t: "t = RootNode (sortRootChildren le s (rc @ categoryNodes (forInOrder cats)))"
    and one: "mset (entryPairs cats) = mset (oneLevelLeaves t)"
    and two: "(rc = [] \<and> twoLevelLeaves t = []) \<or>
     (\<exists>d. name d = loreal \<and>
          rc = [LorealParentNode (d\<lparr>nodeType := Some ''loreal_parent''\<rparr>) (subNodes bs)] \<and>
          subNodes bs \<noteq> [] \<and>
          mset (concat (map catLeaves (subNodes bs))) = mset (twoLevelLeaves t))"
    by (rule build_shape)
  have "mset (nodeLabels s t) =
        add_mset (nestle, Some ''root'', RootKind)
          (mset (concat (map (nodeLabels s) (rc @ categoryNodes (forInOrder cats)))))"
    unfolding t
    by (simp add: nodeLabels_simps obs_sortRootChildren [where f = "nodeLabels s", OF nodeLabels_sortChild])
  then have "set (nodeLabels s t) =
        insert (nestle, Some ''root'', RootKind)
          (set (concat (map (nodeLabels s) (rc @ categoryNodes (forInOrder cats)))))"
    by (metis set_mset_add_mset_insert set_mset_mset)
  also have "\<dots> = {(nestle, Some ''root'', RootKind)} \<union> set (concat (map (nodeLabels s) rc)) \<union>
        set (concat (map (nodeLabels s) (categoryNodes (forInOrder cats))))"
    by auto
  also have "set (concat (map (nodeLabels s) (categoryNodes (forInOrder cats)))) =
        catLabel ` set (oneLevelLeaves t) \<union> leafLabel s ` set (oneLevelLeaves t)"
  proof -
    have "set (entryPairs (forInOrder cats)) = set (oneLevelLeaves t)"
      using mset_entryPairs_cong [OF mset_forInOrder, of cats] one by (metis set_mset_mset)
    then show ?thesis
      unfolding categoryNodes_labels catLabel_leafLabel_alt by simp
  qed
  also have "set (concat (map (nodeLabels s) rc)) =
        (if twoLevelLeaves t = [] then {} else {(loreal, Some ''loreal_parent'', ParentKind)}) \<union>
        catLabel ` set (twoLevelLeaves t) \<union> leafLabel s ` set (twoLevelLeaves t)"
    using two
  proof
    assume "rc = [] \<and> twoLevelLeaves t = []"
    then show ?thesis by simp
  next
    assume "\<exists>d. name d = loreal \<and>
          rc = [LorealParentNode (d\<lparr>nodeType := Some ''loreal_parent''\<rparr>) (subNodes bs)] \<and>
          subNodes bs \<noteq> [] \<and>
          mset (concat (map catLeaves (subNodes bs))) = mset (twoLevelLeaves t)"
    then obtain d where d: "name d = loreal"
      and rc: "rc = [LorealParentNode (d\<lparr>nodeType := Some ''loreal_parent''\<rparr>) (subNodes bs)]"
      and ne: "subNodes bs \<noteq> []"
      and tw: "mset (concat (map catLeaves (subNodes bs))) = mset (twoLevelLeaves t)"
      by blast
    from tw have st: "set (concat (map catLeaves (subNodes bs))) = set (twoLevelLeaves t)"
      by (metis set_mset_mset)
    from ne tw have n2: "twoLevelLeaves t \<noteq> []" using subNodes_empty [of bs] by auto
    have "set (concat (map (nodeLabels s) (subNodes bs))) =
          catLabel ` set (twoLevelLeaves t) \<union> leafLabel s ` set (twoLevelLeaves t)"
      unfolding subNodes_def subs_labels catLabel_leafLabel_alt
      using st unfolding subNodes_def by simp
    with rc d n2 show ?thesis by (simp add: nodeLabels_simps)
  qed
  finally show ?thesis by (simp add: image_Un Un_ac)
qed

lemma set_oneLevel:
  assumes "prepareRadialData lower le bs = Inr (t, s, lg)"
  shows "set (oneLevelLeaves t) = {(categoryNameOf (bs ! i), i) | i. i < length bs \<and> oneLevelRef bs i}"
proof -
  have "set (oneLevelLeaves t) = set (map (catPair bs) (filter (oneLevelRef bs) [0..<length bs]))"
    using build_oneLevel [OF assms] by (metis set_mset_mset)
  then show ?thesis by (auto simp: catPair_def)
qed

lemma set_twoLevel:
  assumes "prepareRadialData lower le bs = Inr (t, s, lg)"
  shows "set (twoLevelLeaves t) = {(categoryNameOf (bs ! i), i) | i. i < length bs \<and> twoLevelRef bs i}"
proof -
  have "set (twoLevelLeaves t) = set (map (catPair bs) (filter (twoLevelRef bs) [0..<length bs]))"
    using build_twoLevel [OF assms] by (metis set_mset_mset)
  then show ?thesis by (auto simp: catPair_def)
qed

lemma markBrands_nth:
  "i < length bs \<Longrightarrow> markBrands bs ! i = (if name (bs ! i) = loreal then bs ! i else setBrandType (bs ! i))"
  by (simp add: markBrands_def)

lemma markOne_fields [simp]:
  "name (if name b = loreal then b else setBrandType b) = name b"
  "category (if name b = loreal then b else setBrandType b) = category b"
  "parent_brand (if name b = loreal then b else setBrandType b) = parent_brand b"
  by simp_all

lemma markBrands_fields [simp]:
  "length (markBrands bs) = length bs"
  "map name (markBrands bs) = map name bs"
  "map category (markBrands bs) = map category bs"
  "map parent_brand (markBrands bs) = map parent_brand bs"
  by (simp_all add: markBrands_def)

lemma markBrands_images [simp]:
  "name ` set (markBrands bs) = name ` set bs"
  "category ` set (markBrands bs) = category ` set bs"
proof -
  have "name ` set (markBrands bs) = set (map name (markBrands bs))" by (simp only: set_map)
  then show "name ` set (markBrands bs) = name ` set bs" by (simp only: markBrands_fields set_map)
  have "category ` set (markBrands bs) = set (map category (markBrands bs))" by (simp only: set_map)
  then show "category ` set (markBrands bs) = category ` set bs" by (simp only: markBrands_fields set_map)
qed

lemma haveParent_markBrands [simp]: "haveParent (markBrands bs) = haveParent bs"
proof -
  have "haveParent xs = (loreal \<in> name ` set xs)" for xs
    unfolding haveParent_def by force
  then show ?thesis by simp
qed

lemma baseNames_markBrands [simp]: "baseNames (markBrands bs) = baseNames bs"
  by (simp add: baseNames_def)

text \<open>Every drawn node is of one of four kinds, and a brand leaf is a marked record.\<close>

lemma build_label_cases:
  assumes "prepareRadialData lower le bs = Inr (t, s, lg)"
    and "l \<in> set (nodeLabels s t)"
  shows "l = (nestle, Some ''root'', RootKind) \<or>
         (haveParent bs \<and> l = (loreal, Some ''loreal_parent'', ParentKind)) \<or>
         (\<exists>i<length bs. (oneLevelRef bs i \<or> twoLevelRef bs i) \<and>
                l = (categoryNameOf (bs ! i), Some ''category'', CategoryKind)) \<or>
         (\<exists>i<length bs. (oneLevelRef bs i \<or> twoLevelRef bs i) \<and>
                l = (name (bs ! i), Some ''brand'', BrandKind))"
proof -
  have s: "s = markBrands bs" by (rule build_store [OF assms(1)])
  have leaf: "leafLabel s (c, i) = (name (bs ! i), Some ''brand'', BrandKind)"
    if "i < length bs" "oneLevelRef bs i \<or> twoLevelRef bs i" for c i
    using that unfolding s
    by (auto simp: leafLabel_def markBrands_nth oneLevelRef_def twoLevelRef_def)
  have hp: "twoLevelLeaves t \<noteq> [] \<Longrightarrow> haveParent bs"
    using set_twoLevel [OF assms(1)] by (cases "twoLevelLeaves t") (auto simp: twoLevelRef_def)
  let ?P = "set (oneLevelLeaves t) \<union> set (twoLevelLeaves t)"
  have P: "\<exists>i<length bs. (oneLevelRef bs i \<or> twoLevelRef bs i) \<and> p = (categoryNameOf (bs ! i), i)"
    if "p \<in> ?P" for p
    using that unfolding set_oneLevel [OF assms(1)] set_twoLevel [OF assms(1)] by blast
  from assms(2) consider
      "l = (nestle, Some ''root'', RootKind)"
    | "twoLevelLeaves t \<noteq> []" "l = (loreal, Some ''loreal_parent'', ParentKind)"
    | p where "p \<in> ?P" "l = catLabel p"
    | p where "p \<in> ?P" "l = leafLabel s p"
    unfolding build_labels [OF assms(1)] by (auto split: if_splits)
  then show ?thesis
  proof cases
    case 1
    then show ?thesis by simp
  next
    case 2
    with hp show ?thesis by simp
  next
    case 3
    from P [OF 3(1)] 3(2) show ?thesis by (auto simp: catLabel_def)
  next
    case 4
    from P [OF 4(1)] obtain i where i: "i < length bs" "oneLevelRef bs i \<or> twoLevelRef bs i"
      "p = (categoryNameOf (bs ! i), i)" by blast
    with leaf [of i "categoryNameOf (bs ! i)"] 4(2) show ?thesis by auto
  qed
qed

subsection \<open>The node of the parent entity\<close>

lemma parentRecord_sortChild: "parentRecord (sortChild le s c) = parentRecord c"
  by (cases c) (simp_all add: sortChild_cases)

lemma parentRecord_categoryNodes: "concat (map parentRecord (categoryNodes cs)) = []"
  by (induction cs rule: categoryNodes.induct) auto

lemma subNodes_twoLevel:
  assumes "haveParent bs"
  shows "(subNodes bs = []) = (\<not> (\<exists>i<length bs. twoLevelRef bs i))"
proof -
  have "(subNodes bs = []) = (mset (concat (map catLeaves (subNodes bs))) = {#})"
    using subNodes_empty [of bs] by simp
  also have "\<dots> = (mset (map (catPair bs) (filter (twoLevelRef bs) [0..<length bs])) = {#})"
    by (simp only: subNodes_pairs twoLevel_filter [OF assms])
  also have "\<dots> = (filter (twoLevelRef bs) [0..<length bs] = [])"
    by (simp only: mset_zero_iff map_is_Nil_conv)
  also have "\<dots> = (\<not> (\<exists>i<length bs. twoLevelRef bs i))"
    by (auto simp: filter_empty_conv)
  finally show ?thesis .
qed

lemma build_parentRecords:
  assumes "prepareRadialData lower le bs = Inr (t, s, lg)"
  shows "parentRecords t =
           (case find (\<lambda>b. name b = loreal) bs of
              None \<Rightarrow> []
            | Some d \<Rightarrow> if \<exists>i<length bs. twoLevelRef bs i
                        then [d\<lparr>nodeType := Some ''loreal_parent''\<rparr>] else [])"
  using assms
proof (cases rule: build_cases)
  case (parent d cats)
  have p: "\<And>c. mset (parentRecord (sortChild le s c)) = mset (parentRecord c)"
    by (simp add: parentRecord_sortChild)
  have m: "mset (parentRecords t) = mset (concat (map parentRecord (parentNodes d bs)))"
    unfolding parent(5) parentRecords_def
    by (simp add: obs_sortRootChildren [where f = parentRecord, OF p] parentRecord_categoryNodes)
  show ?thesis
  proof (cases "subNodes bs = []")
    case True
    with m have "parentRecords t = []" by (simp add: parentNodes_def)
    with True parent(1) subNodes_twoLevel [OF parent(2)] show ?thesis by simp
  next
    case False
    with m have "mset (parentRecords t) = {#d\<lparr>nodeType := Some ''loreal_parent''\<rparr>#}"
      by (simp add: parentNodes_def)
    then have "parentRecords t = [d\<lparr>nodeType := Some ''loreal_parent''\<rparr>]"
      by (metis mset_single_iff_right mset.simps(1) mset.simps(2))
    with False parent(1) subNodes_twoLevel [OF parent(2)] show ?thesis by simp
  qed
next
  case (noParent cats)
  have f: "find (\<lambda>b. name b = loreal) bs = None"
    using noParent(1) find_haveParent [of bs] by simp
  have p: "\<And>c. mset (parentRecord (sortChild le s c)) = mset (parentRecord c)"
    by (simp add: parentRecord_sortChild)
  have "mset (parentRecords t) = {#}"
    unfolding noParent(3) parentRecords_def
    by (simp add: obs_sortRootChildren [where f = parentRecord, OF p] parentRecord_categoryNodes)
  with f show ?thesis by simp
qed

subsection \<open>The drawn nodes\<close>

lemma subtreeNodes_children:
  "subtreeNodes n = n # concat (map subtreeNodes (childrenOf n))"
  by (cases n) simp_all

lemma mset_breadthFirst:
  "mset (breadthFirst q) = mset (concat (map subtreeNodes q))"
proof (induction q rule: breadthFirst.induct)
  case 1
  then show ?case by simp
next
  case (2 n queue)
  have "mset (subtreeNodes n) = add_mset n (mset (concat (map subtreeNodes (childrenOf n))))"
    by (subst subtreeNodes_children) simp
  with 2 show ?case by simp
qed

lemma set_descendants: "set (descendants t) = set (subtreeNodes t)"
proof -
  have "mset (descendants t) = mset (subtreeNodes t)"
    unfolding descendants_def mset_breadthFirst by simp
  then show ?thesis by (metis set_mset_mset)
qed

subsection \<open>The builder on the concrete inputs\<close>

lemma exParentOnly_build:
  "prepareRadialData lowerAscii leCodeUnits exParentOnly = Inr (RootNode [], exParentOnly, [])"
  by code_simp

lemma exUnknownSub_build:
  "prepareRadialData lowerAscii leCodeUnits exUnknownSub =
     Inr (RootNode [], markBrands exUnknownSub,
          [WarnUnexpectedCategory ''Kerastase'' (Some ''Haircare'')])"
  by code_simp

lemma exNested_build:
  "prepareRadialData lowerAscii leCodeUnits exNested = Inr (exNestedTree, markBrands exNested, [])"
  by code_simp

lemma exMixed_build:
  "prepareRadialData lowerAscii leCodeUnits exMixed =
     Inr (exNestedTree, markBrands exMixed,
          [WarnUnexpectedCategory ''Kerastase'' (Some ''Haircare'')])"
  by code_simp

lemma exWater_build:
  "prepareRadialData lowerAscii leCodeUnits exWater =
     Inr (RootNode [CategoryNode ''Water'' ''assets/water.svg'' False [BrandNode 0]],
          [(mkBrand ''A'' (Some ''Water'') (Some ''EU'') None)\<lparr>nodeType := Some ''brand''\<rparr>], [])"
  by code_simp

text \<open>
  A brand of the root whose category is a key that every object inherits: the build
  raises at that record, with the records up to it already marked.
\<close>

lemma exThrow_build:
  "prepareRadialData lowerAscii leCodeUnits exThrow = Inl (TypeError, exThrowLeft, [])"
  by code_simp

subsection \<open>Conservation of records\<close>

lemma length_filter_index:
  "length (filter (\<lambda>i. P (xs ! i)) [0..<length xs]) = length (filter P xs)"
proof -
  have "filter P xs = filter P (map (nth xs) [0..<length xs])" by (simp add: map_nth)
  also have "\<dots> = map (nth xs) (filter (P \<circ> nth xs) [0..<length xs])" by (simp add: filter_map)
  finally show ?thesis by (simp add: comp_def)
qed

lemma accepted_alt: "acceptedRef bs i = (oneLevelRef bs i \<or> twoLevelRef bs i)"
  by (auto simp: acceptedRef_def rejectedRef_def oneLevelRef_def twoLevelRef_def)

lemma three_way_count:
  "length (filter (acceptedRef bs) xs) + length (filter (\<lambda>i. name (bs ! i) = loreal) xs) +
   length (filter (rejectedRef bs) xs) = length xs"
  by (induction xs) (auto simp: acceptedRef_def rejectedRef_def)

lemma build_leaf_set:
  assumes "prepareRadialData lower le bs = Inr (t, s, lg)"
  shows "distinct (leafRefs t) \<and> set (leafRefs t) = {i. i < length bs \<and> acceptedRef bs i}"
proof -
  have m: "mset (leafRefs t) = mset (filter (acceptedRef bs) [0..<length bs])"
    using build_leafRefs [OF assms] by (simp only: accepted_alt [abs_def])
  have "distinct (filter (acceptedRef bs) [0..<length bs])" by simp
  with m have "distinct (leafRefs t)" by (metis mset_eq_imp_distinct_iff)
  moreover from m have "set (leafRefs t) = set (filter (acceptedRef bs) [0..<length bs])"
    by (metis set_mset_mset)
  ultimately show ?thesis by auto
qed

text \<open>
  C1, as the builder has it. When the build returns: every record that is neither named
  after the parent entity nor a rejected sub-brand of it (parent entity present, parent
  brand the parent entity, category outside the three known sub-categories) is a leaf
  exactly once and nothing else is a leaf; the leaves, the records named after the parent
  entity and the rejected records add up to the input; the names of the leaves are the
  names of the accepted records, with multiplicity; the log is exactly one warning for
  every rejected record, in input order, when the parent entity has a record, and otherwise
  the one warning that the parent record is missing when some record names it as parent
  brand, and nothing else; so no warning is about a record named after the parent
  entity. Such a record is never a leaf; the tree has a node for the parent entity, a
  copy of the first such record with \<open>nodeType\<close> \<open>loreal_parent\<close>, exactly when some
  record is a sub-brand with a known sub-category, and otherwise no node stands for it.
\<close>

theorem build_conservation:
  assumes "prepareRadialData lower le bs = Inr (t, s, lg)"
  shows "distinct (leafRefs t) \<and>
         set (leafRefs t) = {i. i < length bs \<and> acceptedRef bs i} \<and>
         length (leafRefs t) + length (filter (\<lambda>b. name b = loreal) bs) +
           length (filter (rejectedRef bs) [0..<length bs]) = length bs \<and>
         mset (map (\<lambda>i. name (s ! i)) (leafRefs t)) =
           mset (map (\<lambda>i. name (bs ! i)) (filter (acceptedRef bs) [0..<length bs])) \<and>
         lg = (if haveParent bs
               then map (\<lambda>i. WarnUnexpectedCategory (name (bs ! i)) (category (bs ! i)))
                        (filter (rejectedRef bs) [0..<length bs])
               else if \<exists>i<length bs. parent_brand (bs ! i) = Some loreal
                    then [WarnMissingLorealParent] else []) \<and>
         (\<forall>c. WarnUnexpectedCategory loreal c \<notin> set lg) \<and>
         (\<forall>i\<in>set (leafRefs t). name (bs ! i) \<noteq> loreal) \<and>
         parentRecords t =
           (case find (\<lambda>b. name b = loreal) bs of
              None \<Rightarrow> []
            | Some d \<Rightarrow> if \<exists>i<length bs. twoLevelRef bs i
                        then [d\<lparr>nodeType := Some ''loreal_parent''\<rparr>] else [])"
proof -
  have m: "mset (leafRefs t) = mset (filter (acceptedRef bs) [0..<length bs])"
    using build_leafRefs [OF assms] by (simp only: accepted_alt [abs_def])
  then have "length (leafRefs t) = length (filter (acceptedRef bs) [0..<length bs])"
    by (metis size_mset)
  with three_way_count [of bs "[0..<length bs]"] length_filter_index [of "\<lambda>b. name b = loreal" bs]
  have count: "length (leafRefs t) + length (filter (\<lambda>b. name b = loreal) bs) +
           length (filter (rejectedRef bs) [0..<length bs]) = length bs"
    by simp
  have lg: "lg = (if haveParent bs
               then map (\<lambda>i. WarnUnexpectedCategory (name (bs ! i)) (category (bs ! i)))
                        (filter (rejectedRef bs) [0..<length bs])
               else if \<exists>i<length bs. parent_brand (bs ! i) = Some loreal
                    then [WarnMissingLorealParent] else [])"
    by (rule build_log [OF assms])
  have notlogged: "\<forall>c. WarnUnexpectedCategory loreal c \<notin> set lg"
    unfolding lg by (auto simp: rejectedRef_def)
  have noleaf: "\<forall>i\<in>set (leafRefs t). name (bs ! i) \<noteq> loreal"
    using build_leaf_set [OF assms] by (auto simp: acceptedRef_def)
  have s: "s = markBrands bs" by (rule build_store [OF assms])
  have "map (\<lambda>i. name (s ! i)) (leafRefs t) = map (\<lambda>i. name (bs ! i)) (leafRefs t)"
    using build_leaf_set [OF assms] unfolding s by (auto simp: markBrands_nth)
  then have "mset (map (\<lambda>i. name (s ! i)) (leafRefs t)) =
             image_mset (\<lambda>i. name (bs ! i)) (mset (leafRefs t))" by (simp only: mset_map)
  also have "\<dots> = mset (map (\<lambda>i. name (bs ! i)) (filter (acceptedRef bs) [0..<length bs]))"
    unfolding m by simp
  finally have names: "mset (map (\<lambda>i. name (s ! i)) (leafRefs t)) =
           mset (map (\<lambda>i. name (bs ! i)) (filter (acceptedRef bs) [0..<length bs]))" .
  from build_leaf_set [OF assms] count names lg notlogged noleaf build_parentRecords [OF assms]
  show ?thesis by blast
qed

theorem build_conservation_witness:
  "prepareRadialData lowerAscii leCodeUnits exMixed =
     Inr (exNestedTree, markBrands exMixed,
          [WarnUnexpectedCategory ''Kerastase'' (Some ''Haircare'')]) \<and>
   distinct (leafRefs exNestedTree) \<and>
   length (leafRefs exNestedTree) + length (filter (\<lambda>b. name b = loreal) exMixed) +
     length (filter (rejectedRef exMixed) [0..<length exMixed]) = length exMixed \<and>
   mset (map (\<lambda>i. name (markBrands exMixed ! i)) (leafRefs exNestedTree)) =
     mset (map (\<lambda>i. name (exMixed ! i)) (filter (acceptedRef exMixed) [0..<length exMixed]))"
  using build_conservation [OF exMixed_build] exMixed_build by blast

text \<open>
  C1 as stated fails on the record of the parent entity alone: nothing is logged, and the
  tree has no leaf and no node for the record.
\<close>

theorem conservation_counterexample:
  "prepareRadialData lowerAscii leCodeUnits exParentOnly = Inr (RootNode [], exParentOnly, []) \<and>
   length (leafRefs (RootNode [])) \<noteq> length exParentOnly - length ([] :: logEvent list) \<and>
   descendants (RootNode []) = [RootNode []]"
  using exParentOnly_build by (simp add: exParentOnly_def descendants_def)

subsection \<open>Nesting under the parent entity\<close>

text \<open>
  C4, as the builder has it. When the build returns on an input with a record of the
  parent entity: the leaves two levels down are exactly the records not named after the
  parent entity with that parent brand and one of the three known categories, each under
  the sub-category of its category; the leaves one level down are exactly the records not
  named after the parent entity with another (or no) parent brand, each under its
  category, or under \<open>Uncategorized\<close> when its category is absent or empty; no record
  is at both places and there are no other leaves; a parent-entity node is attached
  exactly when a leaf hangs below it, so it has at least one child; and the sub-brands with
  any other category are no leaves, and the log is exactly one warning for each of them,
  in input order.
\<close>

theorem build_nesting:
  assumes "prepareRadialData lower le bs = Inr (t, s, lg)" and "haveParent bs"
  shows "set (twoLevelLeaves t) =
           {(c, i). i < length bs \<and> name (bs ! i) \<noteq> loreal \<and>
                    parent_brand (bs ! i) = Some loreal \<and> category (bs ! i) = Some c \<and>
                    (c = ''Fragrances'' \<or> c = ''Cosmetics'' \<or> c = ''Skincare'')} \<and>
         set (oneLevelLeaves t) =
           {(c, i). i < length bs \<and> name (bs ! i) \<noteq> loreal \<and>
                    parent_brand (bs ! i) \<noteq> Some loreal \<and>
                    (category (bs ! i) = Some c \<and> c \<noteq> [] \<or>
                     c = ''Uncategorized'' \<and>
                       (category (bs ! i) = None \<or> category (bs ! i) = Some []))} \<and>
         distinct (map snd (oneLevelLeaves t @ twoLevelLeaves t)) \<and>
         mset (leafRefs t) = mset (map snd (oneLevelLeaves t @ twoLevelLeaves t)) \<and>
         (parentChildCounts t = []) = (twoLevelLeaves t = []) \<and>
         (\<forall>k\<in>set (parentChildCounts t). 0 < k) \<and>
         (\<forall>i\<in>set (leafRefs t).
            \<not> (parent_brand (bs ! i) = Some loreal \<and>
               category (bs ! i) \<noteq> Some ''Fragrances'' \<and>
               category (bs ! i) \<noteq> Some ''Cosmetics'' \<and>
               category (bs ! i) \<noteq> Some ''Skincare'')) \<and>
         lg = map (\<lambda>i. WarnUnexpectedCategory (name (bs ! i)) (category (bs ! i)))
                  (filter (\<lambda>i. name (bs ! i) \<noteq> loreal \<and> parent_brand (bs ! i) = Some loreal \<and>
                               category (bs ! i) \<noteq> Some ''Fragrances'' \<and>
                               category (bs ! i) \<noteq> Some ''Cosmetics'' \<and>
                               category (bs ! i) \<noteq> Some ''Skincare'')
                          [0..<length bs])"
proof -
  have two: "set (twoLevelLeaves t) =
           {(c, i). i < length bs \<and> name (bs ! i) \<noteq> loreal \<and>
                    parent_brand (bs ! i) = Some loreal \<and> category (bs ! i) = Some c \<and>
                    (c = ''Fragrances'' \<or> c = ''Cosmetics'' \<or> c = ''Skincare'')}"
    unfolding set_twoLevel [OF assms(1)] using assms(2)
    by (auto simp: twoLevelRef_def knownSub_def categoryNameOf_def)
  have one: "set (oneLevelLeaves t) =
           {(c, i). i < length bs \<and> name (bs ! i) \<noteq> loreal \<and>
                    parent_brand (bs ! i) \<noteq> Some loreal \<and>
                    (category (bs ! i) = Some c \<and> c \<noteq> [] \<or>
                     c = ''Uncategorized'' \<and>
                       (category (bs ! i) = None \<or> category (bs ! i) = Some []))}"
  proof -
    have c: "(categoryNameOf b = c) =
             (category b = Some c \<and> c \<noteq> [] \<or>
              c = ''Uncategorized'' \<and> (category b = None \<or> category b = Some []))" for b c
      by (cases "category b") (auto simp: categoryNameOf_def)
    show ?thesis
      unfolding set_oneLevel [OF assms(1)] using assms(2)
      by (auto simp: oneLevelRef_def c [symmetric] catPair_def)
  qed
  have l: "mset (leafRefs t) = mset (map snd (oneLevelLeaves t @ twoLevelLeaves t))"
    using build_leafRefs_pairs [OF assms(1)] by simp
  have "distinct (leafRefs t)" using build_leaf_set [OF assms(1)] by simp
  with l have d: "distinct (map snd (oneLevelLeaves t @ twoLevelLeaves t))"
    by (metis mset_eq_imp_distinct_iff)
  have r: "rejectedRef bs =
           (\<lambda>i. name (bs ! i) \<noteq> loreal \<and> parent_brand (bs ! i) = Some loreal \<and>
                category (bs ! i) \<noteq> Some ''Fragrances'' \<and>
                category (bs ! i) \<noteq> Some ''Cosmetics'' \<and>
                category (bs ! i) \<noteq> Some ''Skincare'')"
    using assms(2) by (intro ext) (auto simp: rejectedRef_def knownSub_def)
  have nl: "\<forall>i\<in>set (leafRefs t).
            \<not> (parent_brand (bs ! i) = Some loreal \<and>
               category (bs ! i) \<noteq> Some ''Fragrances'' \<and>
               category (bs ! i) \<noteq> Some ''Cosmetics'' \<and>
               category (bs ! i) \<noteq> Some ''Skincare'')"
    using build_leaf_set [OF assms(1)] assms(2)
    by (auto simp: acceptedRef_def rejectedRef_def knownSub_def)
  have lg: "lg = map (\<lambda>i. WarnUnexpectedCategory (name (bs ! i)) (category (bs ! i)))
                  (filter (\<lambda>i. name (bs ! i) \<noteq> loreal \<and> parent_brand (bs ! i) = Some loreal \<and>
                               category (bs ! i) \<noteq> Some ''Fragrances'' \<and>
                               category (bs ! i) \<noteq> Some ''Cosmetics'' \<and>
                               category (bs ! i) \<noteq> Some ''Skincare'')
                          [0..<length bs])"
    using build_log [OF assms(1)] assms(2) unfolding r by simp
  from two one d l build_parentCounts [OF assms(1)] nl lg show ?thesis by blast
qed

lemma exMixed_haveParent: "haveParent exMixed"
  by (simp add: haveParent_def exMixed_def mkBrand_def)

theorem build_nesting_witness:
  "prepareRadialData lowerAscii leCodeUnits exMixed =
     Inr (exNestedTree, markBrands exMixed,
          [WarnUnexpectedCategory ''Kerastase'' (Some ''Haircare'')]) \<and>
   haveParent exMixed \<and>
   distinct (map snd (oneLevelLeaves exNestedTree @ twoLevelLeaves exNestedTree)) \<and>
   mset (leafRefs exNestedTree) =
     mset (map snd (oneLevelLeaves exNestedTree @ twoLevelLeaves exNestedTree)) \<and>
   (parentChildCounts exNestedTree = []) = (twoLevelLeaves exNestedTree = [])"
  using build_nesting [OF exMixed_build exMixed_haveParent] exMixed_build exMixed_haveParent
  by blast

text \<open>
  C4 as stated fails on a sub-brand whose category is none of the three: the record is
  reported and is at neither place.
\<close>

theorem nesting_counterexample:
  "prepareRadialData lowerAscii leCodeUnits exUnknownSub =
     Inr (RootNode [], markBrands exUnknownSub,
          [WarnUnexpectedCategory ''Kerastase'' (Some ''Haircare'')]) \<and>
   parent_brand (exUnknownSub ! 1) = Some loreal \<and>
   oneLevelLeaves (RootNode []) = [] \<and> twoLevelLeaves (RootNode []) = []"
  using exUnknownSub_build
  by (simp add: oneLevelLeaves_def twoLevelLeaves_def exUnknownSub_def mkBrand_def)

subsection \<open>What the core writes\<close>

text \<open>
  C9, as the code has it. The tree build writes one field of the input records: it sets
  \<open>nodeType\<close> to \<open>brand\<close> on every record not named after the parent entity and leaves
  every other record and every other field as it was; it leaves the drawn hierarchy, the
  rotation and the zoom as they were. Filter evaluation assigns to no global. All this
  is about a build that returns.
\<close>

theorem core_frame:
  assumes "prepareRadialDataG lower le st = Inr (t, st', lg)"
  shows "length (allBrands st') = length (allBrands st) \<and>
         (\<forall>i<length (allBrands st).
            allBrands st' ! i =
              (if name (allBrands st ! i) = loreal then allBrands st ! i
               else (allBrands st ! i)\<lparr>nodeType := Some ''brand''\<rparr>)) \<and>
         radialSvg st' = radialSvg st \<and> rotation st' = rotation st \<and>
         lastGestureRotation st' = lastGestureRotation st \<and> zoomScale st' = zoomScale st \<and>
         snd (filterBrandsG lower doc st') = st'"
proof -
  from assms obtain store where
    p: "prepareRadialData lower le (allBrands st) = Inr (t, store, lg)"
    and st': "st' = st\<lparr>allBrands := store\<rparr>"
    by (auto simp: prepareRadialDataG_def split: sum.splits)
  have "store = markBrands (allBrands st)" by (rule build_store [OF p])
  with st' show ?thesis
    by (simp add: markBrands_nth setBrandType_def filterBrandsG_def)
qed

lemma exState_build:
  "prepareRadialDataG lowerAscii leCodeUnits exState =
     Inr (RootNode [CategoryNode ''Water'' ''assets/water.svg'' False [BrandNode 0]],
          exState\<lparr>allBrands :=
            [(mkBrand ''A'' (Some ''Water'') (Some ''EU'') None)\<lparr>nodeType := Some ''brand''\<rparr>]\<rparr>, [])"
  by (simp add: prepareRadialDataG_def exState_def exWater_build)

theorem core_frame_witness:
  "prepareRadialDataG lowerAscii leCodeUnits exState =
     Inr (RootNode [CategoryNode ''Water'' ''assets/water.svg'' False [BrandNode 0]],
          exState\<lparr>allBrands :=
            [(mkBrand ''A'' (Some ''Water'') (Some ''EU'') None)\<lparr>nodeType := Some ''brand''\<rparr>]\<rparr>, []) \<and>
   rotation (exState\<lparr>allBrands :=
            [(mkBrand ''A'' (Some ''Water'') (Some ''EU'') None)\<lparr>nodeType := Some ''brand''\<rparr>]\<rparr>)
     = rotation exState"
  using core_frame [OF exState_build] exState_build by blast

text \<open>C9 as stated fails on any brand: the build writes \<open>nodeType\<close> on the record.\<close>

theorem frame_counterexample:
  "prepareRadialData lowerAscii leCodeUnits exWater =
     Inr (RootNode [CategoryNode ''Water'' ''assets/water.svg'' False [BrandNode 0]],
          [(mkBrand ''A'' (Some ''Water'') (Some ''EU'') None)\<lparr>nodeType := Some ''brand''\<rparr>], []) \<and>
   [(mkBrand ''A'' (Some ''Water'') (Some ''EU'') None)\<lparr>nodeType := Some ''brand''\<rparr>] \<noteq> exWater"
  using exWater_build by (simp add: exWater_def mkBrand_def)

subsection \<open>The filter on the concrete inputs\<close>

lemma exParentBrand_build:
  "prepareRadialData lowerAscii leCodeUnits exParentBrand =
     Inr (exParentBrandTree, markBrands exParentBrand, [])"
  by code_simp

lemma exFallback_build:
  "prepareRadialData lowerAscii leCodeUnits exFallback =
     Inr (exFallbackTree, markBrands exFallback, [])"
  by code_simp

lemma exParentBrand_filter:
  "filterBrands lowerAscii regionEU (markBrands exParentBrand) = [markBrands exParentBrand ! 0]"
  by code_simp

lemma exParentBrand_view:
  "updateRadialView (Some exParentBrandTree) (markBrands exParentBrand)
     (filterBrands lowerAscii regionEU (markBrands exParentBrand)) =
   Some \<lparr>nodeFiltered =
           [(exParentBrandTree, False),
            (CategoryNode ''Water'' ''assets/water.svg'' False [BrandNode 0, BrandNode 1], False),
            (BrandNode 0, False), (BrandNode 1, False)],
          linkOpacity =
           [((exParentBrandTree,
              CategoryNode ''Water'' ''assets/water.svg'' False [BrandNode 0, BrandNode 1]), 1),
            ((CategoryNode ''Water'' ''assets/water.svg'' False [BrandNode 0, BrandNode 1],
              BrandNode 0), 1),
            ((CategoryNode ''Water'' ''assets/water.svg'' False [BrandNode 0, BrandNode 1],
              BrandNode 1), 1)],
          noResultsShown = False, svgOpacity = 1\<rparr>"
  by code_simp

lemma exFallback_view:
  "updateRadialView (Some exFallbackTree) (markBrands exFallback)
     (filterBrands lowerAscii regionEU (markBrands exFallback)) =
   Some \<lparr>nodeFiltered =
           [(exFallbackTree, False),
            (CategoryNode ''Uncategorized'' ''assets/uncategorized.svg'' False [BrandNode 1], False),
            (CategoryNode ''Water'' ''assets/water.svg'' False [BrandNode 0], False),
            (BrandNode 1, False),
            (BrandNode 0, True)],
          linkOpacity =
           [((exFallbackTree,
              CategoryNode ''Uncategorized'' ''assets/uncategorized.svg'' False [BrandNode 1]), 1),
            ((exFallbackTree, CategoryNode ''Water'' ''assets/water.svg'' False [BrandNode 0]), 1),
            ((CategoryNode ''Uncategorized'' ''assets/uncategorized.svg'' False [BrandNode 1],
              BrandNode 1), 1),
            ((CategoryNode ''Water'' ''assets/water.svg'' False [BrandNode 0], BrandNode 0), 1 / 10)],
          noResultsShown = False, svgOpacity = 1\<rparr>"
  by code_simp

lemma exLeafSets_build:
  "prepareRadialData lowerAscii leCodeUnits exLeafSets =
     Inr (exLeafSetsTree, markBrands exLeafSets, [])"
  by code_simp

lemma exLeafSets_leavesEU:
  "matchedLeafRefs (markBrands exLeafSets) exLeafSetsTree
     (filterBrands lowerAscii regionEU (markBrands exLeafSets)) = []"
  by code_simp

lemma exLeafSets_leavesAS:
  "matchedLeafRefs (markBrands exLeafSets) exLeafSetsTree
     (filterBrands lowerAscii regionAS (markBrands exLeafSets)) = [2]"
  by code_simp

lemma exLeafSets_viewEU:
  "map_option nodeFiltered
     (updateRadialView (Some exLeafSetsTree) (markBrands exLeafSets)
        (filterBrands lowerAscii regionEU (markBrands exLeafSets))) =
   Some [(exLeafSetsTree, False),
         (CategoryNode ''Water'' ''assets/water.svg'' False [BrandNode 1, BrandNode 2], False),
         (BrandNode 1, False), (BrandNode 2, True)]"
  by code_simp

lemma exLeafSets_viewAS:
  "map_option nodeFiltered
     (updateRadialView (Some exLeafSetsTree) (markBrands exLeafSets)
        (filterBrands lowerAscii regionAS (markBrands exLeafSets))) =
   Some [(exLeafSetsTree, False),
         (CategoryNode ''Water'' ''assets/water.svg'' False [BrandNode 1, BrandNode 2], False),
         (BrandNode 1, True), (BrandNode 2, False)]"
  by code_simp

lemma exLeafSets_namesEU:
  "''Perrier'' \<in> visibleNodeNames (markBrands exLeafSets)
                    (filterBrands lowerAscii regionEU (markBrands exLeafSets))"
  by code_simp

lemma exLeafSets_namesAS:
  "''Perrier'' \<notin> visibleNodeNames (markBrands exLeafSets)
                    (filterBrands lowerAscii regionAS (markBrands exLeafSets))"
  by code_simp

lemma exParentBrand_claimed:
  "\<not> claimedVisible (markBrands exParentBrand)
       (filterBrands lowerAscii regionEU (markBrands exParentBrand)) (BrandNode 1)"
  by code_simp

subsection \<open>Which nodes are dimmed\<close>

lemma label_in_nodeLabels:
  "d \<in> set (descendants t) \<Longrightarrow> (nodeName s d, nodeTypeOf s d, kindOf d) \<in> set (nodeLabels s t)"
  by (auto simp: nodeLabels_def set_descendants)

lemma node_cases:
  assumes "prepareRadialData lower le bs = Inr (t, s, lg)" and "d \<in> set (descendants t)"
  shows "(kindOf d = RootKind \<and> nodeName s d = nestle \<and> nodeTypeOf s d = Some ''root'') \<or>
         (kindOf d = ParentKind \<and> haveParent bs \<and> nodeName s d = loreal \<and>
            nodeTypeOf s d = Some ''loreal_parent'') \<or>
         (kindOf d = CategoryKind \<and> nodeTypeOf s d = Some ''category'' \<and>
            (\<exists>i<length bs. nodeName s d = categoryNameOf (bs ! i))) \<or>
         (kindOf d = BrandKind \<and> nodeTypeOf s d = Some ''brand'')"
  using build_label_cases [OF assms(1) label_in_nodeLabels [OF assms(2)]] by auto

lemma brandNames_eq:
  "brandNames b =
     (if name b = [] then {}
      else {name b} \<union> {p. p \<noteq> [] \<and> parent_brand b = Some p} \<union>
           {c. c \<noteq> [] \<and> category b = Some c})"
  by (auto simp: brandNames_def addFilteredBrand_def Let_def split: option.splits)

lemma categoryName_visible:
  "i < length bs \<Longrightarrow> categoryNameOf (bs ! i) \<noteq> ''Uncategorized'' \<Longrightarrow>
   categoryNameOf (bs ! i) \<in> baseNames bs"
  by (auto simp: categoryNameOf_def baseNames_def image_iff split: option.splits if_splits
           intro!: bexI [of _ "bs ! i"])

lemma dimmed_iff:
  assumes "prepareRadialData lower le bs = Inr (t, s, lg)" and "d \<in> set (descendants t)"
  shows "filteredClass s vis d = (kindOf d = BrandKind \<and> nodeName s d \<notin> vis)"
  using node_cases [OF assms] by (auto simp: filteredClass_def)

subsection \<open>The drawn links\<close>

lemma linksFrom_targets: "map snd (linksFrom q) = breadthFirst (map snd q)"
  by (induction q rule: linksFrom.induct) (simp_all add: comp_def)

lemma linksFrom_sources:
  "l \<in> set (linksFrom q) \<Longrightarrow>
   l \<in> set q \<or> (snd l \<in> set (childrenOf (fst l)) \<and> fst l \<in> set (breadthFirst (map snd q)))"
proof (induction q arbitrary: l rule: linksFrom.induct)
  case 1
  then show ?case by simp
next
  case (2 p n queue)
  show ?case
  proof (cases "l = (p, n)")
    case True
    then show ?thesis by simp
  next
    case False
    with 2(2) have "l \<in> set (linksFrom (queue @ map (Pair n) (childrenOf n)))" by simp
    from 2(1) [OF this] show ?thesis by (auto simp: comp_def)
  qed
qed

lemma links_ends:
  assumes "l \<in> set (links t)"
  shows "snd l \<in> set (childrenOf (fst l))" "fst l \<in> set (descendants t)"
    "snd l \<in> set (descendants t)"
proof -
  have d: "descendants t = t # breadthFirst (childrenOf t)"
    by (simp add: descendants_def)
  from linksFrom_sources [OF assms [unfolded links_def]]
  show a: "snd l \<in> set (childrenOf (fst l))" and b: "fst l \<in> set (descendants t)"
    by (auto simp: d comp_def)
  have "snd l \<in> set (map snd (linksFrom (map (Pair t) (childrenOf t))))"
    using assms unfolding links_def by simp
  then show "snd l \<in> set (descendants t)"
    unfolding linksFrom_targets by (simp add: d comp_def)
qed

lemma link_opacity:
  assumes "prepareRadialData lower le bs = Inr (t, s, lg)" and "l \<in> set (links t)"
  shows "linkOpacityOf s (visibleNodeNames s fs) l =
           (if kindOf (snd l) = BrandKind \<and> nodeName s (snd l) \<notin> visibleNodeNames s fs
            then 1 / 10 else 1)"
proof -
  let ?vis = "visibleNodeNames s fs"
  note e = links_ends [OF assms(2)]
  have s: "s = markBrands bs" by (rule build_store [OF assms(1)])
  have base: "baseNames bs \<subseteq> ?vis" unfolding visibleNodeNames_eq s by simp
  have "kindOf (fst l) \<noteq> BrandKind" using e(1) by (cases "fst l") auto
  with node_cases [OF assms(1) e(2)]
  have src: "nodeTypeOf s (fst l) = Some ''root'' \<or> nodeTypeOf s (fst l) = Some ''category'' \<or>
             nodeTypeOf s (fst l) = Some ''loreal_parent''"
    by auto
  from node_cases [OF assms(1) e(3)] consider
      "nodeName s (snd l) = nestle" "kindOf (snd l) = RootKind"
    | "haveParent bs" "nodeName s (snd l) = loreal" "kindOf (snd l) = ParentKind"
    | "kindOf (snd l) = CategoryKind" "nodeTypeOf s (snd l) = Some ''category''"
    | "kindOf (snd l) = BrandKind" "nodeTypeOf s (snd l) = Some ''brand''"
    by auto
  then show ?thesis
  proof cases
    case 1
    with base have "nodeName s (snd l) \<in> ?vis" by (auto simp: baseNames_def)
    with 1 src show ?thesis by (auto simp: linkOpacityOf_def Let_def)
  next
    case 2
    with base have "nodeName s (snd l) \<in> ?vis" by (auto simp: baseNames_def)
    with 2 src show ?thesis by (auto simp: linkOpacityOf_def Let_def)
  next
    case 3
    with src show ?thesis by (auto simp: linkOpacityOf_def Let_def)
  next
    case 4
    with src show ?thesis by (auto simp: linkOpacityOf_def Let_def)
  qed
qed

subsection \<open>What an evaluation leaves on the page\<close>

lemma view_eq:
  assumes "prepareRadialData lower le bs = Inr (t, s, lg)"
  shows "updateRadialView (Some t) s fs =
           Some \<lparr>nodeFiltered =
                   map (\<lambda>d. (d, kindOf d = BrandKind \<and> nodeName s d \<notin> visibleNodeNames s fs))
                       (descendants t),
                  linkOpacity =
                   map (\<lambda>l. (l, if kindOf (snd l) = BrandKind \<and>
                                   nodeName s (snd l) \<notin> visibleNodeNames s fs
                                then 1 / 10 else 1))
                       (links t),
                  noResultsShown = (fs = []),
                  svgOpacity = (if fs = [] then 2 / 10 else 1)\<rparr>"
proof -
  have n: "map (\<lambda>d. (d, filteredClass s (visibleNodeNames s fs) d)) (descendants t) =
           map (\<lambda>d. (d, kindOf d = BrandKind \<and> nodeName s d \<notin> visibleNodeNames s fs))
               (descendants t)"
    using dimmed_iff [OF assms] by (intro map_cong) auto
  have l: "map (\<lambda>l. (l, linkOpacityOf s (visibleNodeNames s fs) l)) (links t) =
           map (\<lambda>l. (l, if kindOf (snd l) = BrandKind \<and>
                            nodeName s (snd l) \<notin> visibleNodeNames s fs
                         then 1 / 10 else 1)) (links t)"
    using link_opacity [OF assms] by (intro map_cong) auto
  show ?thesis
    unfolding updateRadialView_def by (simp add: Let_def n l)
qed

text \<open>
  C3, as the evaluator has it. For the hierarchy and the brand array left by a build and
  every state of the controls: the set of visible names is the root's name, the parent
  entity's name when it has a record, every non-empty category value of the array, and for
  every matched record with a non-empty name its name, its non-empty parent brand and its
  non-empty category; when no record matches, the set is the first three of these. A
  drawn node gets the class \<open>filtered\<close> exactly when it is a brand leaf whose name is not
  in the set, so the root, the category nodes and the parent-entity node never get it, and
  the leaf of a matched record with a non-empty name does not get it. A link is drawn at
  opacity 0.1 when it leads to a brand leaf whose name is not in the set, and at opacity
  1 otherwise. When no record matches, the message that no brands were found is shown and
  the whole diagram is drawn at opacity 0.2; otherwise there is no message and the
  diagram is drawn at opacity 1.
\<close>

theorem visible_characterization:
  assumes "prepareRadialData lower le bs = Inr (t, s, lg)"
  shows "visibleNodeNames s (filterBrands lower doc s) =
           {nestle} \<union> (if haveParent s then {loreal} else {}) \<union>
           {c. c \<noteq> [] \<and> Some c \<in> category ` set s} \<union>
           (\<Union>b\<in>{b \<in> set (filterBrands lower doc s). name b \<noteq> []}.
              {name b} \<union> {p. p \<noteq> [] \<and> parent_brand b = Some p} \<union>
              {c. c \<noteq> [] \<and> category b = Some c}) \<and>
         (filterBrands lower doc s = [] \<longrightarrow>
            visibleNodeNames s (filterBrands lower doc s) =
              {nestle} \<union> (if haveParent s then {loreal} else {}) \<union>
              {c. c \<noteq> [] \<and> Some c \<in> category ` set s}) \<and>
         (\<forall>d\<in>set (descendants t).
            filteredClass s (visibleNodeNames s (filterBrands lower doc s)) d =
              (kindOf d = BrandKind \<and>
               nodeName s d \<notin> visibleNodeNames s (filterBrands lower doc s))) \<and>
         (\<forall>i\<in>set (leafRefs t).
            s ! i \<in> set (filterBrands lower doc s) \<and> name (s ! i) \<noteq> [] \<longrightarrow>
            \<not> filteredClass s (visibleNodeNames s (filterBrands lower doc s)) (BrandNode i)) \<and>
         updateRadialView (Some t) s (filterBrands lower doc s) =
           Some \<lparr>nodeFiltered =
                   map (\<lambda>d. (d, kindOf d = BrandKind \<and>
                                nodeName s d \<notin> visibleNodeNames s (filterBrands lower doc s)))
                       (descendants t),
                  linkOpacity =
                   map (\<lambda>l. (l, if kindOf (snd l) = BrandKind \<and>
                                   nodeName s (snd l) \<notin>
                                     visibleNodeNames s (filterBrands lower doc s)
                                then 1 / 10 else 1))
                       (links t),
                  noResultsShown = (filterBrands lower doc s = []),
                  svgOpacity = (if filterBrands lower doc s = [] then 2 / 10 else 1)\<rparr>"
proof -
  let ?fs = "filterBrands lower doc s"
  have a: "visibleNodeNames s ?fs =
           {nestle} \<union> (if haveParent s then {loreal} else {}) \<union>
           {c. c \<noteq> [] \<and> Some c \<in> category ` set s} \<union>
           (\<Union>b\<in>{b \<in> set ?fs. name b \<noteq> []}.
              {name b} \<union> {p. p \<noteq> [] \<and> parent_brand b = Some p} \<union>
              {c. c \<noteq> [] \<and> category b = Some c})"
    unfolding visibleNodeNames_eq baseNames_def
    by (auto simp: brandNames_eq split: if_splits)
  have b: "\<forall>d\<in>set (descendants t).
            filteredClass s (visibleNodeNames s ?fs) d =
              (kindOf d = BrandKind \<and> nodeName s d \<notin> visibleNodeNames s ?fs)"
    using dimmed_iff [OF assms] by blast
  have c: "\<forall>i\<in>set (leafRefs t).
            s ! i \<in> set ?fs \<and> name (s ! i) \<noteq> [] \<longrightarrow>
            \<not> filteredClass s (visibleNodeNames s ?fs) (BrandNode i)"
    unfolding visibleNodeNames_eq
    by (auto simp: filteredClass_def brandNames_eq)
  have d: "?fs = [] \<longrightarrow> visibleNodeNames s ?fs =
              {nestle} \<union> (if haveParent s then {loreal} else {}) \<union>
              {c. c \<noteq> [] \<and> Some c \<in> category ` set s}"
    unfolding visibleNodeNames_eq baseNames_def by auto
  have e: "updateRadialView (Some t) s ?fs =
           Some \<lparr>nodeFiltered =
                   map (\<lambda>d. (d, kindOf d = BrandKind \<and> nodeName s d \<notin> visibleNodeNames s ?fs))
                       (descendants t),
                  linkOpacity =
                   map (\<lambda>l. (l, if kindOf (snd l) = BrandKind \<and>
                                   nodeName s (snd l) \<notin> visibleNodeNames s ?fs
                                then 1 / 10 else 1))
                       (links t),
                  noResultsShown = (?fs = []),
                  svgOpacity = (if ?fs = [] then 2 / 10 else 1)\<rparr>"
    by (rule view_eq [OF assms])
  from a d b c e show ?thesis by blast
qed

theorem visible_characterization_witness:
  "prepareRadialData lowerAscii leCodeUnits exParentBrand =
     Inr (exParentBrandTree, markBrands exParentBrand, []) \<and>
   \<not> filteredClass (markBrands exParentBrand)
        (visibleNodeNames (markBrands exParentBrand)
           (filterBrands lowerAscii regionEU (markBrands exParentBrand))) (BrandNode 0)"
proof -
  have l: "0 \<in> set (leafRefs exParentBrandTree)"
    by (simp add: exParentBrandTree_def)
  have m: "markBrands exParentBrand ! 0 \<in>
             set (filterBrands lowerAscii regionEU (markBrands exParentBrand))"
    by (simp add: exParentBrand_filter)
  have n: "name (markBrands exParentBrand ! 0) \<noteq> []"
    by (simp add: markBrands_def exParentBrand_def mkBrand_def loreal_def)
  from visible_characterization [OF exParentBrand_build, of regionEU] l m n exParentBrand_build
  show ?thesis by blast
qed

text \<open>
  C3 as stated fails where a matched record names another brand as its parent brand:
  that brand is a leaf, is not matched, is no ancestor of a matched leaf, and is not
  dimmed.
\<close>

theorem visible_counterexample:
  "prepareRadialData lowerAscii leCodeUnits exParentBrand =
     Inr (exParentBrandTree, markBrands exParentBrand, []) \<and>
   updateRadialView (Some exParentBrandTree) (markBrands exParentBrand)
     (filterBrands lowerAscii regionEU (markBrands exParentBrand)) =
   Some \<lparr>nodeFiltered =
           [(exParentBrandTree, False),
            (CategoryNode ''Water'' ''assets/water.svg'' False [BrandNode 0, BrandNode 1], False),
            (BrandNode 0, False), (BrandNode 1, False)],
          linkOpacity =
           [((exParentBrandTree,
              CategoryNode ''Water'' ''assets/water.svg'' False [BrandNode 0, BrandNode 1]), 1),
            ((CategoryNode ''Water'' ''assets/water.svg'' False [BrandNode 0, BrandNode 1],
              BrandNode 0), 1),
            ((CategoryNode ''Water'' ''assets/water.svg'' False [BrandNode 0, BrandNode 1],
              BrandNode 1), 1)],
          noResultsShown = False, svgOpacity = 1\<rparr> \<and>
   \<not> claimedVisible (markBrands exParentBrand)
       (filterBrands lowerAscii regionEU (markBrands exParentBrand)) (BrandNode 1)"
  using exParentBrand_build exParentBrand_view exParentBrand_claimed by blast

text \<open>
  C10, as the evaluator has it. For the hierarchy and the brand array left by a build and
  any list of matched records: a brand leaf is dimmed exactly when its name is not in the
  set of visible names, so two brand leaves of equal name are dimmed alike and a brand
  whose name is in the set is never dimmed; root, category and parent-entity nodes are
  never dimmed, whatever the set holds; the name of such a node is in the set unless it is
  the fallback category \<open>Uncategorized\<close>; hence any two drawn nodes of equal name other
  than \<open>Uncategorized\<close> are dimmed alike.
\<close>

theorem dimmed_by_name:
  assumes "prepareRadialData lower le bs = Inr (t, s, lg)"
  shows "(\<forall>d\<in>set (descendants t).
            (kindOf d = BrandKind \<longrightarrow>
               filteredClass s (visibleNodeNames s fs) d = (nodeName s d \<notin> visibleNodeNames s fs)) \<and>
            (kindOf d \<noteq> BrandKind \<longrightarrow>
               \<not> filteredClass s (visibleNodeNames s fs) d \<and>
               (nodeName s d \<in> visibleNodeNames s fs \<or>
                (kindOf d = CategoryKind \<and> nodeName s d = ''Uncategorized'')))) \<and>
         (\<forall>d\<in>set (descendants t). \<forall>e\<in>set (descendants t).
            nodeName s d = nodeName s e \<and> nodeName s d \<noteq> ''Uncategorized'' \<longrightarrow>
            filteredClass s (visibleNodeNames s fs) d = filteredClass s (visibleNodeNames s fs) e)"
proof -
  let ?vis = "visibleNodeNames s fs"
  have s: "s = markBrands bs" by (rule build_store [OF assms])
  have base: "baseNames bs \<subseteq> ?vis" unfolding visibleNodeNames_eq s by simp
  have inner: "nodeName s d \<in> ?vis \<or> (kindOf d = CategoryKind \<and> nodeName s d = ''Uncategorized'')"
    if "d \<in> set (descendants t)" "kindOf d \<noteq> BrandKind" for d
  proof -
    from node_cases [OF assms that(1)] that(2) consider
        "nodeName s d = nestle"
      | "haveParent bs" "nodeName s d = loreal"
      | i where "kindOf d = CategoryKind" "i < length bs" "nodeName s d = categoryNameOf (bs ! i)"
      by auto
    then show ?thesis
    proof cases
      case 1
      with base show ?thesis by (auto simp: baseNames_def)
    next
      case 2
      with base show ?thesis by (auto simp: baseNames_def)
    next
      case 3
      with base categoryName_visible [of i bs] show ?thesis by auto
    qed
  qed
  have one: "\<forall>d\<in>set (descendants t).
            (kindOf d = BrandKind \<longrightarrow> filteredClass s ?vis d = (nodeName s d \<notin> ?vis)) \<and>
            (kindOf d \<noteq> BrandKind \<longrightarrow>
               \<not> filteredClass s ?vis d \<and>
               (nodeName s d \<in> ?vis \<or> (kindOf d = CategoryKind \<and> nodeName s d = ''Uncategorized'')))"
    using dimmed_iff [OF assms] inner by blast
  have two: "filteredClass s ?vis d = (nodeName s d \<notin> ?vis)"
    if "d \<in> set (descendants t)" "nodeName s d \<noteq> ''Uncategorized''" for d
    using one that by (cases "kindOf d = BrandKind") auto
  have "\<forall>d\<in>set (descendants t). \<forall>e\<in>set (descendants t).
            nodeName s d = nodeName s e \<and> nodeName s d \<noteq> ''Uncategorized'' \<longrightarrow>
            filteredClass s ?vis d = filteredClass s ?vis e"
  proof (intro ballI impI)
    fix d e
    assume d: "d \<in> set (descendants t)" and e: "e \<in> set (descendants t)"
      and n: "nodeName s d = nodeName s e \<and> nodeName s d \<noteq> ''Uncategorized''"
    from n have n1: "nodeName s d \<noteq> ''Uncategorized''" and n2: "nodeName s e \<noteq> ''Uncategorized''"
      and eq: "nodeName s d = nodeName s e" by metis+
    show "filteredClass s ?vis d = filteredClass s ?vis e"
      unfolding two [OF d n1] two [OF e n2] eq ..
  qed
  with one show ?thesis by blast
qed

theorem dimmed_by_name_witness:
  "prepareRadialData lowerAscii leCodeUnits exFallback =
     Inr (exFallbackTree, markBrands exFallback, []) \<and>
   \<not> filteredClass (markBrands exFallback)
        (visibleNodeNames (markBrands exFallback)
           (filterBrands lowerAscii regionEU (markBrands exFallback))) exFallbackTree"
proof -
  have m: "exFallbackTree \<in> set (descendants exFallbackTree)"
    by (simp add: exFallbackTree_def descendants_def)
  have k: "kindOf exFallbackTree \<noteq> BrandKind"
    by (simp add: exFallbackTree_def)
  from dimmed_by_name [OF exFallback_build,
          of "filterBrands lowerAscii regionEU (markBrands exFallback)"] m k exFallback_build
  show ?thesis by blast
qed

text \<open>
  C10 as stated fails on the fallback category: its node and a brand of the same name are
  two drawn nodes of equal name, the first never dimmed, the second dimmed.
\<close>

theorem dimmed_by_name_counterexample:
  "prepareRadialData lowerAscii leCodeUnits exFallback =
     Inr (exFallbackTree, markBrands exFallback, []) \<and>
   updateRadialView (Some exFallbackTree) (markBrands exFallback)
     (filterBrands lowerAscii regionEU (markBrands exFallback)) =
   Some \<lparr>nodeFiltered =
           [(exFallbackTree, False),
            (CategoryNode ''Uncategorized'' ''assets/uncategorized.svg'' False [BrandNode 1], False),
            (CategoryNode ''Water'' ''assets/water.svg'' False [BrandNode 0], False),
            (BrandNode 1, False),
            (BrandNode 0, True)],
          linkOpacity =
           [((exFallbackTree,
              CategoryNode ''Uncategorized'' ''assets/uncategorized.svg'' False [BrandNode 1]), 1),
            ((exFallbackTree, CategoryNode ''Water'' ''assets/water.svg'' False [BrandNode 0]), 1),
            ((CategoryNode ''Uncategorized'' ''assets/uncategorized.svg'' False [BrandNode 1],
              BrandNode 1), 1),
            ((CategoryNode ''Water'' ''assets/water.svg'' False [BrandNode 0], BrandNode 0), 1 / 10)],
          noResultsShown = False, svgOpacity = 1\<rparr> \<and>
   nodeName (markBrands exFallback)
     (CategoryNode ''Uncategorized'' ''assets/uncategorized.svg'' False [BrandNode 1]) =
   nodeName (markBrands exFallback) (BrandNode 0)"
proof -
  have "nodeName (markBrands exFallback)
     (CategoryNode ''Uncategorized'' ''assets/uncategorized.svg'' False [BrandNode 1]) =
   nodeName (markBrands exFallback) (BrandNode 0)"
    by (simp add: markBrands_def exFallback_def mkBrand_def)
  with exFallback_build exFallback_view show ?thesis by blast
qed

text \<open>
  C7 as stated fails where the record of the parent entity is matched under \<open>A\<close> only
  and names a brand as its parent brand: no leaf is matched under \<open>A\<close> and one leaf is
  matched under \<open>B\<close>, yet the name of that brand is visible under \<open>A\<close> and not under
  \<open>B\<close>, and its leaf gets the class \<open>filtered\<close> under \<open>B\<close> and not under \<open>A\<close>.
\<close>

theorem monotone_counterexample:
  "prepareRadialData lowerAscii leCodeUnits exLeafSets =
     Inr (exLeafSetsTree, markBrands exLeafSets, []) \<and>
   matchedLeafRefs (markBrands exLeafSets) exLeafSetsTree
     (filterBrands lowerAscii regionEU (markBrands exLeafSets)) = [] \<and>
   matchedLeafRefs (markBrands exLeafSets) exLeafSetsTree
     (filterBrands lowerAscii regionAS (markBrands exLeafSets)) = [2] \<and>
   ''Perrier'' \<in> visibleNodeNames (markBrands exLeafSets)
                    (filterBrands lowerAscii regionEU (markBrands exLeafSets)) \<and>
   ''Perrier'' \<notin> visibleNodeNames (markBrands exLeafSets)
                    (filterBrands lowerAscii regionAS (markBrands exLeafSets)) \<and>
   map_option nodeFiltered
     (updateRadialView (Some exLeafSetsTree) (markBrands exLeafSets)
        (filterBrands lowerAscii regionEU (markBrands exLeafSets))) =
   Some [(exLeafSetsTree, False),
         (CategoryNode ''Water'' ''assets/water.svg'' False [BrandNode 1, BrandNode 2], False),
         (BrandNode 1, False), (BrandNode 2, True)] \<and>
   map_option nodeFiltered
     (updateRadialView (Some exLeafSetsTree) (markBrands exLeafSets)
        (filterBrands lowerAscii regionAS (markBrands exLeafSets))) =
   Some [(exLeafSetsTree, False),
         (CategoryNode ''Water'' ''assets/water.svg'' False [BrandNode 1, BrandNode 2], False),
         (BrandNode 1, True), (BrandNode 2, False)]"
  using exLeafSets_build exLeafSets_leavesEU exLeafSets_leavesAS exLeafSets_namesEU
    exLeafSets_namesAS exLeafSets_viewEU exLeafSets_viewAS
  by blast

subsection \<open>Building again on the array a build has left\<close>

lemma prepare_eq:
  "prepareRadialData lower le bs =
     (case find (\<lambda>b. name b = loreal) bs of
        Some d \<Rightarrow>
          (case groupDirect lower (directRefs bs) (markAll (lorealRefs bs) bs, []) of
             Inl (e, s2) \<Rightarrow> Inl (e, s2, unexpectedWarnings bs)
           | Inr (s2, cats) \<Rightarrow>
               Inr (RootNode (sortRootChildren le s2
                      (parentNodes d bs @ categoryNodes (forInOrder cats))),
                    s2, unexpectedWarnings bs))
      | None \<Rightarrow>
          (case groupDirect lower (directRefs bs @ lorealRefs bs) (bs, []) of
             Inl (e, s2) \<Rightarrow>
               Inl (e, s2, if lorealRefs bs = [] then [] else [WarnMissingLorealParent])
           | Inr (s2, cats) \<Rightarrow>
               Inr (RootNode (sortRootChildren le s2 (categoryNodes (forInOrder cats))),
                    s2, if lorealRefs bs = [] then [] else [WarnMissingLorealParent])))"
proof -
  have p: "partitionBrands (find (\<lambda>b. name b = loreal) bs \<noteq> None) bs [0..<length bs] =
           (directRefs bs, lorealRefs bs)"
    by (simp only: partitionBrands_eq find_haveParent directRefs_def lorealRefs_def)
  show ?thesis
    unfolding prepareRadialData_def p Let_def
    by (cases "find (\<lambda>b. name b = loreal) bs")
       (simp_all add: buildLoreal_Some buildLoreal_None split: sum.splits)
qed

lemma sameFields_nth:
  assumes "sameFields s bs"
  shows "name (s ! j) = name (bs ! j)" "category (s ! j) = category (bs ! j)"
    "parent_brand (s ! j) = parent_brand (bs ! j)" "categoryNameOf (s ! j) = categoryNameOf (bs ! j)"
proof -
  from assms show n: "name (s ! j) = name (bs ! j)" unfolding sameFields_def by meson
  from assms show c: "category (s ! j) = category (bs ! j)" unfolding sameFields_def by meson
  from assms show "parent_brand (s ! j) = parent_brand (bs ! j)" unfolding sameFields_def by meson
  from c show "categoryNameOf (s ! j) = categoryNameOf (bs ! j)" by (simp add: categoryNameOf_def)
qed

lemma sameFields_markAll: "sameFields (markAll is bs) bs"
  by (simp add: sameFields_def)

lemma sameFields_sym: "sameFields a b \<Longrightarrow> sameFields b a"
  by (simp add: sameFields_def)

lemma sameFields_trans: "sameFields a b \<Longrightarrow> sameFields b c \<Longrightarrow> sameFields a c"
  by (simp add: sameFields_def)

lemma sameFields_refs:
  assumes "sameFields s bs" and "haveParent s = haveParent bs"
  shows "directRefs s = directRefs bs" "lorealRefs s = lorealRefs bs"
    "subNodes s = subNodes bs" "unexpectedWarnings s = unexpectedWarnings bs"
    "parentNodes d s = parentNodes d bs"
proof -
  have l: "length s = length bs" using assms(1) by (simp add: sameFields_def)
  show d: "directRefs s = directRefs bs"
    by (simp add: directRefs_def isDirect_def [abs_def] isSkipped_def [abs_def]
                  sameFields_nth [OF assms(1)] assms(2) l)
  show r: "lorealRefs s = lorealRefs bs"
    by (simp add: lorealRefs_def isLorealChild_def [abs_def] isSkipped_def [abs_def]
                  sameFields_nth [OF assms(1)] assms(2) l)
  show n: "subNodes s = subNodes bs"
    by (simp add: subNodes_def r sameFields_nth [OF assms(1)])
  show "unexpectedWarnings s = unexpectedWarnings bs"
    by (simp add: unexpectedWarnings_def r sameFields_nth [OF assms(1)])
  show "parentNodes d s = parentNodes d bs"
    by (simp add: parentNodes_def n)
qed

lemma byName_cong: "sameFields s bs \<Longrightarrow> byName le s = byName le bs"
proof (intro ext)
  fix a b
  assume f: "sameFields s bs"
  have "nodeName s x = nodeName bs x" for x
    by (cases x) (simp_all add: sameFields_nth [OF f])
  then show "byName le s a b = byName le bs a b" by (simp add: byName_def)
qed

lemma sortRootChildren_cong:
  assumes "sameFields s bs"
  shows "sortRootChildren le s rs = sortRootChildren le bs rs"
proof -
  have b: "byName le s = byName le bs" by (rule byName_cong [OF assms])
  have "sortSubchild le s c = sortSubchild le bs c" for c
    by (simp add: sortSubchild_def b)
  then have ss: "sortSubchild le s = sortSubchild le bs" by (rule ext)
  have "sortChild le s c = sortChild le bs c" for c
    by (cases c) (simp_all add: sortChild_cases b ss)
  then have "sortChild le s = sortChild le bs" by (rule ext)
  then show ?thesis by (simp add: sortRootChildren_def b)
qed

lemma find_markBrands:
  "find (\<lambda>b. name b = loreal) (markBrands bs) = find (\<lambda>b. name b = loreal) bs"
  by (induction bs) (auto simp: markBrands_def)

lemma markBrands_idem: "markBrands (markBrands bs) = markBrands bs"
  by (simp add: markBrands_def)

lemma build_sameFields:
  assumes "prepareRadialData lower le bs = Inr (t, s, lg)"
  shows "sameFields s bs"
  using assms
proof (cases rule: build_cases)
  case (parent d cats)
  from groupDirect_ok [OF parent(4)]
  have "s = markAll (lorealRefs bs @ directRefs bs) bs" by (simp add: markAll_append)
  then show ?thesis by (simp add: sameFields_markAll)
next
  case (noParent cats)
  from groupDirect_ok [OF noParent(2)]
  have "s = markAll (directRefs bs @ lorealRefs bs) bs" by simp
  then show ?thesis by (simp add: sameFields_markAll)
qed

lemma groupDirect_cong_Inr:
  assumes "groupDirect lower is (s, cats) = Inr (s2, cats2)" and "sameFields s' s"
  shows "groupDirect lower is (s', cats) = Inr (markAll is s', cats2)"
proof -
  have c: "\<And>j. categoryNameOf (s' ! j) = categoryNameOf (s ! j)"
    by (rule sameFields_nth [OF assms(2)])
  from groupDirect_cong [of s' s lower "is" cats, OF c] assms(1)
  have "map_sum fst snd (groupDirect lower is (s', cats)) = Inr cats2" by simp
  then obtain s3 where g: "groupDirect lower is (s', cats) = Inr (s3, cats2)"
    by (cases "groupDirect lower is (s', cats)") auto
  have "s3 = markAll is s'"
    using g
  proof (induction "is" arbitrary: s' cats)
    case Nil
    then show ?case by simp
  next
    case (Cons i "is")
    then show ?case
      by (auto simp: groupDirect_Cons simp del: groupDirect.simps split: if_splits)
  qed
  then show ?thesis using g by simp
qed

lemma build_stable:
  assumes "prepareRadialData lower le bs = Inr (t, s, lg)"
  shows "prepareRadialData lower le s = Inr (t, s, lg)"
proof -
  have sm: "s = markBrands bs" by (rule build_store [OF assms])
  have f: "sameFields s bs" by (rule build_sameFields [OF assms])
  have hp: "haveParent s = haveParent bs" unfolding sm by simp
  have fd: "find (\<lambda>b. name b = loreal) s = find (\<lambda>b. name b = loreal) bs"
    unfolding sm by (rule find_markBrands)
  note r = sameFields_refs [OF f hp]
  from assms show ?thesis
  proof (cases rule: build_cases)
    case (parent d cats)
    have f1: "sameFields (markAll (lorealRefs bs) s) (markAll (lorealRefs bs) bs)"
      by (rule sameFields_trans [OF sameFields_markAll
                sameFields_trans [OF f sameFields_sym [OF sameFields_markAll]]])
    from groupDirect_cong_Inr [OF parent(4) f1]
    have g: "groupDirect lower (directRefs bs) (markAll (lorealRefs bs) s, []) =
             Inr (markAll (directRefs bs) (markAll (lorealRefs bs) s), cats)" .
    let ?s2 = "markAll (directRefs bs) (markAll (lorealRefs bs) s)"
    have e: "prepareRadialData lower le s =
             Inr (RootNode (sortRootChildren le ?s2
                    (parentNodes d bs @ categoryNodes (forInOrder cats))), ?s2, lg)"
      unfolding prepare_eq [of lower le s] fd parent(1) r using g parent(6) by simp
    have "?s2 = markBrands s" by (rule build_store [OF e])
    then have s2: "?s2 = s" unfolding sm by (simp add: markBrands_idem)
    from e show ?thesis unfolding s2 parent(5) .
  next
    case (noParent cats)
    have fn: "find (\<lambda>b. name b = loreal) bs = None"
      using noParent(1) find_haveParent [of bs] by simp
    from groupDirect_cong_Inr [OF noParent(2) f]
    have g: "groupDirect lower (directRefs bs @ lorealRefs bs) (s, []) =
             Inr (markAll (directRefs bs @ lorealRefs bs) s, cats)" .
    let ?s2 = "markAll (directRefs bs @ lorealRefs bs) s"
    have e: "prepareRadialData lower le s =
             Inr (RootNode (sortRootChildren le ?s2 (categoryNodes (forInOrder cats))), ?s2, lg)"
      unfolding prepare_eq [of lower le s] fd fn r using g noParent(4) by simp
    have "?s2 = markBrands s" by (rule build_store [OF e])
    then have s2: "?s2 = s" unfolding sm by (simp add: markBrands_idem)
    from e show ?thesis unfolding s2 noParent(3) .
  qed
qed

subsection \<open>A build that raises\<close>

lemma processed_cong:
  "(\<And>j. categoryNameOf (s ! j) = categoryNameOf (s' ! j)) \<Longrightarrow>
   processed s keys is = processed s' keys is"
  by (induction "is" arbitrary: keys) simp_all

lemma groupDirect_store:
  "(case groupDirect lower is (s, cats) of Inl (e, s') \<Rightarrow> s' | Inr (s', c) \<Rightarrow> s') =
     markAll (processed s (fst ` set cats) is) s"
proof (induction "is" arbitrary: s cats)
  case Nil
  then show ?case by simp
next
  case (Cons i "is")
  let ?k = "categoryNameOf (s ! i)"
  have p: "processed (mark s i) keys is = processed s keys is" for keys
    by (rule processed_cong) simp
  show ?case
  proof (cases "?k \<in> fst ` set cats")
    case True
    then show ?thesis
      unfolding groupDirect_Cons by (simp add: Cons.IH p)
  next
    case False
    show ?thesis
    proof (cases "?k \<in> set objectPrototypeKeys")
      case True
      with False show ?thesis unfolding groupDirect_Cons by simp
    next
      case np: False
      with False show ?thesis
        unfolding groupDirect_Cons by (simp add: Cons.IH p)
    qed
  qed
qed

lemma groupDirect_store_Inl:
  "groupDirect lower is (s, []) = Inl (e, s') \<Longrightarrow> s' = markAll (processed s {} is) s"
  using groupDirect_store [of lower "is" s "[]"] by simp

lemma groupDirect_cong_Inl:
  assumes "groupDirect lower is (s, []) = Inl (e, s2)" and "sameFields s' s"
  shows "groupDirect lower is (s', []) = Inl (e, markAll (processed s {} is) s')"
proof -
  have c: "\<And>j. categoryNameOf (s' ! j) = categoryNameOf (s ! j)"
    by (rule sameFields_nth [OF assms(2)])
  from groupDirect_cong [of s' s lower "is" "[]", OF c] assms(1)
  have "map_sum fst snd (groupDirect lower is (s', [])) = Inl e" by simp
  then obtain s3 where g: "groupDirect lower is (s', []) = Inl (e, s3)"
    by (cases "groupDirect lower is (s', [])") auto
  from groupDirect_store_Inl [OF g] have "s3 = markAll (processed s' {} is) s'" .
  also have "processed s' {} is = processed s {} is"
    by (rule processed_cong) (rule c)
  finally show ?thesis using g by simp
qed

lemma setBrandType_idem [simp]: "setBrandType (setBrandType b) = setBrandType b"
  by (simp add: setBrandType_def)

lemma markAll_idem: "markAll xs (markAll xs s) = markAll xs s"
  by (rule nth_equalityI) (simp_all add: markAll_nth)

lemma sameFields_haveParent:
  assumes "sameFields s bs"
  shows "haveParent s = haveParent bs"
proof -
  have l: "length s = length bs" using assms by (simp add: sameFields_def)
  have "haveParent x = (\<exists>j<length x. name (x ! j) = loreal)" for x
    unfolding haveParent_def by (metis in_set_conv_nth)
  then show ?thesis by (simp add: l sameFields_nth [OF assms])
qed

lemma build_stable_throw:
  assumes "prepareRadialData lower le bs = Inl (e, s, lg)"
  shows "prepareRadialData lower le s = Inl (e, s, lg)"
proof (cases "find (\<lambda>b. name b = loreal) bs")
  case None
  let ?R = "directRefs bs @ lorealRefs bs"
  from assms have g: "groupDirect lower ?R (bs, []) = Inl (e, s)"
    and lg: "lg = (if lorealRefs bs = [] then [] else [WarnMissingLorealParent])"
    unfolding prepare_eq [of lower le bs] None by (auto split: sum.splits)
  have s: "s = markAll (processed bs {} ?R) bs" by (rule groupDirect_store_Inl [OF g])
  have f: "sameFields s bs" unfolding s by (rule sameFields_markAll)
  have hp: "haveParent s = haveParent bs" by (rule sameFields_haveParent [OF f])
  have fn: "find (\<lambda>b. name b = loreal) s = None"
    using None find_haveParent [of bs] find_haveParent [of s] hp by simp
  note r = sameFields_refs [OF f hp]
  have "groupDirect lower ?R (s, []) = Inl (e, markAll (processed bs {} ?R) s)"
    by (rule groupDirect_cong_Inl [OF g f])
  also have "markAll (processed bs {} ?R) s = s" unfolding s by (rule markAll_idem)
  finally show ?thesis
    unfolding prepare_eq [of lower le s] fn r lg by simp
next
  case (Some d)
  let ?L = "lorealRefs bs" and ?D = "directRefs bs"
  let ?s1 = "markAll ?L bs"
  from assms have g: "groupDirect lower ?D (?s1, []) = Inl (e, s)"
    and lg: "lg = unexpectedWarnings bs"
    unfolding prepare_eq [of lower le bs] Some by (auto split: sum.splits)
  let ?P = "processed ?s1 {} ?D"
  have s: "s = markAll (?L @ ?P) bs"
    using groupDirect_store_Inl [OF g] by (simp add: markAll_append)
  have f: "sameFields s bs" unfolding s by (rule sameFields_markAll)
  have hp: "haveParent s = haveParent bs" by (rule sameFields_haveParent [OF f])
  have "haveParent bs" using find_haveParent_Some [OF Some] by simp
  with hp obtain d' where fs: "find (\<lambda>b. name b = loreal) s = Some d'"
    using find_haveParent_ex [of s] by auto
  note r = sameFields_refs [OF f hp]
  have f1: "sameFields (markAll ?L s) ?s1"
    by (rule sameFields_trans [OF sameFields_markAll
              sameFields_trans [OF f sameFields_sym [OF sameFields_markAll]]])
  have "groupDirect lower ?D (markAll ?L s, []) = Inl (e, markAll ?P (markAll ?L s))"
    by (rule groupDirect_cong_Inl [OF g f1])
  also have "markAll ?P (markAll ?L s) = s"
  proof -
    have "markAll ?P (markAll ?L s) = markAll (?L @ ?P) s" by (simp only: markAll_append)
    also have "\<dots> = s" by (subst (1 2) s) (rule markAll_idem)
    finally show ?thesis .
  qed
  finally show ?thesis
    unfolding prepare_eq [of lower le s] fs r lg by simp
qed

lemma build_stable_total:
  "prepareRadialData lower le
     (case prepareRadialData lower le bs of Inl (e, s, lg) \<Rightarrow> s | Inr (t, s, lg) \<Rightarrow> s) =
   prepareRadialData lower le bs"
proof (cases "prepareRadialData lower le bs")
  case (Inl x)
  then obtain e s lg where "prepareRadialData lower le bs = Inl (e, s, lg)"
    by (cases x) auto
  with build_stable_throw [OF this] show ?thesis by simp
next
  case (Inr x)
  then obtain t s lg where "prepareRadialData lower le bs = Inr (t, s, lg)"
    by (cases x) auto
  with build_stable [OF this] show ?thesis by simp
qed

lemma layout_stable:
  "layoutRadial cluster lower le (stateAfter (layoutRadial cluster lower le st)) =
   layoutRadial cluster lower le st"
proof (cases "prepareRadialData lower le (allBrands st)")
  case (Inl x)
  then obtain e s lg where p: "prepareRadialData lower le (allBrands st) = Inl (e, s, lg)"
    by (cases x) auto
  from build_stable_throw [OF p] p show ?thesis
    by (simp add: layoutRadial_def prepareRadialDataG_def stateAfter_def)
next
  case (Inr x)
  then obtain t s lg where p: "prepareRadialData lower le (allBrands st) = Inr (t, s, lg)"
    by (cases x) auto
  from build_stable [OF p] p show ?thesis
    by (simp add: layoutRadial_def prepareRadialDataG_def stateAfter_def)
qed

subsection \<open>The sorting pass sorts\<close>

lemma sorted_insertBy:
  assumes total: "\<And>a b. cmp a b \<or> cmp b a" and trans: "\<And>a b c. cmp a b \<Longrightarrow> cmp b c \<Longrightarrow> cmp a c"
  shows "sorted_wrt cmp xs \<Longrightarrow> sorted_wrt cmp (insertBy cmp x xs)"
proof (induction xs)
  case Nil
  then show ?case by simp
next
  case (Cons y ys)
  show ?case
  proof (cases "cmp x y")
    case True
    with Cons.prems trans show ?thesis by auto
  next
    case False
    with total have "cmp y x" by blast
    with False Cons show ?thesis by (auto simp: set_insertBy)
  qed
qed

lemma sorted_sortBy:
  assumes total: "\<And>a b. cmp a b \<or> cmp b a" and trans: "\<And>a b c. cmp a b \<Longrightarrow> cmp b c \<Longrightarrow> cmp a c"
  shows "sorted_wrt cmp (sortBy cmp xs)"
  unfolding sortBy_def
  by (induction xs) (simp_all add: sorted_insertBy [OF total trans])

lemma sorted_byName:
  assumes "totalPreorder le"
  shows "sorted_wrt (byName le s) (sortBy (byName le s) xs)"
proof (rule sorted_sortBy)
  fix a b c
  show "byName le s a b \<or> byName le s b a"
    using assms by (auto simp: totalPreorder_def byName_def)
  show "byName le s a b \<Longrightarrow> byName le s b c \<Longrightarrow> byName le s a c"
    using assms unfolding totalPreorder_def byName_def by blast
qed

lemma nodeName_sortSubchild [simp]: "nodeName s (sortSubchild le s' c) = nodeName s c"
  by (cases c) (simp_all add: sortSubchild_cases)

lemma nodeName_sortChild [simp]: "nodeName s (sortChild le s' c) = nodeName s c"
  by (cases c) (simp_all add: sortChild_cases)

lemma sorted_map_sortSubchild:
  "sorted_wrt (byName le s) xs \<Longrightarrow> sorted_wrt (byName le s) (map (sortSubchild le s) xs)"
  by (simp add: sorted_wrt_map byName_def [abs_def])

lemma sorted_map_sortChild:
  "sorted_wrt (byName le s) xs \<Longrightarrow> sorted_wrt (byName le s) (map (sortChild le s) xs)"
  by (simp add: sorted_wrt_map byName_def [abs_def])

lemma brand_subtree:
  "kindOf c = BrandKind \<Longrightarrow> n \<in> set (subtreeNodes c) \<Longrightarrow> childrenOf n = []"
  by (cases c) auto

lemma flat_sorted:
  assumes "totalPreorder le" and "flatCategory x" and "n \<in> set (subtreeNodes (sortSubchild le s x))"
  shows "sorted_wrt (byName le s) (childrenOf n)"
proof (cases x)
  case (CategoryNode nm icon lc cs)
  with assms(2) have b: "\<And>c. c \<in> set cs \<Longrightarrow> kindOf c = BrandKind"
    by (simp add: list_all_iff)
  from assms(3) CategoryNode consider
      "n = CategoryNode nm icon lc (sortBy (byName le s) cs)"
    | c where "c \<in> set cs" "n \<in> set (subtreeNodes c)"
    by (auto simp: sortSubchild_cases set_sortBy)
  then show ?thesis
  proof cases
    case 1
    then show ?thesis by (simp add: sorted_byName [OF assms(1)])
  next
    case 2
    with b brand_subtree [of c n] show ?thesis by simp
  qed
qed (use assms(2) in simp_all)

lemma shape_sorted:
  assumes "totalPreorder le" and "rootChildShape c" and "n \<in> set (subtreeNodes (sortChild le s c))"
  shows "sorted_wrt (byName le s) (childrenOf n)"
proof (cases c)
  case (CategoryNode nm icon lc cs)
  then have e: "sortChild le s c = sortSubchild le s c"
    by (simp add: sortChild_cases sortSubchild_cases)
  from assms(2) CategoryNode have "flatCategory c" by simp
  from flat_sorted [OF assms(1) this] assms(3) show ?thesis unfolding e by blast
next
  case (LorealParentNode d subs)
  with assms(2) have t: "nodeType d = Some ''loreal_parent''"
    and f: "\<And>x. x \<in> set subs \<Longrightarrow> flatCategory x"
    by (simp_all add: list_all_iff)
  let ?cs = "map (sortSubchild le s) (sortBy (byName le s) (sortBy (byName le s) subs))"
  have sc: "sortChild le s c = LorealParentNode d ?cs"
    using LorealParentNode t by (simp add: sortChild_cases)
  from assms(3) consider "n = LorealParentNode d ?cs"
    | x where "x \<in> set subs" "n \<in> set (subtreeNodes (sortSubchild le s x))"
    unfolding sc by (auto simp: set_sortBy)
  then show ?thesis
  proof cases
    case 1
    then show ?thesis
      by (simp add: sorted_map_sortSubchild sorted_byName [OF assms(1)])
  next
    case 2
    from flat_sorted [OF assms(1) f [OF 2(1)] 2(2)] show ?thesis .
  qed
qed (use assms(2) in simp_all)

lemma categoryNodes_shape: "c \<in> set (categoryNodes cs) \<Longrightarrow> rootChildShape c"
  by (induction cs rule: categoryNodes.induct) (auto simp: list_all_iff split: if_splits)

lemma subNodes_flat: "x \<in> set (subNodes bs) \<Longrightarrow> flatCategory x"
  by (auto simp: subNodes_def lorealSubCategories_def list_all_iff split: if_splits)

lemma parentNodes_shape: "c \<in> set (parentNodes d bs) \<Longrightarrow> rootChildShape c"
  by (auto simp: parentNodes_def list_all_iff subNodes_flat split: if_splits)

lemma root_sorted:
  assumes "totalPreorder le" and "\<And>c. c \<in> set rs \<Longrightarrow> rootChildShape c"
    and "n \<in> set (subtreeNodes (RootNode (sortRootChildren le s rs)))"
  shows "sorted_wrt (byName le s) (childrenOf n)"
proof -
  from assms(3) consider "n = RootNode (sortRootChildren le s rs)"
    | c where "c \<in> set rs" "n \<in> set (subtreeNodes (sortChild le s c))"
    by (auto simp: sortRootChildren_def set_sortBy)
  then show ?thesis
  proof cases
    case 1
    then show ?thesis
      by (simp add: sortRootChildren_def sorted_map_sortChild sorted_byName [OF assms(1)])
  next
    case 2
    from shape_sorted [OF assms(1) assms(2) [OF 2(1)] 2(2)] show ?thesis .
  qed
qed

lemma build_sorted:
  assumes "totalPreorder le" and "prepareRadialData lower le bs = Inr (t, s, lg)"
    and "n \<in> set (descendants t)"
  shows "sorted_wrt (byName le s) (childrenOf n)"
  using assms(2)
proof (cases rule: build_cases)
  case (parent d cats)
  have "\<And>c. c \<in> set (parentNodes d bs @ categoryNodes (forInOrder cats)) \<Longrightarrow> rootChildShape c"
    using parentNodes_shape categoryNodes_shape by auto
  from root_sorted [OF assms(1) this] assms(3) show ?thesis
    unfolding set_descendants parent(5) by blast
next
  case (noParent cats)
  have "\<And>c. c \<in> set (categoryNodes (forInOrder cats)) \<Longrightarrow> rootChildShape c"
    using categoryNodes_shape by auto
  from root_sorted [OF assms(1) this] assms(3) show ?thesis
    unfolding set_descendants noParent(3) by blast
qed

subsection \<open>The comparison by code units\<close>

lemma leCodeUnits_total: "leCodeUnits a b \<or> leCodeUnits b a"
  by (induction a b rule: leCodeUnits.induct) auto

lemma leCodeUnits_trans: "leCodeUnits a b \<Longrightarrow> leCodeUnits b c \<Longrightarrow> leCodeUnits a c"
proof (induction a b arbitrary: c rule: leCodeUnits.induct)
  case (1 t)
  then show ?case by simp
next
  case (2 c cs)
  then show ?case by simp
next
  case (3 x xs y ys)
  then show ?case by (cases c) auto
qed

lemma leCodeUnits_preorder: "totalPreorder leCodeUnits"
  unfolding totalPreorder_def using leCodeUnits_total leCodeUnits_trans by blast

subsection \<open>Running twice\<close>

text \<open>
  The build raises exactly when a record grouped under the root has a category that the
  dictionary object inherits from its prototype; otherwise it returns. On the empty list
  it returns the bare root.
\<close>

lemma build_fails_iff:
  "isl (prepareRadialData lower le bs) \<longleftrightarrow>
     (\<exists>i\<in>set (groupedRefs bs). categoryNameOf (bs ! i) \<in> set objectPrototypeKeys)"
proof (cases "find (\<lambda>b. name b = loreal) bs")
  case None
  then have h: "\<not> haveParent bs" using find_haveParent [of bs] by simp
  have "isl (prepareRadialData lower le bs) =
        isl (groupDirect lower (directRefs bs @ lorealRefs bs) (bs, []))"
    unfolding prepare_eq [of lower le bs] None by (simp split: sum.splits)
  with h show ?thesis by (simp add: groupDirect_fails groupedRefs_def)
next
  case (Some d)
  have h: "haveParent bs" using find_haveParent_Some [OF Some] by simp
  have "isl (prepareRadialData lower le bs) =
        isl (groupDirect lower (directRefs bs) (markAll (lorealRefs bs) bs, []))"
    unfolding prepare_eq [of lower le bs] Some by (simp split: sum.splits)
  with h show ?thesis by (simp add: groupDirect_fails groupedRefs_def)
qed

lemma build_empty: "prepareRadialData lower le [] = Inr (RootNode [], [], [])"
  by (simp add: prepareRadialData_def buildLoreal_def forInOrder_def sortRootChildren_def sortBy_def)

lemma matches_markBrands:
  "filterBrands lower doc (markBrands bs) =
     map (\<lambda>b. if name b = loreal then b else setBrandType b) (filterBrands lower doc bs)"
proof -
  have "(\<lambda>b. matchesSearch lower sv (if name b = loreal then b else setBrandType b) \<and>
             matchesRegion rv (if name b = loreal then b else setBrandType b)) =
        (\<lambda>b. matchesSearch lower sv b \<and> matchesRegion rv b)" for sv rv
    by (rule ext) (simp add: matchesSearch_def matchesRegion_def)
  then show ?thesis
    by (simp add: filterBrands_def markBrands_def filter_map comp_def Let_def)
qed

lemma brandNames_mark: "brandNames (if name b = loreal then b else setBrandType b) = brandNames b"
  by (simp add: brandNames_eq)

lemma visible_markBrands:
  "visibleNodeNames (markBrands bs) (filterBrands lower doc (markBrands bs)) =
   visibleNodeNames bs (filterBrands lower doc bs)"
proof -
  have "(\<Union>b\<in>set (map (\<lambda>b. if name b = loreal then b else setBrandType b) xs). brandNames b) =
        (\<Union>b\<in>set xs. brandNames b)" for xs
    by (induction xs) (simp_all only: list.map list.set UN_insert UN_empty brandNames_mark)
  then show ?thesis
    unfolding visibleNodeNames_eq matches_markBrands by (simp only: baseNames_markBrands)
qed

lemma nodeName_sameFields: "sameFields s bs \<Longrightarrow> nodeName s d = nodeName bs d"
  by (cases d) (simp_all add: sameFields_nth)

lemma matches_markBrands_Nil:
  "(filterBrands lower doc (markBrands bs) = []) = (filterBrands lower doc bs = [])"
  by (simp add: matches_markBrands)

lemma exFallbackState_build:
  "prepareRadialDataG lowerAscii leCodeUnits exFallbackState =
     Inr (exFallbackTree, exFallbackState\<lparr>allBrands := markBrands exFallback\<rparr>, [])"
  by (simp add: prepareRadialDataG_def exFallbackState_def exFallback_build)

lemma exFallbackState_layout:
  "layoutRadial leafRefs lowerAscii leCodeUnits exFallbackState =
     Inr ([1, 0], exFallbackState\<lparr>allBrands := markBrands exFallback\<rparr>, [])"
  by (simp add: layoutRadial_def exFallbackState_build exFallbackTree_def)

lemma exThrowState_layout:
  "layoutRadial leafRefs lowerAscii leCodeUnits exThrowState =
     Inl (TypeError, exThrowState\<lparr>allBrands := exThrowLeft\<rparr>, [])"
  by (simp add: layoutRadial_def prepareRadialDataG_def exThrowState_def exThrow_build)

text \<open>
  C6. For every state of the brand array: running the layout step again on the state
  that a first run has left gives the result of the first run, whether the build returned
  or raised, so the layout is handed the same hierarchy and gives the same positions, and
  the state and the log are the same. When the build returns, the layout step returns the
  positions of the built hierarchy; the children of every node of that hierarchy are in
  ascending order of name, provided the comparison of names is a total preorder; and
  evaluating the filter on that hierarchy from the state left gives the annotations that
  follow from the input array, the controls and the hierarchy, whatever the build has
  written on the records, and leaves the state as it is, so that evaluating again gives
  the same annotations.
\<close>

theorem layout_deterministic:
  shows "layoutRadial cluster lower le (stateAfter (layoutRadial cluster lower le st)) =
           layoutRadial cluster lower le st \<and>
         (\<forall>t st1 lg. prepareRadialDataG lower le st = Inr (t, st1, lg) \<longrightarrow>
            layoutRadial cluster lower le st = Inr (cluster t, st1, lg) \<and>
            (totalPreorder le \<longrightarrow>
               (\<forall>n\<in>set (descendants t).
                  sorted_wrt (byName le (allBrands st1)) (childrenOf n))) \<and>
            filterBrandsG lower doc (st1\<lparr>radialSvg := Some t\<rparr>) =
              (Some \<lparr>nodeFiltered =
                       map (\<lambda>d. (d, kindOf d = BrandKind \<and>
                                    nodeName (allBrands st) d \<notin>
                                      visibleNodeNames (allBrands st)
                                        (filterBrands lower doc (allBrands st))))
                           (descendants t),
                      linkOpacity =
                       map (\<lambda>l. (l, if kindOf (snd l) = BrandKind \<and>
                                       nodeName (allBrands st) (snd l) \<notin>
                                         visibleNodeNames (allBrands st)
                                           (filterBrands lower doc (allBrands st))
                                    then 1 / 10 else 1))
                           (links t),
                      noResultsShown = (filterBrands lower doc (allBrands st) = []),
                      svgOpacity =
                        (if filterBrands lower doc (allBrands st) = [] then 2 / 10 else 1)\<rparr>,
               st1\<lparr>radialSvg := Some t\<rparr>))"
proof -
  have a: "layoutRadial cluster lower le (stateAfter (layoutRadial cluster lower le st)) =
           layoutRadial cluster lower le st"
    by (rule layout_stable)
  have b: "layoutRadial cluster lower le st = Inr (cluster t, st1, lg) \<and>
            (totalPreorder le \<longrightarrow>
               (\<forall>n\<in>set (descendants t).
                  sorted_wrt (byName le (allBrands st1)) (childrenOf n))) \<and>
            filterBrandsG lower doc (st1\<lparr>radialSvg := Some t\<rparr>) =
              (Some \<lparr>nodeFiltered =
                       map (\<lambda>d. (d, kindOf d = BrandKind \<and>
                                    nodeName (allBrands st) d \<notin>
                                      visibleNodeNames (allBrands st)
                                        (filterBrands lower doc (allBrands st))))
                           (descendants t),
                      linkOpacity =
                       map (\<lambda>l. (l, if kindOf (snd l) = BrandKind \<and>
                                       nodeName (allBrands st) (snd l) \<notin>
                                         visibleNodeNames (allBrands st)
                                           (filterBrands lower doc (allBrands st))
                                    then 1 / 10 else 1))
                           (links t),
                      noResultsShown = (filterBrands lower doc (allBrands st) = []),
                      svgOpacity =
                        (if filterBrands lower doc (allBrands st) = [] then 2 / 10 else 1)\<rparr>,
               st1\<lparr>radialSvg := Some t\<rparr>)"
    if g: "prepareRadialDataG lower le st = Inr (t, st1, lg)" for t st1 lg
  proof -
    from g obtain s where
      p: "prepareRadialData lower le (allBrands st) = Inr (t, s, lg)"
      and st1: "st1 = st\<lparr>allBrands := s\<rparr>"
      by (auto simp: prepareRadialDataG_def split: sum.splits)
    have s: "s = markBrands (allBrands st)" by (rule build_store [OF p])
    have l: "layoutRadial cluster lower le st = Inr (cluster t, st1, lg)"
      using g by (simp add: layoutRadial_def)
    have o: "totalPreorder le \<longrightarrow>
             (\<forall>n\<in>set (descendants t). sorted_wrt (byName le (allBrands st1)) (childrenOf n))"
      using build_sorted [OF _ p] by (simp add: st1)
    have v: "visibleNodeNames s (filterBrands lower doc s) =
             visibleNodeNames (allBrands st) (filterBrands lower doc (allBrands st))"
      unfolding s by (rule visible_markBrands)
    have n: "nodeName s = nodeName (allBrands st)"
      by (rule ext) (rule nodeName_sameFields [OF build_sameFields [OF p]])
    have e: "(filterBrands lower doc s = []) = (filterBrands lower doc (allBrands st) = [])"
      unfolding s by (rule matches_markBrands_Nil)
    have f: "filterBrandsG lower doc (st1\<lparr>radialSvg := Some t\<rparr>) =
             (updateRadialView (Some t) s (filterBrands lower doc s), st1\<lparr>radialSvg := Some t\<rparr>)"
      by (simp add: filterBrandsG_def st1)
    from l o show ?thesis
      unfolding f view_eq [OF p, of "filterBrands lower doc s"] v n e by simp
  qed
  from a b show ?thesis by blast
qed

theorem layout_deterministic_witness:
  "totalPreorder leCodeUnits \<and>
   layoutRadial leafRefs lowerAscii leCodeUnits exFallbackState =
     Inr ([1, 0], exFallbackState\<lparr>allBrands := markBrands exFallback\<rparr>, []) \<and>
   layoutRadial leafRefs lowerAscii leCodeUnits
       (exFallbackState\<lparr>allBrands := markBrands exFallback\<rparr>) =
     Inr ([1, 0], exFallbackState\<lparr>allBrands := markBrands exFallback\<rparr>, []) \<and>
   sorted_wrt (byName leCodeUnits (markBrands exFallback)) (childrenOf exFallbackTree) \<and>
   layoutRadial leafRefs lowerAscii leCodeUnits exThrowState =
     Inl (TypeError, exThrowState\<lparr>allBrands := exThrowLeft\<rparr>, []) \<and>
   layoutRadial leafRefs lowerAscii leCodeUnits (exThrowState\<lparr>allBrands := exThrowLeft\<rparr>) =
     Inl (TypeError, exThrowState\<lparr>allBrands := exThrowLeft\<rparr>, [])"
proof -
  note th1 = layout_deterministic [of leafRefs lowerAscii leCodeUnits exFallbackState regionEU]
  note th2 = layout_deterministic [of leafRefs lowerAscii leCodeUnits exThrowState regionEU]
  have a1: "stateAfter (layoutRadial leafRefs lowerAscii leCodeUnits exFallbackState) =
            exFallbackState\<lparr>allBrands := markBrands exFallback\<rparr>"
    by (simp add: exFallbackState_layout stateAfter_def)
  have a2: "stateAfter (layoutRadial leafRefs lowerAscii leCodeUnits exThrowState) =
            exThrowState\<lparr>allBrands := exThrowLeft\<rparr>"
    by (simp add: exThrowState_layout stateAfter_def)
  from th1 have "layoutRadial leafRefs lowerAscii leCodeUnits
       (stateAfter (layoutRadial leafRefs lowerAscii leCodeUnits exFallbackState)) =
     layoutRadial leafRefs lowerAscii leCodeUnits exFallbackState"
    by (rule conjunct1)
  then have c1: "layoutRadial leafRefs lowerAscii leCodeUnits
       (exFallbackState\<lparr>allBrands := markBrands exFallback\<rparr>) =
     Inr ([1, 0], exFallbackState\<lparr>allBrands := markBrands exFallback\<rparr>, [])"
    unfolding a1 by (simp only: exFallbackState_layout)
  from th2 have "layoutRadial leafRefs lowerAscii leCodeUnits
       (stateAfter (layoutRadial leafRefs lowerAscii leCodeUnits exThrowState)) =
     layoutRadial leafRefs lowerAscii leCodeUnits exThrowState"
    by (rule conjunct1)
  then have c2: "layoutRadial leafRefs lowerAscii leCodeUnits
       (exThrowState\<lparr>allBrands := exThrowLeft\<rparr>) =
     Inl (TypeError, exThrowState\<lparr>allBrands := exThrowLeft\<rparr>, [])"
    unfolding a2 by (simp only: exThrowState_layout)
  have m: "exFallbackTree \<in> set (descendants exFallbackTree)"
    by (simp add: exFallbackTree_def descendants_def)
  from th1 exFallbackState_build leCodeUnits_preorder
  have "\<forall>n\<in>set (descendants exFallbackTree).
          sorted_wrt (byName leCodeUnits
                       (allBrands (exFallbackState\<lparr>allBrands := markBrands exFallback\<rparr>)))
                     (childrenOf n)"
    by blast
  with m have c3: "sorted_wrt (byName leCodeUnits
                       (allBrands (exFallbackState\<lparr>allBrands := markBrands exFallback\<rparr>)))
                     (childrenOf exFallbackTree)"
    by blast
  have s: "allBrands (exFallbackState\<lparr>allBrands := markBrands exFallback\<rparr>) = markBrands exFallback"
    by simp
  from leCodeUnits_preorder exFallbackState_layout c1 c3 [unfolded s] exThrowState_layout c2
  show ?thesis by (intro conjI)
qed

end
